(* ===== verification/Hub_Prelude.thy ===== *)
theory Hub_Prelude
  imports Main "HOL-Library.AList" "HOL-Library.List_Lexorder" "HOL-Library.Char_ord"
    "HOL-Library.Multiset"
begin

text \<open>
  Shared vocabulary of the development: the theorem collections, the operations of Go's
  standard library on strings and decimal numbers that the program calls, and the lemmas about
  lists and association lists that several components use.

  Go strings are byte strings, here \<open>string\<close> (a list of 8-bit characters). The text functions
  (\<open>TrimSpace\<close>, \<open>Fields\<close>, \<open>ToLower\<close>, \<open>ToUpper\<close>, \<open>EqualFold\<close>) are exact on ASCII text: a byte
  above 127 is an ordinary character that is neither a space nor a letter.
  Go's \<open>int\<close> has 64 bits; \<open>atoi\<close> is where the range matters and has the bound written out.
\<close>

named_theorems frame "which parts of a state an operation leaves alone"
named_theorems go_text "evaluation of the text functions"

section \<open>Result values\<close>

text \<open>A Go function that returns \<open>(value, error)\<close> is a sum: \<open>Inl\<close> the error text.\<close>

type_synonym 'a res = "string + 'a"

fun is_ok :: "'e + 'a \<Rightarrow> bool" where
  "is_ok (Inl _) = False"
| "is_ok (Inr _) = True"

lemma is_ok_iff: "is_ok r \<longleftrightarrow> (\<exists>v. r = Inr v)"
  by (cases r) auto

section \<open>Strings\<close>

definition is_space :: "char \<Rightarrow> bool" where
  "is_space c \<longleftrightarrow> c \<in> {CHR 0x20, CHR 0x09, CHR 0x0A, CHR 0x0B, CHR 0x0C, CHR 0x0D}"

definition nl :: char where "nl = CHR 0x0A"

definition trim_left :: "string \<Rightarrow> string" where
  "trim_left s = dropWhile is_space s"

text \<open>\<open>strings.TrimSpace\<close>\<close>

definition trim_space :: "string \<Rightarrow> string" where
  "trim_space s = rev (trim_left (rev (trim_left s)))"

text \<open>\<open>strings.Split\<close> with a separator of one byte: always at least one piece.\<close>

fun split_on :: "char \<Rightarrow> string \<Rightarrow> string list" where
  "split_on c [] = [[]]"
| "split_on c (x # xs) =
     (if x = c then [] # split_on c xs
      else (case split_on c xs of [] \<Rightarrow> [[x]] | p # ps \<Rightarrow> (x # p) # ps))"

text \<open>\<open>strings.Join\<close>\<close>

fun join :: "string \<Rightarrow> string list \<Rightarrow> string" where
  "join sep [] = []"
| "join sep [x] = x"
| "join sep (x # y # ys) = x @ sep @ join sep (y # ys)"

text \<open>\<open>strings.Fields\<close>: the maximal runs of characters that are not spaces.\<close>

fun text_fields_aux :: "string \<Rightarrow> string \<Rightarrow> string list" where
  "text_fields_aux acc [] = (if acc = [] then [] else [rev acc])"
| "text_fields_aux acc (x # xs) =
     (if is_space x then (if acc = [] then text_fields_aux [] xs else rev acc # text_fields_aux [] xs)
      else text_fields_aux (x # acc) xs)"

definition text_fields :: "string \<Rightarrow> string list" where
  "text_fields s = text_fields_aux [] s"

definition has_prefix :: "string \<Rightarrow> string \<Rightarrow> bool" where
  "has_prefix s p \<longleftrightarrow> take (length p) s = p"

definition trim_prefix :: "string \<Rightarrow> string \<Rightarrow> string" where
  "trim_prefix s p = (if has_prefix s p then drop (length p) s else s)"

text \<open>\<open>strings.Contains\<close>\<close>

fun contains :: "string \<Rightarrow> string \<Rightarrow> bool" where
  "contains [] p \<longleftrightarrow> p = []"
| "contains (x # xs) p \<longleftrightarrow> has_prefix (x # xs) p \<or> contains xs p"

text \<open>\<open>strings.LastIndex\<close> of a single byte; \<open>None\<close> is Go's \<open>-1\<close>.\<close>

fun last_index :: "char \<Rightarrow> string \<Rightarrow> nat option" where
  "last_index c [] = None"
| "last_index c (x # xs) =
     (case last_index c xs of Some i \<Rightarrow> Some (Suc i)
      | None \<Rightarrow> if x = c then Some 0 else None)"

definition code :: "char \<Rightarrow> nat" where
  "code c = of_char c"

definition is_upper :: "char \<Rightarrow> bool" where
  "is_upper c \<longleftrightarrow> 65 \<le> code c \<and> code c \<le> 90"

definition is_lower :: "char \<Rightarrow> bool" where
  "is_lower c \<longleftrightarrow> 97 \<le> code c \<and> code c \<le> 122"

definition is_digit :: "char \<Rightarrow> bool" where
  "is_digit c \<longleftrightarrow> 48 \<le> code c \<and> code c \<le> 57"

definition lower_char :: "char \<Rightarrow> char" where
  "lower_char c = (if is_upper c then char_of (code c + 32) else c)"

definition upper_char :: "char \<Rightarrow> char" where
  "upper_char c = (if is_lower c then char_of (code c - 32) else c)"

definition to_lower :: "string \<Rightarrow> string" where
  "to_lower s = map lower_char s"

definition to_upper :: "string \<Rightarrow> string" where
  "to_upper s = map upper_char s"

definition equal_fold :: "string \<Rightarrow> string \<Rightarrow> bool" where
  "equal_fold s t \<longleftrightarrow> to_lower s = to_lower t"

section \<open>Decimal numbers\<close>

definition digit_char :: "nat \<Rightarrow> char" where
  "digit_char n = char_of (48 + n)"

definition digit_val :: "char \<Rightarrow> nat" where
  "digit_val c = code c - 48"

fun show_nat :: "nat \<Rightarrow> string" where
  "show_nat n = (if n < 10 then [digit_char n] else show_nat (n div 10) @ [digit_char (n mod 10)])"

declare show_nat.simps [simp del]

text \<open>\<open>strconv.Itoa\<close> and the verb \<open>%d\<close>\<close>

definition itoa :: "int \<Rightarrow> string" where
  "itoa i = (if i < 0 then CHR ''-'' # show_nat (nat (- i)) else show_nat (nat i))"

definition digits_val :: "string \<Rightarrow> nat" where
  "digits_val s = foldl (\<lambda>a c. 10 * a + digit_val c) 0 s"

definition all_digits :: "string \<Rightarrow> bool" where
  "all_digits s \<longleftrightarrow> s \<noteq> [] \<and> list_all is_digit s"

definition max_int :: int where "max_int = 9223372036854775807"
definition min_int :: int where "min_int = - 9223372036854775808"

text \<open>
  \<open>strconv.Atoi\<close> and \<open>strconv.ParseInt(s, 10, 64)\<close>: the value and whether the error is nil.
  A syntax error gives 0, a number out of range the nearest bound.
\<close>

definition atoi :: "string \<Rightarrow> int \<times> bool" where
  "atoi s =
     (let neg = (s \<noteq> [] \<and> hd s = CHR ''-'');
          body = (if s \<noteq> [] \<and> (hd s = CHR ''-'' \<or> hd s = CHR ''+'') then tl s else s)
      in if \<not> all_digits body then (0, False)
         else let v = (if neg then - int (digits_val body) else int (digits_val body))
              in if v > max_int then (max_int, False)
                 else if v < min_int then (min_int, False) else (v, True))"

section \<open>Lemmas on the text functions\<close>

lemma code_char_of [simp]: "n < 256 \<Longrightarrow> code (char_of n) = n"
  by (simp add: code_def)

lemma code_eq_iff: "code c = code d \<longleftrightarrow> c = d"
  by (simp add: code_def)

lemma code_less_256 [simp]: "code c < 256"
proof -
  have "code c = code c mod 256"
    by (simp add: code_def)
  then show ?thesis
    by (metis mod_less_divisor zero_less_numeral)
qed

lemma is_digit_digit_char [simp]: "n < 10 \<Longrightarrow> is_digit (digit_char n)"
  by (simp add: is_digit_def digit_char_def)

lemma digit_val_digit_char [simp]: "n < 10 \<Longrightarrow> digit_val (digit_char n) = n"
  by (simp add: digit_val_def digit_char_def)

lemma show_nat_not_empty [simp]: "show_nat n \<noteq> []"
  by (subst show_nat.simps) simp

lemma show_nat_digits: "list_all is_digit (show_nat n)"
proof (induction n rule: show_nat.induct)
  case (1 n)
  then show ?case
    by (cases "n < 10") (simp_all add: show_nat.simps [of n])
qed

lemma all_digits_show_nat [simp]: "all_digits (show_nat n)"
  by (simp add: all_digits_def show_nat_digits)

lemma digits_val_snoc: "digits_val (s @ [c]) = 10 * digits_val s + digit_val c"
  by (simp add: digits_val_def)

lemma digits_val_show_nat [simp]: "digits_val (show_nat n) = n"
proof (induction n rule: show_nat.induct)
  case (1 n)
  show ?case
  proof (cases "n < 10")
    case True
    then show ?thesis
      by (simp add: show_nat.simps [of n] digits_val_def)
  next
    case False
    with 1 have "digits_val (show_nat (n div 10)) = n div 10" by simp
    with False show ?thesis
      by (simp add: show_nat.simps [of n] digits_val_snoc)
  qed
qed

lemma show_nat_inject: "show_nat m = show_nat n \<longleftrightarrow> m = n"
  by (metis digits_val_show_nat)

lemma digit_not_sign: "is_digit c \<Longrightarrow> c \<noteq> CHR ''-'' \<and> c \<noteq> CHR ''+''"
  by (auto simp: is_digit_def code_def)

lemma hd_show_nat: "is_digit (hd (show_nat n))"
  using show_nat_digits [of n] show_nat_not_empty [of n]
  by (cases "show_nat n") (simp_all del: show_nat_not_empty)

lemma atoi_itoa:
  assumes "min_int \<le> i" and "i \<le> max_int"
  shows "atoi (itoa i) = (i, True)"
  using assms hd_show_nat [of "nat i"] digit_not_sign [of "hd (show_nat (nat i))"]
  by (auto simp: atoi_def itoa_def Let_def)

lemma split_on_not_empty [simp]: "split_on c s \<noteq> []"
  by (induction c s rule: split_on.induct) (auto split: list.splits)

lemma split_on_no_sep: "c \<notin> set s \<Longrightarrow> split_on c s = [s]"
  by (induction s) auto

lemma split_on_append: "c \<notin> set p \<Longrightarrow> split_on c (p @ c # s) = p # split_on c s"
  by (induction p) auto

lemma split_on_join:
  assumes "ps \<noteq> []" and "\<And>p. p \<in> set ps \<Longrightarrow> c \<notin> set p"
  shows "split_on c (join [c] ps) = ps"
  using assms
proof (induction "[c]" ps rule: join.induct)
  case (3 x y ys)
  then show ?case by (simp add: split_on_append)
qed (auto simp: split_on_no_sep)

lemma split_on_pieces: "p \<in> set (split_on c s) \<Longrightarrow> c \<notin> set p"
proof (induction c s arbitrary: p rule: split_on.induct)
  case (2 c x xs)
  then show ?case
    by (cases "x = c"; cases "split_on c xs") auto
qed simp

lemma has_prefix_append [simp]: "has_prefix (p @ s) p"
  by (simp add: has_prefix_def)

lemma has_prefix_iff: "has_prefix s p \<longleftrightarrow> (\<exists>t. s = p @ t)"
  unfolding has_prefix_def by (metis append_eq_conv_conj append_take_drop_id)

lemma contains_iff: "contains s p \<longleftrightarrow> (\<exists>a b. s = a @ p @ b)"
proof (induction s)
  case Nil
  then show ?case by auto
next
  case (Cons x xs)
  show ?case
  proof
    assume "contains (x # xs) p"
    then consider "has_prefix (x # xs) p" | "contains xs p" by auto
    then show "\<exists>a b. x # xs = a @ p @ b"
    proof cases
      case 1
      then show ?thesis by (metis append_Nil has_prefix_iff)
    next
      case 2
      with Cons.IH obtain a b where "xs = a @ p @ b" by blast
      then have "x # xs = (x # a) @ p @ b" by simp
      then show ?thesis by blast
    qed
  next
    assume "\<exists>a b. x # xs = a @ p @ b"
    then obtain a b where ab: "x # xs = a @ p @ b" by blast
    show "contains (x # xs) p"
    proof (cases a)
      case Nil
      with ab show ?thesis by (metis append_Nil contains.simps(2) has_prefix_append)
    next
      case (Cons y a')
      with ab have "xs = a' @ p @ b" by simp
      with Cons.IH show ?thesis by auto
    qed
  qed
qed

lemma dropWhile_id: "s = [] \<or> \<not> P (hd s) \<Longrightarrow> dropWhile P s = s"
  by (cases s) auto

lemma trim_space_id:
  assumes "s = [] \<or> (\<not> is_space (hd s) \<and> \<not> is_space (last s))"
  shows "trim_space s = s"
  using assms by (auto simp: trim_space_def trim_left_def dropWhile_id hd_rev)

lemma last_index_append:
  "last_index c (a @ c # b) = (case last_index c b of None \<Rightarrow> Some (length a)
                                | Some i \<Rightarrow> Some (Suc (length a + i)))"
  by (induction a) (auto split: option.splits)

lemma last_index_None: "last_index c s = None \<longleftrightarrow> c \<notin> set s"
  by (induction s) (auto split: option.splits)

text \<open>A word: not empty and without white space.\<close>

definition word :: "string \<Rightarrow> bool" where
  "word s \<longleftrightarrow> s \<noteq> [] \<and> list_all (\<lambda>c. \<not> is_space c) s"

lemma word_no_nl: "word s \<Longrightarrow> nl \<notin> set s"
  by (auto simp: word_def list_all_iff nl_def is_space_def)

lemma word_trim: "word s \<Longrightarrow> trim_space s = s"
  by (rule trim_space_id) (auto simp: word_def list_all_iff)

lemma text_fields_aux_word:
  "list_all (\<lambda>c. \<not> is_space c) s \<Longrightarrow> text_fields_aux acc (s @ t) = text_fields_aux (rev s @ acc) t"
  by (induction s arbitrary: acc) auto

lemma text_fields_words:
  "word s \<Longrightarrow> is_space c \<Longrightarrow> word t \<Longrightarrow> text_fields (s @ c # t) = [s, t]"
  using text_fields_aux_word [of s "[]" "c # t"] text_fields_aux_word [of t "[]" "[]"]
  by (simp add: text_fields_def word_def)

lemma trim_space_nil [simp]: "trim_space [] = []"
  by (simp add: trim_space_def trim_left_def)

lemma trim_words: "word s \<Longrightarrow> word t \<Longrightarrow> trim_space (s @ c # t) = s @ c # t"
  by (rule trim_space_id) (auto simp: word_def list_all_iff hd_append)

text \<open>A text with a final line break after every line splits into the lines and one empty piece.\<close>

lemma split_on_lines:
  "\<forall>l \<in> set ls. c \<notin> set l \<Longrightarrow> split_on c (concat (map (\<lambda>l. l @ [c]) ls)) = ls @ [[]]"
  by (induction ls) (auto simp: split_on_append)

section \<open>Keys handed out once\<close>

text \<open>
  The contract of a step that hands out keys: none that was seen before, none twice, and all are seen
  afterwards. Over any number of steps no key is handed out twice.
\<close>

locale once =
  fixes seen :: "'s \<Rightarrow> 'k set"
    and step :: "'i \<Rightarrow> 's \<Rightarrow> 'k list \<times> 's"
  assumes step_once: "step i s = (ks, s') \<Longrightarrow> distinct ks \<and> set ks \<inter> seen s = {} \<and> seen s' = seen s \<union> set ks"
begin

fun steps :: "'i list \<Rightarrow> 's \<Rightarrow> 'k list \<times> 's" where
  "steps [] s = ([], s)"
| "steps (i # is) s = (let (ks, s1) = step i s; (ks', s2) = steps is s1 in (ks @ ks', s2))"

lemma steps_once: "steps is s = (ks, s') \<Longrightarrow> distinct ks \<and> set ks \<inter> seen s = {} \<and> seen s' = seen s \<union> set ks"
proof (induction "is" arbitrary: s ks s')
  case (Cons i "is")
  obtain k1 s1 where 1: "step i s = (k1, s1)" by (cases "step i s")
  obtain k2 s2 where 2: "steps is s1 = (k2, s2)" by (cases "steps is s1")
  have "ks = k1 @ k2" "s' = s2" using Cons.prems by (simp_all add: 1 2)
  with step_once [OF 1] Cons.IH [OF 2] show ?case by auto
qed simp

end

end
