(* ===== verification/Go_Time.thy ===== *)
theory Go_Time
  imports Hub_Prelude
begin

text \<open>
  Instants, durations and the RFC 3339 text form of an instant, as the program uses Go's
  package \<open>time\<close>: every timestamp of the database and of the container labels is
  \<open>t.UTC().Format(time.RFC3339)\<close>, and the queries of \<open>store.go\<close> compare these texts as strings.
  The lemmas show that for the years 0 to 9999 the comparison of the texts is the comparison of
  the instants cut to seconds, and that parsing the text gives that instant back.
\<close>

section \<open>Instants\<close>

text \<open>
  An instant is the number of nanoseconds since the Unix epoch; a duration is a number of
  nanoseconds. The zero value of \<open>time.Time\<close> is 1 January of the year 1.
\<close>

type_synonym time = int
type_synonym duration = int

definition nanos :: int where "nanos = 1000000000"

definition zero_time :: time where "zero_time = - 62135596800 * nanos"

definition is_zero :: "time \<Rightarrow> bool" where "is_zero t \<longleftrightarrow> t = zero_time"

text \<open>\<open>t.Sub(u)\<close> saturates at the bounds of a 64-bit duration.\<close>

definition time_sub :: "time \<Rightarrow> time \<Rightarrow> duration" where
  "time_sub t u = max min_int (min max_int (t - u))"

text \<open>The instant cut to whole seconds, which is what the text form keeps.\<close>

definition floor_sec :: "time \<Rightarrow> time" where
  "floor_sec t = t div nanos * nanos"

section \<open>The calendar\<close>

definition leap :: "int \<Rightarrow> bool" where
  "leap y \<longleftrightarrow> 4 dvd y \<and> (\<not> 100 dvd y \<or> 400 dvd y)"

text \<open>Days from 1 January of year 0 to 1 January of year \<open>y\<close>.\<close>

definition days_before_year :: "int \<Rightarrow> int" where
  "days_before_year y = 365 * y + (y + 3) div 4 - (y + 99) div 100 + (y + 399) div 400"

definition year_of :: "int \<Rightarrow> int" where
  "year_of d =
     (let y = d * 400 div 146097
      in if days_before_year (y + 1) \<le> d then y + 1
         else if d < days_before_year y then y - 1 else y)"

definition month_lens :: "bool \<Rightarrow> int list" where
  "month_lens l = [31, if l then 29 else 28, 31, 30, 31, 30, 31, 31, 30, 31, 30, 31]"

fun month_day :: "int \<Rightarrow> int list \<Rightarrow> int \<Rightarrow> int \<times> int" where
  "month_day m [] d = (m, d + 1)"
| "month_day m (l # ls) d = (if d < l then (m, d + 1) else month_day (m + 1) ls (d - l))"

definition civil :: "int \<Rightarrow> int \<times> int \<times> int" where
  "civil d = (let y = year_of d in (y, month_day 1 (month_lens (leap y)) (d - days_before_year y)))"

definition days_of_civil :: "int \<Rightarrow> int \<Rightarrow> int \<Rightarrow> int" where
  "days_of_civil y m d =
     days_before_year y + sum_list (take (nat (m - 1)) (month_lens (leap y))) + d - 1"

text \<open>1 January 1970, counted from 1 January of year 0.\<close>

definition epoch_days :: int where "epoch_days = 719528"

section \<open>The text form\<close>

fun pad :: "nat \<Rightarrow> nat \<Rightarrow> string" where
  "pad 0 n = []"
| "pad (Suc k) n = pad k (n div 10) @ [digit_char (n mod 10)]"

text \<open>A field of at least \<open>k\<close> digits, wider when the number needs it.\<close>

definition pad_min :: "nat \<Rightarrow> int \<Rightarrow> string" where
  "pad_min k i =
     (let n = nat \<bar>i\<bar>
      in (if i < 0 then ''-'' else '''') @ (if n < 10 ^ k then pad k n else show_nat n))"

definition clock_of :: "int \<Rightarrow> int \<times> int \<times> int" where
  "clock_of s = (s div 3600, s div 60 mod 60, s mod 60)"

text \<open>\<open>t.UTC().Format(time.RFC3339)\<close>\<close>

definition fmt_rfc3339 :: "time \<Rightarrow> string" where
  "fmt_rfc3339 t =
     (let s = t div nanos; (y, m, d) = civil (s div 86400 + epoch_days);
          (hh, mm, ss) = clock_of (s mod 86400)
      in pad_min 4 y @ ''-'' @ pad 2 (nat m) @ ''-'' @ pad 2 (nat d) @ ''T'' @
         pad 2 (nat hh) @ '':'' @ pad 2 (nat mm) @ '':'' @ pad 2 (nat ss) @ ''Z'')"

text \<open>A run of exactly \<open>k\<close> digits at position \<open>i\<close>.\<close>

definition num_at :: "nat \<Rightarrow> nat \<Rightarrow> string \<Rightarrow> int option" where
  "num_at i k s =
     (let p = take k (drop i s)
      in if length p = k \<and> list_all is_digit p then Some (int (digits_val p)) else None)"

definition char_at :: "nat \<Rightarrow> char \<Rightarrow> string \<Rightarrow> bool" where
  "char_at i c s \<longleftrightarrow> take 1 (drop i s) = [c]"

text \<open>The fraction after the seconds: at most nine digits count.\<close>

definition frac_nanos :: "string \<Rightarrow> int" where
  "frac_nanos ds = (let p = take 9 ds in int (digits_val p) * 10 ^ (9 - length p))"

definition zone_offset :: "string \<Rightarrow> int option" where
  "zone_offset s =
     (if s = ''Z'' then Some 0
      else if length s = 6 \<and> (char_at 0 CHR ''+'' s \<or> char_at 0 CHR ''-'' s) \<and> char_at 3 CHR '':'' s
      then (case (num_at 1 2 s, num_at 4 2 s) of
              (Some h, Some m) \<Rightarrow>
                if h \<le> 23 \<and> m \<le> 59
                then Some ((if char_at 0 CHR ''-'' s then -1 else 1) * (h * 60 + m) * 60) else None
            | _ \<Rightarrow> None)
      else None)"

text \<open>\<open>time.Parse(time.RFC3339, s)\<close>; \<open>None\<close> is an error.\<close>

definition parse_rfc3339 :: "string \<Rightarrow> time option" where
  "parse_rfc3339 s =
     (case (num_at 0 4 s, num_at 5 2 s, num_at 8 2 s) of
        (Some y, Some m, Some d) \<Rightarrow>
          (case (num_at 11 2 s, num_at 14 2 s, num_at 17 2 s) of
             (Some hh, Some mm, Some ss) \<Rightarrow>
               if char_at 4 CHR ''-'' s \<and> char_at 7 CHR ''-'' s \<and> char_at 10 CHR ''T'' s \<and>
                  char_at 13 CHR '':'' s \<and> char_at 16 CHR '':'' s \<and>
                  1 \<le> m \<and> m \<le> 12 \<and> 1 \<le> d \<and> d \<le> month_lens (leap y) ! nat (m - 1) \<and>
                  hh \<le> 23 \<and> mm \<le> 59 \<and> ss \<le> 59
               then
                 let rest = drop 19 s;
                     ds = (if char_at 0 CHR ''.'' rest then takeWhile is_digit (drop 1 rest) else []);
                     zone = (if ds = [] then rest else drop (Suc (length ds)) rest)
                 in (case zone_offset zone of
                       Some off \<Rightarrow>
                         Some ((((days_of_civil y m d - epoch_days) * 86400 + hh * 3600 + mm * 60 + ss)
                                 - off) * nanos + frac_nanos ds)
                     | None \<Rightarrow> None)
               else None
           | _ \<Rightarrow> None)
      | _ \<Rightarrow> None)"

text \<open>\<open>t, _ := time.Parse(time.RFC3339, s)\<close>: an error leaves the zero time.\<close>

definition parse_or_zero :: "string \<Rightarrow> time" where
  "parse_or_zero s = (case parse_rfc3339 s of Some t \<Rightarrow> t | None \<Rightarrow> zero_time)"

text \<open>The instants whose year has four digits.\<close>

definition year4 :: "time \<Rightarrow> bool" where
  "year4 t \<longleftrightarrow> - 62167219200 * nanos \<le> t \<and> t < 253402300800 * nanos"

section \<open>Lemmas on the calendar\<close>

lemma div_step:
  fixes n y :: int
  assumes "0 < n"
  shows "(y + n) div n = (y + (n - 1)) div n + (if n dvd y then 1 else 0)"
proof -
  define q r where "q = y div n" and "r = y mod n"
  have y: "y = n * q + r" and r: "0 \<le> r" "r < n"
    using assms by (simp_all add: q_def r_def)
  have d: "n dvd y \<longleftrightarrow> r = 0" by (simp add: r_def dvd_eq_mod_eq_0)
  have "(y + n) div n = q + 1"
    using assms div_add_self2 [of n y] by (simp add: q_def)
  moreover have "(y + (n - 1)) div n = q + (r + (n - 1)) div n"
    unfolding y using assms by (metis add.assoc div_mult_self2 less_numeral_extra(3) add.commute)
  moreover have "(r + (n - 1)) div n = (if r = 0 then 0 else 1)"
    using r assms by (auto simp: int_div_pos_eq [where q = 1 and r = "r - 1"])
  ultimately show ?thesis using d by simp
qed

lemma div_bounds:
  fixes n y :: int
  assumes "0 < n"
  shows "n * (y div n) \<le> y \<and> y < n * (y div n) + n"
  using assms by (metis add_le_cancel_left add.right_neutral mult_div_mod_eq
      pos_mod_bound pos_mod_sign add_strict_left_mono)

lemma days_before_year_Suc:
  "days_before_year (y + 1) = days_before_year y + (if leap y then 366 else 365)"
proof -
  have d: "400 dvd y \<Longrightarrow> 100 dvd y" "100 dvd y \<Longrightarrow> 4 dvd y"
    by (auto intro: dvd_trans [of 100 400] dvd_trans [of 4 100])
  have a: "(y + 1 + 3) div 4 = (y + 3) div 4 + (if 4 dvd y then 1 else 0)"
    using div_step [of 4 y] by (simp add: add.assoc)
  have b: "(y + 1 + 99) div 100 = (y + 99) div 100 + (if 100 dvd y then 1 else 0)"
    using div_step [of 100 y] by (simp add: add.assoc)
  have c: "(y + 1 + 399) div 400 = (y + 399) div 400 + (if 400 dvd y then 1 else 0)"
    using div_step [of 400 y] by (simp add: add.assoc)
  show ?thesis
    unfolding days_before_year_def leap_def a b c using d
    by (cases "4 dvd y"; cases "100 dvd y"; cases "400 dvd y") simp_all
qed

lemma days_before_year_mono: "x \<le> y \<Longrightarrow> days_before_year x \<le> days_before_year y"
proof (induction y rule: int_ge_induct)
  case base
  show ?case by simp
next
  case (step i)
  then show ?case by (simp add: days_before_year_Suc)
qed

lemma year_le:
  assumes "days_before_year y \<le> d" and "d \<le> d'" and "d' < days_before_year (z + 1)"
  shows "y \<le> z"
proof (rule ccontr)
  assume "\<not> y \<le> z"
  then have "days_before_year (z + 1) \<le> days_before_year y"
    by (intro days_before_year_mono) simp
  with assms show False by linarith
qed

lemma days_before_year_approx:
  "146097 * z - 397 \<le> 400 * days_before_year z"
  "400 * days_before_year z \<le> 146097 * z + 700"
  unfolding days_before_year_def
  using div_bounds [of 4 "z + 3"] div_bounds [of 100 "z + 99"] div_bounds [of 400 "z + 399"]
  by simp_all

lemma year_of_bounds:
  "days_before_year (year_of d) \<le> d \<and> d < days_before_year (year_of d + 1)"
proof -
  define y where "y = d * 400 div 146097"
  have e: "146097 * y \<le> 400 * d" "400 * d < 146097 * y + 146097"
    using div_bounds [of 146097 "d * 400"] by (simp_all add: y_def algebra_simps)
  define a b where "a = days_before_year (y - 1)" and "b = days_before_year (y + 1 + 1)"
  have "400 * a \<le> 146097 * y - 145397" "146097 * y + 291797 \<le> 400 * b"
    using days_before_year_approx(2) [of "y - 1"] days_before_year_approx(1) [of "y + 1 + 1"]
    by (simp_all add: a_def b_def algebra_simps)
  with e have "a \<le> d" "d < b" by linarith+
  then have "days_before_year (y - 1) \<le> d" "d < days_before_year (y + 1 + 1)"
    by (simp_all add: a_def b_def)
  then show ?thesis
    unfolding year_of_def y_def [symmetric] Let_def by auto
qed

lemma year_of_mono: "d \<le> d' \<Longrightarrow> year_of d \<le> year_of d'"
  by (meson year_le year_of_bounds)

lemma year_of_unique:
  assumes "days_before_year y \<le> d" and "d < days_before_year (y + 1)"
  shows "year_of d = y"
  using assms year_of_bounds [of d] year_le [of y d d "year_of d"] year_le [of "year_of d" d d y]
  by simp

section \<open>Lemmas on months\<close>

lemma month_day_less:
  assumes "d < d'" and "0 \<le> d"
  shows "fst (month_day m ls d) < fst (month_day m ls d') \<or>
         fst (month_day m ls d) = fst (month_day m ls d') \<and>
         snd (month_day m ls d) < snd (month_day m ls d')"
proof -
  have ge: "m \<le> fst (month_day m ls d)" for m ls d
    by (induction m ls d rule: month_day.induct) auto
  show ?thesis
    using assms
  proof (induction m ls d arbitrary: d' rule: month_day.induct)
    case (2 m l ls d)
    show ?case
    proof (cases "d < l")
      case True
      have "m + 1 \<le> fst (month_day (m + 1) ls (d' - l))" by (rule ge)
      then show ?thesis using True "2.prems" by auto
    next
      case False
      with "2.prems" have "\<not> d' < l" by simp
      with False "2.IH" [of "d' - l"] "2.prems" show ?thesis by simp
    qed
  qed simp
qed

lemma month_day_spec:
  assumes "0 \<le> d" and "d < sum_list ls"
  shows "\<exists>k < length ls. fst (month_day m ls d) = m + int k \<and>
           1 \<le> snd (month_day m ls d) \<and> snd (month_day m ls d) \<le> ls ! k \<and>
           sum_list (take k ls) + snd (month_day m ls d) - 1 = d"
  using assms
proof (induction m ls d rule: month_day.induct)
  case (2 m l ls d)
  show ?case
  proof (cases "d < l")
    case True
    with "2.prems" show ?thesis by (intro exI [of _ 0]) simp
  next
    case False
    with 2 obtain k where k: "k < length ls"
      "fst (month_day (m + 1) ls (d - l)) = m + 1 + int k"
      "1 \<le> snd (month_day (m + 1) ls (d - l))" "snd (month_day (m + 1) ls (d - l)) \<le> ls ! k"
      "sum_list (take k ls) + snd (month_day (m + 1) ls (d - l)) - 1 = d - l"
      by auto
    with False show ?thesis by (intro exI [of _ "Suc k"]) simp
  qed
qed simp

lemma sum_month_lens: "sum_list (month_lens l) = (if l then 366 else 365)"
  by (simp add: month_lens_def)

lemma length_month_lens [simp]: "length (month_lens l) = 12"
  by (simp add: month_lens_def)

lemma month_lens_le: "k < 12 \<Longrightarrow> month_lens l ! k \<le> 31"
  by (auto simp: month_lens_def nth_Cons split: nat.splits)

lemma civil_spec:
  assumes "civil n = (y, m, d)"
  shows "y = year_of n \<and> 1 \<le> m \<and> m \<le> 12 \<and> 1 \<le> d \<and> d \<le> month_lens (leap y) ! nat (m - 1) \<and>
         days_of_civil y m d = n"
proof -
  have y: "y = year_of n"
    and md: "month_day 1 (month_lens (leap y)) (n - days_before_year y) = (m, d)"
    using assms by (auto simp: civil_def Let_def)
  have "0 \<le> n - days_before_year y" "n - days_before_year y < sum_list (month_lens (leap y))"
    using year_of_bounds [of n] days_before_year_Suc [of y] by (auto simp: y sum_month_lens)
  from month_day_spec [OF this, of 1] md
  obtain k where "k < 12" "m = 1 + int k" "1 \<le> d" "d \<le> month_lens (leap y) ! k"
    "sum_list (take k (month_lens (leap y))) + d - 1 = n - days_before_year y"
    by auto
  with y show ?thesis by (simp add: days_of_civil_def)
qed

lemma civil_less:
  assumes "civil n = (y, m, d)" and "civil n' = (y', m', d')" and "n < n'"
  shows "y < y' \<or> y = y' \<and> (m < m' \<or> m = m' \<and> d < d')"
proof (cases "y = y'")
  case True
  have "0 \<le> n - days_before_year y"
    using assms(1) year_of_bounds [of n] by (auto simp: civil_def Let_def)
  then show ?thesis
    using assms True month_day_less [of "n - days_before_year y" "n' - days_before_year y" 1
        "month_lens (leap y)"]
    by (auto simp: civil_def Let_def)
next
  case False
  with assms civil_spec [of n] civil_spec [of n'] year_of_mono [of n n'] show ?thesis by force
qed

section \<open>Lemmas on the text form\<close>

lemma less_append_same_length:
  fixes a b c d :: "'a::linorder list"
  assumes "length a = length b"
  shows "a @ c < b @ d \<longleftrightarrow> a < b \<or> a = b \<and> c < d"
  using assms by (induction a b rule: list_induct2) auto

lemma digit_char_less: "m < 10 \<Longrightarrow> n < 10 \<Longrightarrow> digit_char m < digit_char n \<longleftrightarrow> m < n"
  by (simp add: digit_char_def less_char_def)

lemma digit_char_eq: "m < 10 \<Longrightarrow> n < 10 \<Longrightarrow> digit_char m = digit_char n \<longleftrightarrow> m = n"
  by (metis digit_val_digit_char)

lemma length_pad [simp]: "length (pad k n) = k"
  by (induction k n rule: pad.induct) auto

lemma pad_digits [simp]: "list_all is_digit (pad k n)"
  by (induction k n rule: pad.induct) auto

lemma digits_val_pad: "n < 10 ^ k \<Longrightarrow> digits_val (pad k n) = n"
proof (induction k n rule: pad.induct)
  case (1 n)
  then show ?case by (simp add: digits_val_def)
next
  case (2 k n)
  then have "n div 10 < 10 ^ k" by auto
  with 2 show ?case by (simp add: digits_val_snoc)
qed

lemma pad_less: "m < 10 ^ k \<Longrightarrow> n < 10 ^ k \<Longrightarrow> m < n \<Longrightarrow> pad k m < pad k n"
proof (induction k arbitrary: m n)
  case (Suc k)
  then have b: "m div 10 < 10 ^ k" "n div 10 < 10 ^ k" by auto
  from Suc.prems(3) consider "m div 10 < n div 10" | "m div 10 = n div 10" "m mod 10 < n mod 10"
    by (metis div_le_mono div_mult_mod_eq le_neq_implies_less less_imp_le_nat nat_add_left_cancel_less)
  then show ?case
  proof cases
    case 1
    with b Suc.IH show ?thesis by (simp add: less_append_same_length)
  next
    case 2
    then show ?thesis by (simp add: less_append_same_length digit_char_less)
  qed
qed simp

lemma clock_of_spec:
  assumes "clock_of s = (h, m, c)" and "0 \<le> s" and "s < 86400"
  shows "0 \<le> h \<and> h \<le> 23 \<and> 0 \<le> m \<and> m \<le> 59 \<and> 0 \<le> c \<and> c \<le> 59 \<and> h * 3600 + m * 60 + c = s"
proof -
  have e: "h = s div 3600" "m = s div 60 mod 60" "c = s mod 60"
    using assms(1) by (auto simp: clock_of_def)
  have "s div 3600 = s div 60 div 60" by (simp add: zdiv_zmult2_eq [symmetric])
  then have 1: "s div 60 = 60 * h + m" by (simp add: e)
  have 2: "s = 60 * (s div 60) + c" by (simp add: e)
  have 3: "0 \<le> h" "h \<le> 23" using assms(2,3) by (simp_all add: e)
  have 4: "0 \<le> m" "m < 60" "0 \<le> c" "c < 60" by (simp_all add: e)
  from 1 2 have "h * 3600 + m * 60 + c = s" by linarith
  with 3 4 show ?thesis by simp
qed

text \<open>The six numbers of an instant, and their order.\<close>

definition stamp :: "time \<Rightarrow> (int \<times> int \<times> int) \<times> int \<times> int \<times> int" where
  "stamp t = (let s = t div nanos in (civil (s div 86400 + epoch_days), clock_of (s mod 86400)))"

lemma year4_year:
  assumes "year4 t"
  shows "0 \<le> year_of (t div nanos div 86400 + epoch_days)"
    and "year_of (t div nanos div 86400 + epoch_days) \<le> 9999"
proof -
  define s where "s = t div nanos"
  have "- 62167219200 \<le> s" "s < 253402300800"
    using assms div_bounds [of 1000000000 t] by (simp_all add: s_def year4_def nanos_def)
  then have b: "0 \<le> s div 86400 + epoch_days" "s div 86400 + epoch_days < 3652425"
    by (simp_all add: epoch_days_def)
  have z: "days_before_year 0 = 0" "days_before_year (9999 + 1) = 3652425"
    by (simp_all add: days_before_year_def)
  have bs: "days_before_year (year_of n) \<le> n" "n < days_before_year (year_of n + 1)" for n
    using year_of_bounds by auto
  have "0 \<le> year_of (s div 86400 + epoch_days)"
    by (rule year_le [OF _ _ bs(2)]) (use b z in auto)
  moreover have "year_of (s div 86400 + epoch_days) \<le> 9999"
    by (rule year_le [OF bs(1) order_refl]) (use b z in simp)
  ultimately show "0 \<le> year_of (t div nanos div 86400 + epoch_days)"
    "year_of (t div nanos div 86400 + epoch_days) \<le> 9999"
    by (simp_all add: s_def)
qed

lemma stamp_spec:
  assumes "stamp t = ((y, m, d), hh, mm, ss)" and "year4 t"
  shows "0 \<le> y \<and> y \<le> 9999 \<and> 1 \<le> m \<and> m \<le> 12 \<and> 1 \<le> d \<and> d \<le> month_lens (leap y) ! nat (m - 1)
      \<and> d \<le> 31 \<and> 0 \<le> hh \<and> hh \<le> 23 \<and> 0 \<le> mm \<and> mm \<le> 59 \<and> 0 \<le> ss \<and> ss \<le> 59 \<and>
      (days_of_civil y m d - epoch_days) * 86400 + hh * 3600 + mm * 60 + ss = t div nanos"
proof -
  have c: "civil (t div nanos div 86400 + epoch_days) = (y, m, d)"
    and k: "clock_of (t div nanos mod 86400) = (hh, mm, ss)"
    using assms(1) by (auto simp: stamp_def Let_def)
  have cs: "y = year_of (t div nanos div 86400 + epoch_days)" "1 \<le> m" "m \<le> 12" "1 \<le> d"
    "d \<le> month_lens (leap y) ! nat (m - 1)"
    "days_of_civil y m d = t div nanos div 86400 + epoch_days"
    using civil_spec [OF c] by auto
  have "month_lens (leap y) ! nat (m - 1) \<le> 31"
    by (rule month_lens_le) (use cs in simp)
  with cs have "d \<le> 31" by linarith
  have h: "0 \<le> hh" "hh \<le> 23" "0 \<le> mm" "mm \<le> 59" "0 \<le> ss" "ss \<le> 59"
      "hh * 3600 + mm * 60 + ss = t div nanos mod 86400"
    using clock_of_spec [OF k] by simp_all
  have "(days_of_civil y m d - epoch_days) * 86400 + hh * 3600 + mm * 60 + ss =
      t div nanos div 86400 * 86400 + (hh * 3600 + mm * 60 + ss)"
    using cs(6) by simp
  also have "\<dots> = t div nanos" by (simp only: h(7) div_mult_mod_eq)
  finally have "(days_of_civil y m d - epoch_days) * 86400 + hh * 3600 + mm * 60 + ss = t div nanos" .
  with \<open>d \<le> 31\<close> h(1-6) show ?thesis using cs year4_year [OF assms(2)] by simp
qed

lemma fmt_stamp:
  assumes "stamp t = ((y, m, d), hh, mm, ss)"
  shows "fmt_rfc3339 t = pad_min 4 y @ ''-'' @ pad 2 (nat m) @ ''-'' @ pad 2 (nat d) @ ''T'' @
         pad 2 (nat hh) @ '':'' @ pad 2 (nat mm) @ '':'' @ pad 2 (nat ss) @ ''Z''"
  using assms by (auto simp: fmt_rfc3339_def stamp_def Let_def split: prod.splits)

lemma pad_min_small: "0 \<le> y \<Longrightarrow> y \<le> 9999 \<Longrightarrow> pad_min 4 y = pad 4 (nat y)"
  by (simp add: pad_min_def Let_def nat_less_iff)

lemma pad_value:
  "0 \<le> a \<Longrightarrow> a \<le> 9999 \<Longrightarrow> int (digits_val (pad 4 (nat a))) = a"
  "0 \<le> a \<Longrightarrow> a \<le> 59 \<Longrightarrow> int (digits_val (pad 2 (nat a))) = a"
  by (subst digits_val_pad; simp add: nat_less_iff)+

lemma stamp_less:
  assumes "stamp t = ((y, m, d), hh, mm, ss)" and "stamp t' = ((y', m', d'), hh', mm', ss')"
    and "t div nanos < t' div nanos"
  shows "y < y' \<or> y = y' \<and> (m < m' \<or> m = m' \<and> (d < d' \<or> d = d' \<and>
      (hh < hh' \<or> hh = hh' \<and> (mm < mm' \<or> mm = mm' \<and> ss < ss'))))"
proof -
  define s s' where "s = t div nanos" and "s' = t' div nanos"
  have c: "civil (s div 86400 + epoch_days) = (y, m, d)" "clock_of (s mod 86400) = (hh, mm, ss)"
    "civil (s' div 86400 + epoch_days) = (y', m', d')" "clock_of (s' mod 86400) = (hh', mm', ss')"
    using assms by (auto simp: stamp_def Let_def s_def s'_def)
  have lt: "s < s'" using assms(3) by (simp add: s_def s'_def)
  show ?thesis
  proof (cases "s div 86400 = s' div 86400")
    case True
    with lt have "s mod 86400 < s' mod 86400"
      by (metis add_less_cancel_left mult_div_mod_eq)
    with clock_of_spec [OF c(2)] clock_of_spec [OF c(4)]
    have "hh < hh' \<or> hh = hh' \<and> (mm < mm' \<or> mm = mm' \<and> ss < ss')" by simp linarith
    with True c show ?thesis by simp
  next
    case False
    with lt have "s div 86400 < s' div 86400"
      by (metis less_imp_le order_le_imp_less_or_eq zdiv_mono1 zero_less_numeral)
    with civil_less [OF c(1) c(3)] show ?thesis by auto
  qed
qed

lemma fmt_less:
  assumes "year4 t" and "year4 t'" and "t div nanos < t' div nanos"
  shows "fmt_rfc3339 t < fmt_rfc3339 t'"
proof -
  obtain y m d hh mm ss where s: "stamp t = ((y, m, d), hh, mm, ss)" by (metis prod.exhaust)
  obtain y' m' d' hh' mm' ss' where s': "stamp t' = ((y', m', d'), hh', mm', ss')"
    by (metis prod.exhaust)
  note b = stamp_spec [OF s assms(1)] stamp_spec [OF s' assms(2)]
  have p4: "\<And>a b. 0 \<le> a \<Longrightarrow> a < b \<Longrightarrow> b \<le> 9999 \<Longrightarrow> pad 4 (nat a) < pad 4 (nat b)"
    and p2: "\<And>a b. 0 \<le> a \<Longrightarrow> a < b \<Longrightarrow> b \<le> 59 \<Longrightarrow> pad 2 (nat a) < pad 2 (nat b)"
    by (rule pad_less; simp)+
  have "pad_min 4 y = pad 4 (nat y)" "pad_min 4 y' = pad 4 (nat y')"
    using b by (auto intro: pad_min_small)
  then show ?thesis
    using stamp_less [OF s s' assms(3)] b p4 [of y y'] p2 [of m m'] p2 [of d d'] p2 [of hh hh']
      p2 [of mm mm'] p2 [of ss ss']
    by (auto simp: fmt_stamp [OF s] fmt_stamp [OF s'] less_append_same_length)
qed

lemma fmt_cong: "t div nanos = t' div nanos \<Longrightarrow> fmt_rfc3339 t = fmt_rfc3339 t'"
  by (simp add: fmt_rfc3339_def)

text \<open>The texts are ordered as the instants cut to seconds.\<close>

lemma fmt_le_iff:
  assumes "year4 t" and "year4 t'"
  shows "fmt_rfc3339 t \<le> fmt_rfc3339 t' \<longleftrightarrow> t div nanos \<le> t' div nanos"
  using fmt_less [OF assms] fmt_less [OF assms(2,1)] fmt_cong [of t t']
  by (metis linorder_neqE_linordered_idom less_le_not_le nle_le order_less_le)

lemma fmt_eq_iff:
  assumes "year4 t" and "year4 t'"
  shows "fmt_rfc3339 t = fmt_rfc3339 t' \<longleftrightarrow> t div nanos = t' div nanos"
  using fmt_le_iff [OF assms] fmt_le_iff [OF assms(2,1)] by (metis nle_le order_antisym)

lemma parse_fmt:
  assumes "year4 t"
  shows "parse_rfc3339 (fmt_rfc3339 t) = Some (floor_sec t)"
proof -
  obtain y m d hh mm ss where s: "stamp t = ((y, m, d), hh, mm, ss)" by (metis prod.exhaust)
  note b = stamp_spec [OF s assms]
  define f where "f = fmt_rfc3339 t"
  have f: "f = pad 4 (nat y) @ ''-'' @ pad 2 (nat m) @ ''-'' @ pad 2 (nat d) @ ''T'' @
         pad 2 (nat hh) @ '':'' @ pad 2 (nat mm) @ '':'' @ pad 2 (nat ss) @ ''Z''"
    using b by (auto simp: f_def fmt_stamp [OF s] pad_min_small)
  have n: "num_at 0 4 f = Some y" "num_at 5 2 f = Some m" "num_at 8 2 f = Some d"
    "num_at 11 2 f = Some hh" "num_at 14 2 f = Some mm" "num_at 17 2 f = Some ss"
    using b by (auto simp: f num_at_def Let_def pad_value)
  have c: "char_at 4 CHR ''-'' f" "char_at 7 CHR ''-'' f" "char_at 10 CHR ''T'' f"
    "char_at 13 CHR '':'' f" "char_at 16 CHR '':'' f" "drop 19 f = ''Z''"
    by (simp_all add: f char_at_def)
  have z: "zone_offset ''Z'' = Some 0" "\<not> char_at 0 CHR ''.'' ''Z''" "frac_nanos [] = 0"
    by (simp_all add: zone_offset_def char_at_def frac_nanos_def digits_val_def)
  show ?thesis
    using b by (simp add: parse_rfc3339_def f_def [symmetric] n c z Let_def floor_sec_def)
qed

lemma parse_or_zero_fmt: "year4 t \<Longrightarrow> parse_or_zero (fmt_rfc3339 t) = floor_sec t"
  by (simp add: parse_or_zero_def parse_fmt)

lemma floor_sec_le: "floor_sec t \<le> t \<and> t < floor_sec t + nanos"
  using div_bounds [of nanos t] by (simp add: floor_sec_def nanos_def mult.commute)

lemma year4_floor_sec: "year4 t \<Longrightarrow> year4 (floor_sec t)"
  by (auto simp: year4_def floor_sec_def nanos_def)

lemma zero_time_year4: "year4 zero_time"
  by (simp add: year4_def zero_time_def nanos_def)

end
