(* ===== verification/Host.thy ===== *)
theory Host
  imports Go_Time
begin

text \<open>
  The machine the hub runs on, as its code sees it: the processes it starts (\<open>exec.Command\<close>), the
  files it reads (\<open>os.ReadDir\<close>, \<open>os.ReadFile\<close>), the clock and \<open>time.Sleep\<close>. None of these is code of
  the repository. A \<open>world\<close> holds the answers; each answer may depend on the whole history of calls
  made before it (newest call first), so a theorem over every world speaks of every behaviour of the
  machine. Components that call other services extend \<open>'x call\<close> by their own calls in the
  constructor \<open>Other\<close> and the record \<open>world\<close> by the answers to them.
\<close>

datatype 'x call =
    Exec "string list"
  | Read_dir string
  | Read_file string
  | Now
  | Sleep duration
  | Other 'x

record 'x world =
  exec_answer :: "'x call list \<Rightarrow> string list \<Rightarrow> string \<times> string option"
  dir_answer :: "'x call list \<Rightarrow> string \<Rightarrow> string list res"
  file_answer :: "'x call list \<Rightarrow> string \<Rightarrow> string res"
  clock :: "'x call list \<Rightarrow> time"

text \<open>A process answers with its output and an error when it failed.\<close>

definition exec :: "('x, 'm) world_scheme \<Rightarrow> string list \<Rightarrow> 'x call list \<Rightarrow> (string \<times> string option) \<times> 'x call list" where
  "exec w args tr = (exec_answer w tr args, Exec args # tr)"

definition read_dir :: "('x, 'm) world_scheme \<Rightarrow> string \<Rightarrow> 'x call list \<Rightarrow> string list res \<times> 'x call list" where
  "read_dir w p tr = (dir_answer w tr p, Read_dir p # tr)"

definition read_file :: "('x, 'm) world_scheme \<Rightarrow> string \<Rightarrow> 'x call list \<Rightarrow> string res \<times> 'x call list" where
  "read_file w p tr = (file_answer w tr p, Read_file p # tr)"

definition now :: "('x, 'm) world_scheme \<Rightarrow> 'x call list \<Rightarrow> time \<times> 'x call list" where
  "now w tr = (clock w tr, Now # tr)"

definition sleep :: "duration \<Rightarrow> 'x call list \<Rightarrow> 'x call list" where
  "sleep d tr = Sleep d # tr"

text \<open>
  What the code relies on of Go's monotonic clock: no call takes it back, and \<open>Sleep d\<close> lasts at
  least \<open>d\<close>. With a standing clock a polling loop would not end.
\<close>

definition ticking :: "('x, 'm) world_scheme \<Rightarrow> bool" where
  "ticking w \<longleftrightarrow> (\<forall>tr c. clock w tr \<le> clock w (c # tr)) \<and>
     (\<forall>tr d. clock w tr + d \<le> clock w (Sleep d # tr))"

lemma ticking_step: "ticking w \<Longrightarrow> clock w tr \<le> clock w (c # tr)"
  and ticking_sleep: "ticking w \<Longrightarrow> clock w tr + d \<le> clock w (Sleep d # tr)"
  by (simp_all add: ticking_def)

text \<open>A concrete clock: the time is the sum of the sleeps so far.\<close>

fun slept :: "'x call list \<Rightarrow> time" where
  "slept [] = 0"
| "slept (Sleep d # tr) = max 0 d + slept tr"
| "slept (c # tr) = slept tr"

lemma slept_ticks: "slept tr \<le> slept (c # tr)"
  by (cases c) auto

lemma ticking_slept: "(\<And>tr. clock w tr = slept tr) \<Longrightarrow> ticking w"
  by (auto simp: ticking_def slept_ticks)

section \<open>Durations as text\<close>

text \<open>\<open>Duration.String\<close>: hours, minutes and seconds with the fraction cut at its last digit that is not
  zero, or a smaller unit below one second. The micro sign is two bytes of UTF-8.\<close>

definition strip_zeros :: "string \<Rightarrow> string" where
  "strip_zeros s = rev (dropWhile (\<lambda>c. c = CHR ''0'') (rev s))"

definition with_fraction :: "nat \<Rightarrow> nat \<Rightarrow> string" where
  "with_fraction digits v =
     (let f = strip_zeros (pad digits (v mod 10 ^ digits))
      in show_nat (v div 10 ^ digits) @ (if f = [] then [] else CHR ''.'' # f))"

definition duration_text :: "duration \<Rightarrow> string" where
  "duration_text d =
     (let u = nat \<bar>d\<bar>; sign = (if d < 0 then ''-'' else [])
      in if u = 0 then ''0s''
         else sign @
           (if u < 1000 then show_nat u @ ''ns''
            else if u < 1000000 then with_fraction 3 u @ [char_of (0xC2 :: nat), char_of (0xB5 :: nat)] @ ''s''
            else if u < 1000000000 then with_fraction 6 u @ ''ms''
            else let h = u div 3600000000000; m = u div 60000000000 mod 60; s = u mod 60000000000
                 in (if h > 0 then show_nat h @ ''h'' else []) @
                    (if h > 0 \<or> m > 0 then show_nat m @ ''m'' else []) @ with_fraction 9 s @ ''s''))"

section \<open>Quoted text\<close>

text \<open>The verb \<open>%q\<close> on ASCII text.\<close>

definition hex_digit :: "nat \<Rightarrow> char" where
  "hex_digit n = char_of (if n < 10 then 48 + n else 87 + n)"

definition quote_char :: "char \<Rightarrow> string" where
  "quote_char c =
     (let n = code c
      in if n = 34 \<or> n = 92 then [CHR 0x5C, c]
         else if 32 \<le> n \<and> n \<le> 126 then [c]
         else if n = 7 then CHR 0x5C # ''a'' else if n = 8 then CHR 0x5C # ''b''
         else if n = 12 then CHR 0x5C # ''f'' else if n = 10 then CHR 0x5C # ''n''
         else if n = 13 then CHR 0x5C # ''r'' else if n = 9 then CHR 0x5C # ''t''
         else if n = 11 then CHR 0x5C # ''v''
         else CHR 0x5C # CHR ''x'' # [hex_digit (n div 16), hex_digit (n mod 16)])"

definition quoted :: "string \<Rightarrow> string" where
  "quoted s = CHR 0x22 # concat (map quote_char s) @ [CHR 0x22]"

section \<open>Calls of other services\<close>

text \<open>The calls in a trace that do not go to the machine itself, each with the history before it.\<close>

fun other_calls :: "'x call list \<Rightarrow> ('x \<times> 'x call list) list" where
  "other_calls [] = []"
| "other_calls (Other x # tr) = (x, tr) # other_calls tr"
| "other_calls (c # tr) = other_calls tr"

fun others :: "'x call list \<Rightarrow> 'x list" where
  "others [] = []"
| "others (Other x # tr) = x # others tr"
| "others (c # tr) = others tr"

lemma others_calls: "others tr = map fst (other_calls tr)"
  by (induction tr rule: others.induct) simp_all

lemma calls_split: "(x, h) \<in> set (other_calls tr) \<Longrightarrow> \<exists>later. tr = later @ Other x # h"
proof (induction tr rule: other_calls.induct)
  case (2 y tr)
  then show ?case by (cases "(x, h) = (y, tr)") (auto intro: exI [of _ "[]"] exI [of _ "Other y # later" for later])
qed (auto intro: exI [of _ "c # later" for c later])

lemma calls_host [simp]:
  "other_calls (snd (exec w args tr)) = other_calls tr" "other_calls (snd (read_dir w p tr)) = other_calls tr"
  "other_calls (snd (read_file w p tr)) = other_calls tr" "other_calls (snd (now w tr)) = other_calls tr" "other_calls (sleep d tr) = other_calls tr"
  by (simp_all add: exec_def read_dir_def read_file_def now_def sleep_def)

lemma others_host [simp]:
  "others (snd (exec w args tr)) = others tr" "others (snd (read_dir w p tr)) = others tr"
  "others (snd (read_file w p tr)) = others tr" "others (snd (now w tr)) = others tr"
  "others (sleep d tr) = others tr"
  by (simp_all add: others_calls)

end
