(* ===== verification/Run_Store.thy ===== *)
theory Run_Store
  imports Complex_Main Go_Time
begin

text \<open>
  The SQLite store, \<open>internal/store/store.go\<close>. A table is the list of its rows in insertion
  order with the counter of its \<open>AUTOINCREMENT\<close> key; every statement of the source is one
  operation on these lists. An operation takes the driver's answer \<open>err\<close>: \<open>Some e\<close> is the error
  the driver returned (nothing is written then), \<open>None\<close> is success.

  SQL leaves the order of rows with equal sort keys open. The queries that end in
  \<open>ORDER BY ... DESC\<close> take the order the engine chose as an argument \<open>ob\<close>, a function from the
  sort keys to a list of row positions; \<open>desc_order ob\<close> is what SQL promises about it.
  Columns of type REAL are rational numbers: \<open>AVG\<close> and the difference of two columns are exact.
\<close>

section \<open>Rows\<close>

type_synonym float64 = rat

text \<open>The struct \<open>Run\<close>.\<close>

record run =
  run_ID :: int
  run_Serial :: string
  run_Model :: string
  run_FinishedAt :: time
  run_Passing :: int
  run_Failing :: int
  run_Pending :: int
  run_Found :: bool
  run_BootOK :: bool
  run_BootSeconds :: float64
  run_TotalSeconds :: float64
  run_TestSeconds :: float64
  run_HasLogs :: bool
  run_HasScreenshot :: bool
  run_BatteryPct :: int
  run_BatteryTemp :: float64
  run_UsbPath :: string
  run_SessionMs :: int
  run_ApkMs :: int

text \<open>A row of the table \<open>runs\<close>, with the column types of the schema.\<close>

record run_row =
  row_id :: int
  row_serial :: string
  row_model :: string
  row_finished_at :: string
  row_passing :: int
  row_failing :: int
  row_pending :: int
  row_found :: int
  row_boot_ok :: int
  row_boot_seconds :: float64
  row_total_seconds :: float64
  row_test_seconds :: float64
  row_has_logs :: int
  row_has_screenshot :: int
  row_battery_pct :: int
  row_battery_temp :: float64
  row_usb_path :: string
  row_session_ms :: int
  row_apk_ms :: int

text \<open>The structs \<open>DeviceEvent\<close>, \<open>USBEvent\<close> and \<open>DeviceConfig\<close>, and the rows behind them.\<close>

record device_event =
  ev_ID :: int
  ev_Serial :: string
  ev_Model :: string
  ev_Event :: string
  ev_TS :: time
  ev_USBPath :: string
  ev_VID :: string
  ev_PID :: string

record event_row =
  evr_id :: int
  evr_serial :: string
  evr_model :: string
  evr_event :: string
  evr_ts :: string
  evr_usb_path :: string
  evr_vid :: string
  evr_pid :: string

record usb_event =
  ue_ID :: int
  ue_TS :: time
  ue_Event :: string
  ue_Path :: string
  ue_VID :: string
  ue_PID :: string
  ue_Serial :: string
  ue_Product :: string
  ue_Vendor :: string
  ue_InADB :: bool
  ue_Detail :: string

record usb_row =
  ur_id :: int
  ur_ts :: string
  ur_event :: string
  ur_path :: string
  ur_vid :: string
  ur_pid :: string
  ur_serial :: string
  ur_product :: string
  ur_vendor :: string
  ur_in_adb :: int
  ur_detail :: string

record device_config =
  cfg_Serial :: string
  cfg_TestVID :: string
  cfg_TestPID :: string

record db =
  runs :: "run_row list"
  runs_seq :: int
  device_events :: "event_row list"
  events_seq :: int
  usb_events :: "usb_row list"
  usb_seq :: int
  configs :: "device_config list"

definition empty_db :: db where
  "empty_db = \<lparr>runs = [], runs_seq = 0, device_events = [], events_seq = 0, usb_events = [],
     usb_seq = 0, configs = []\<rparr>"

section \<open>Results of a run\<close>

text \<open>\<open>Run.Verdict\<close> and \<open>Run.DeviceLabel\<close>\<close>

definition Verdict :: "run \<Rightarrow> string" where
  "Verdict r = (if \<not> run_Found r then ''N/A'' else if run_Failing r > 0 then ''FAIL'' else ''PASS'')"

definition device_label :: "string \<Rightarrow> string \<Rightarrow> string" where
  "device_label serial model = (if model \<noteq> '''' then serial @ '' ('' @ model @ '')'' else serial)"

definition run_DeviceLabel :: "run \<Rightarrow> string" where
  "run_DeviceLabel r = device_label (run_Serial r) (run_Model r)"

definition boolToInt :: "bool \<Rightarrow> int" where
  "boolToInt b = (if b then 1 else 0)"

section \<open>The table of runs\<close>

text \<open>\<open>Store.Insert\<close>: the columns it does not name get the defaults of the schema.\<close>

definition row_of_run :: "int \<Rightarrow> run \<Rightarrow> run_row" where
  "row_of_run i r =
     \<lparr>row_id = i, row_serial = run_Serial r, row_model = run_Model r,
      row_finished_at = fmt_rfc3339 (run_FinishedAt r),
      row_passing = run_Passing r, row_failing = run_Failing r, row_pending = run_Pending r,
      row_found = boolToInt (run_Found r), row_boot_ok = boolToInt (run_BootOK r),
      row_boot_seconds = run_BootSeconds r, row_total_seconds = run_TotalSeconds r,
      row_test_seconds = run_TestSeconds r, row_has_logs = 0, row_has_screenshot = 0,
      row_battery_pct = run_BatteryPct r, row_battery_temp = run_BatteryTemp r,
      row_usb_path = run_UsbPath r, row_session_ms = run_SessionMs r, row_apk_ms = run_ApkMs r\<rparr>"

definition Insert :: "string option \<Rightarrow> run \<Rightarrow> db \<Rightarrow> int res \<times> db" where
  "Insert err r d =
     (case err of
        Some e \<Rightarrow> (Inl e, d)
      | None \<Rightarrow>
          (let i = runs_seq d + 1
           in (Inr i, d\<lparr>runs := runs d @ [row_of_run i r], runs_seq := i\<rparr>)))"

definition update_runs :: "int \<Rightarrow> (run_row \<Rightarrow> run_row) \<Rightarrow> db \<Rightarrow> db" where
  "update_runs i f d = d\<lparr>runs := map (\<lambda>r. if row_id r = i then f r else r) (runs d)\<rparr>"

definition UpdateBoot :: "string option \<Rightarrow> int \<Rightarrow> float64 \<Rightarrow> bool \<Rightarrow> db \<Rightarrow> unit res \<times> db" where
  "UpdateBoot err i secs ok d =
     (case err of
        Some e \<Rightarrow> (Inl e, d)
      | None \<Rightarrow> (Inr (), update_runs i (\<lambda>r. r\<lparr>row_boot_ok := boolToInt ok, row_boot_seconds := secs\<rparr>) d))"

definition SetHasLogs :: "string option \<Rightarrow> int \<Rightarrow> db \<Rightarrow> unit res \<times> db" where
  "SetHasLogs err i d =
     (case err of Some e \<Rightarrow> (Inl e, d) | None \<Rightarrow> (Inr (), update_runs i (\<lambda>r. r\<lparr>row_has_logs := 1\<rparr>) d))"

definition SetHasScreenshot :: "string option \<Rightarrow> int \<Rightarrow> db \<Rightarrow> unit res \<times> db" where
  "SetHasScreenshot err i d =
     (case err of Some e \<Rightarrow> (Inl e, d)
      | None \<Rightarrow> (Inr (), update_runs i (\<lambda>r. r\<lparr>row_has_screenshot := 1\<rparr>) d))"

text \<open>
  The engine's order. \<open>order_by ob key rows\<close> is \<open>ORDER BY key DESC\<close>, \<open>sql_limit\<close> is
  \<open>LIMIT ?\<close> (SQLite reads a negative limit as no limit).
\<close>

definition desc_order :: "(string list \<Rightarrow> nat list) \<Rightarrow> bool" where
  "desc_order ob \<longleftrightarrow>
     (\<forall>ks. mset (ob ks) = mset [0..<length ks] \<and> sorted_wrt (\<lambda>i j. ks ! j \<le> ks ! i) (ob ks))"

definition order_by :: "(string list \<Rightarrow> nat list) \<Rightarrow> ('a \<Rightarrow> string) \<Rightarrow> 'a list \<Rightarrow> 'a list" where
  "order_by ob key rows = map (\<lambda>i. rows ! i) (ob (map key rows))"

definition sql_limit :: "int \<Rightarrow> 'a list \<Rightarrow> 'a list" where
  "sql_limit n xs = (if n < 0 then xs else take (nat n) xs)"

text \<open>The optional bounds of a query on \<open>finished_at\<close>; a zero time is no bound.\<close>

definition in_window :: "time \<Rightarrow> time \<Rightarrow> string \<Rightarrow> bool" where
  "in_window from to s \<longleftrightarrow>
     (is_zero from \<or> fmt_rfc3339 from \<le> s) \<and> (is_zero to \<or> s \<le> fmt_rfc3339 to)"

text \<open>The loop body of \<open>scanRuns\<close>.\<close>

definition scan_run :: "run_row \<Rightarrow> run" where
  "scan_run r =
     \<lparr>run_ID = row_id r, run_Serial = row_serial r, run_Model = row_model r,
      run_FinishedAt = parse_or_zero (row_finished_at r),
      run_Passing = row_passing r, run_Failing = row_failing r, run_Pending = row_pending r,
      run_Found = (row_found r \<noteq> 0), run_BootOK = (row_boot_ok r \<noteq> 0),
      run_BootSeconds = row_boot_seconds r, run_TotalSeconds = row_total_seconds r,
      run_TestSeconds = row_test_seconds r, run_HasLogs = (row_has_logs r \<noteq> 0),
      run_HasScreenshot = (row_has_screenshot r \<noteq> 0),
      run_BatteryPct = row_battery_pct r, run_BatteryTemp = row_battery_temp r,
      run_UsbPath = row_usb_path r, run_SessionMs = row_session_ms r, run_ApkMs = row_apk_ms r\<rparr>"

definition scanRuns :: "run_row list \<Rightarrow> run list" where
  "scanRuns rows = map scan_run rows"

definition select_runs :: "string \<Rightarrow> time \<Rightarrow> time \<Rightarrow> db \<Rightarrow> run_row list" where
  "select_runs serial from to d =
     filter (\<lambda>r. (serial = '''' \<or> row_serial r = serial) \<and> in_window from to (row_finished_at r)) (runs d)"

definition List_runs ::
  "(string list \<Rightarrow> nat list) \<Rightarrow> string option \<Rightarrow> string \<Rightarrow> int \<Rightarrow> time \<Rightarrow> time \<Rightarrow> db \<Rightarrow> run list res" where
  "List_runs ob err serial limit from to d =
     (case err of
        Some e \<Rightarrow> Inl e
      | None \<Rightarrow> Inr (scanRuns (sql_limit limit (order_by ob row_finished_at (select_runs serial from to d)))))"

section \<open>Device and USB events\<close>

definition InsertEvent :: "string option \<Rightarrow> device_event \<Rightarrow> db \<Rightarrow> unit res \<times> db" where
  "InsertEvent err e d =
     (case err of
        Some x \<Rightarrow> (Inl x, d)
      | None \<Rightarrow>
          (let i = events_seq d + 1
           in (Inr (), d\<lparr>device_events := device_events d @
                  [\<lparr>evr_id = i, evr_serial = ev_Serial e, evr_model = ev_Model e, evr_event = ev_Event e,
                    evr_ts = fmt_rfc3339 (ev_TS e), evr_usb_path = ev_USBPath e, evr_vid = ev_VID e,
                    evr_pid = ev_PID e\<rparr>], events_seq := i\<rparr>)))"

definition scan_event :: "event_row \<Rightarrow> device_event" where
  "scan_event r =
     \<lparr>ev_ID = evr_id r, ev_Serial = evr_serial r, ev_Model = evr_model r, ev_Event = evr_event r,
      ev_TS = parse_or_zero (evr_ts r), ev_USBPath = evr_usb_path r, ev_VID = evr_vid r,
      ev_PID = evr_pid r\<rparr>"

definition ListEvents ::
  "(string list \<Rightarrow> nat list) \<Rightarrow> string option \<Rightarrow> string \<Rightarrow> int \<Rightarrow> db \<Rightarrow> device_event list res" where
  "ListEvents ob err serial limit d =
     (case err of
        Some e \<Rightarrow> Inl e
      | None \<Rightarrow> Inr (map scan_event (sql_limit limit (order_by ob evr_ts
           (filter (\<lambda>r. serial = '''' \<or> evr_serial r = serial) (device_events d))))))"

definition InsertUSBEvent :: "string option \<Rightarrow> usb_event \<Rightarrow> db \<Rightarrow> unit res \<times> db" where
  "InsertUSBEvent err e d =
     (case err of
        Some x \<Rightarrow> (Inl x, d)
      | None \<Rightarrow>
          (let i = usb_seq d + 1
           in (Inr (), d\<lparr>usb_events := usb_events d @
                  [\<lparr>ur_id = i, ur_ts = fmt_rfc3339 (ue_TS e), ur_event = ue_Event e, ur_path = ue_Path e,
                    ur_vid = ue_VID e, ur_pid = ue_PID e, ur_serial = ue_Serial e,
                    ur_product = ue_Product e, ur_vendor = ue_Vendor e,
                    ur_in_adb = boolToInt (ue_InADB e), ur_detail = ue_Detail e\<rparr>], usb_seq := i\<rparr>)))"

definition scan_usb :: "usb_row \<Rightarrow> usb_event" where
  "scan_usb r =
     \<lparr>ue_ID = ur_id r, ue_TS = parse_or_zero (ur_ts r), ue_Event = ur_event r, ue_Path = ur_path r,
      ue_VID = ur_vid r, ue_PID = ur_pid r, ue_Serial = ur_serial r, ue_Product = ur_product r,
      ue_Vendor = ur_vendor r, ue_InADB = (ur_in_adb r \<noteq> 0), ue_Detail = ur_detail r\<rparr>"

text \<open>
  The operator \<open>LIKE\<close>: \<open>%\<close> matches any text, \<open>_\<close> one character, letters match in either case.
\<close>

fun sql_like :: "string \<Rightarrow> string \<Rightarrow> bool" where
  "sql_like [] s \<longleftrightarrow> s = []"
| "sql_like (p # ps) [] \<longleftrightarrow> p = CHR ''%'' \<and> sql_like ps []"
| "sql_like (p # ps) (y # ys) \<longleftrightarrow>
     (if p = CHR ''%'' then sql_like ps (y # ys) \<or> sql_like (p # ps) ys
      else (p = CHR ''_'' \<or> lower_char p = lower_char y) \<and> sql_like ps ys)"

definition ListUSBEvents ::
  "(string list \<Rightarrow> nat list) \<Rightarrow> string option \<Rightarrow> string \<Rightarrow> int \<Rightarrow> db \<Rightarrow> usb_event list res" where
  "ListUSBEvents ob err serial limit d =
     (case err of
        Some e \<Rightarrow> Inl e
      | None \<Rightarrow> Inr (map scan_usb (sql_limit limit (order_by ob ur_ts
           (filter (\<lambda>r. serial = '''' \<or> sql_like (''%'' @ serial @ ''%'') (ur_serial r)
                       \<or> sql_like (''%'' @ serial @ ''%'') (ur_product r)) (usb_events d))))))"

text \<open>
  \<open>LatestUSBInfoPerDevice\<close>: with \<open>MAX(ts)\<close> and \<open>GROUP BY serial\<close> SQLite takes the other columns
  from a row with the largest \<open>ts\<close>. The code scans the serial and the USB columns only, so the
  other fields keep their zero values. No caller depends on the order of the groups.
\<close>

definition zero_event :: device_event where
  "zero_event = \<lparr>ev_ID = 0, ev_Serial = '''', ev_Model = '''', ev_Event = '''', ev_TS = zero_time,
     ev_USBPath = '''', ev_VID = '''', ev_PID = ''''\<rparr>"

definition connected_rows :: "string \<Rightarrow> db \<Rightarrow> event_row list" where
  "connected_rows serial d =
     filter (\<lambda>r. evr_event r = ''connected'' \<and> evr_serial r = serial) (device_events d)"

definition LatestUSBInfoPerDevice ::
  "(string list \<Rightarrow> nat list) \<Rightarrow> string option \<Rightarrow> db \<Rightarrow> device_event list res" where
  "LatestUSBInfoPerDevice ob err d =
     (case err of
        Some e \<Rightarrow> Inl e
      | None \<Rightarrow> Inr (map (\<lambda>serial.
           let r = hd (order_by ob evr_ts (connected_rows serial d))
           in zero_event\<lparr>ev_Serial := evr_serial r, ev_USBPath := evr_usb_path r,
                         ev_VID := evr_vid r, ev_PID := evr_pid r\<rparr>)
           (remdups (map evr_serial (filter (\<lambda>r. evr_event r = ''connected'') (device_events d))))))"

section \<open>Test VID:PID per device\<close>

text \<open>
  \<open>INSERT ... ON CONFLICT(serial) DO UPDATE\<close>: the row of the serial is replaced in place, or a new
  one is added.
\<close>

definition SetDeviceConfig :: "string option \<Rightarrow> device_config \<Rightarrow> db \<Rightarrow> unit res \<times> db" where
  "SetDeviceConfig err cfg d =
     (case err of
        Some e \<Rightarrow> (Inl e, d)
      | None \<Rightarrow> (Inr (), d\<lparr>configs :=
          (if cfg_Serial cfg \<in> set (map cfg_Serial (configs d))
           then map (\<lambda>c. if cfg_Serial c = cfg_Serial cfg
                         then c\<lparr>cfg_TestVID := cfg_TestVID cfg, cfg_TestPID := cfg_TestPID cfg\<rparr> else c)
                    (configs d)
           else configs d @ [cfg])\<rparr>))"

definition DeleteDeviceConfig :: "string option \<Rightarrow> string \<Rightarrow> db \<Rightarrow> unit res \<times> db" where
  "DeleteDeviceConfig err serial d =
     (case err of
        Some e \<Rightarrow> (Inl e, d)
      | None \<Rightarrow> (Inr (), d\<lparr>configs := filter (\<lambda>c. cfg_Serial c \<noteq> serial) (configs d)\<rparr>))"

definition AllDeviceConfigs :: "string option \<Rightarrow> db \<Rightarrow> (string \<rightharpoonup> device_config) res" where
  "AllDeviceConfigs err d =
     (case err of
        Some e \<Rightarrow> Inl e
      | None \<Rightarrow> Inr (foldl (\<lambda>m c. m(cfg_Serial c \<mapsto> c)) Map.empty (configs d)))"

section \<open>Statistics\<close>

record device_stats =
  st_Serial :: string
  st_Model :: string
  st_TotalRuns :: int
  st_FailedRuns :: int
  st_TotalTests :: int
  st_TotalFail :: int
  st_AvgBoot :: float64
  st_MinBoot :: float64
  st_MaxBoot :: float64
  st_AvgTest :: float64
  st_MinTest :: float64
  st_MaxTest :: float64
  st_AvgSetup :: float64
  st_MinSetup :: float64
  st_MaxSetup :: float64
  st_UsbPath :: string
  st_LastBattery :: int
  st_LastBatteryTemp :: float64
  st_AvgSession :: float64
  st_MinSession :: float64
  st_MaxSession :: float64
  st_AvgApk :: float64
  st_MinApk :: float64
  st_MaxApk :: float64

definition PassRate :: "device_stats \<Rightarrow> float64" where
  "PassRate s = (if st_TotalTests s = 0 then 0
     else of_int (st_TotalTests s - st_TotalFail s) / of_int (st_TotalTests s) * 100)"

definition stats_DeviceLabel :: "device_stats \<Rightarrow> string" where
  "stats_DeviceLabel s = device_label (st_Serial s) (st_Model s)"

text \<open>
  \<open>AVG\<close>, \<open>MIN\<close> and \<open>MAX\<close> of the rows where the \<open>CASE\<close> is not NULL; a NULL result is scanned into a
  \<open>NullFloat64\<close> whose value is 0.
\<close>

definition agg_avg :: "rat list \<Rightarrow> rat" where
  "agg_avg xs = (if xs = [] then 0 else sum_list xs / of_nat (length xs))"

definition agg_min :: "rat list \<Rightarrow> rat" where
  "agg_min xs = (case xs of [] \<Rightarrow> 0 | y # ys \<Rightarrow> foldl min y ys)"

definition agg_max :: "rat list \<Rightarrow> rat" where
  "agg_max xs = (case xs of [] \<Rightarrow> 0 | y # ys \<Rightarrow> foldl max y ys)"

definition boot_values :: "run_row list \<Rightarrow> rat list" where
  "boot_values rs = map row_boot_seconds (filter (\<lambda>r. row_boot_ok r = 1) rs)"

definition test_values :: "run_row list \<Rightarrow> rat list" where
  "test_values rs =
     map row_test_seconds (filter (\<lambda>r. row_found r = 1 \<and> row_test_seconds r > 0) rs)"

definition setup_values :: "run_row list \<Rightarrow> rat list" where
  "setup_values rs = map (\<lambda>r. row_total_seconds r - row_test_seconds r)
     (filter (\<lambda>r. row_found r = 1 \<and> row_total_seconds r > row_test_seconds r) rs)"

definition session_values :: "run_row list \<Rightarrow> rat list" where
  "session_values rs = map (\<lambda>r. of_int (row_session_ms r)) (filter (\<lambda>r. row_session_ms r > 0) rs)"

definition apk_values :: "run_row list \<Rightarrow> rat list" where
  "apk_values rs = map (\<lambda>r. of_int (row_apk_ms r)) (filter (\<lambda>r. row_apk_ms r > 0) rs)"

definition total_tests :: "run_row list \<Rightarrow> int" where
  "total_tests rs = sum_list (map (\<lambda>r. if row_found r = 1 then row_passing r + row_failing r else 1) rs)"

definition total_fail :: "run_row list \<Rightarrow> int" where
  "total_fail rs = sum_list (map (\<lambda>r. if row_found r = 1 then row_failing r else 1) rs)"

definition failed_runs :: "run_row list \<Rightarrow> int" where
  "failed_runs rs = sum_list (map (\<lambda>r. if row_found r = 0 \<or> row_failing r > 0 then 1 else 0) rs)"

text \<open>One group of the query, before the second loop fills the USB path and the battery.\<close>

definition stats_group :: "string \<Rightarrow> run_row list \<Rightarrow> device_stats" where
  "stats_group serial rs =
     \<lparr>st_Serial = serial, st_Model = foldl max '''' (map row_model rs),
      st_TotalRuns = int (length rs), st_FailedRuns = failed_runs rs,
      st_TotalTests = total_tests rs, st_TotalFail = total_fail rs,
      st_AvgBoot = agg_avg (boot_values rs), st_MinBoot = agg_min (boot_values rs),
      st_MaxBoot = agg_max (boot_values rs),
      st_AvgTest = agg_avg (test_values rs), st_MinTest = agg_min (test_values rs),
      st_MaxTest = agg_max (test_values rs),
      st_AvgSetup = agg_avg (setup_values rs), st_MinSetup = agg_min (setup_values rs),
      st_MaxSetup = agg_max (setup_values rs),
      st_UsbPath = '''', st_LastBattery = 0, st_LastBatteryTemp = 0,
      st_AvgSession = agg_avg (session_values rs), st_MinSession = agg_min (session_values rs),
      st_MaxSession = agg_max (session_values rs),
      st_AvgApk = agg_avg (apk_values rs), st_MinApk = agg_min (apk_values rs),
      st_MaxApk = agg_max (apk_values rs)\<rparr>"

text \<open>
  The second loop. The error of either query is dropped: a failed or empty answer leaves the path
  empty and the battery at -1. \<open>path_err\<close> and \<open>batt_err\<close> say for which serials the query failed.
\<close>

definition fill_stats ::
  "(string list \<Rightarrow> nat list) \<Rightarrow> (string \<Rightarrow> bool) \<Rightarrow> (string \<Rightarrow> bool) \<Rightarrow> db \<Rightarrow> device_stats \<Rightarrow> device_stats" where
  "fill_stats ob path_err batt_err d st =
     (let ps = order_by ob evr_ts (filter (\<lambda>r. evr_serial r = st_Serial st) (device_events d));
          bs = order_by ob row_finished_at (filter (\<lambda>r. row_serial r = st_Serial st) (runs d));
          path = (if path_err (st_Serial st) then '''' else case ps of [] \<Rightarrow> '''' | r # _ \<Rightarrow> evr_usb_path r);
          batt = (if batt_err (st_Serial st) then None
                  else case bs of [] \<Rightarrow> None | r # _ \<Rightarrow> Some (row_battery_pct r, row_battery_temp r))
      in st\<lparr>st_UsbPath := path,
            st_LastBattery := (case batt of Some (p, _) \<Rightarrow> p | None \<Rightarrow> -1),
            st_LastBatteryTemp := (case batt of Some (_, t) \<Rightarrow> t | None \<Rightarrow> 0)\<rparr>)"

text \<open>
  \<open>Store.Stats\<close>. The sort key of the source names the bare column \<open>model\<close>, whose row SQLite leaves
  open, so the order of the groups is the argument \<open>grp\<close>, which only permutes them.
\<close>

definition Stats ::
  "(string list \<Rightarrow> string list) \<Rightarrow> (string list \<Rightarrow> nat list) \<Rightarrow> string option \<Rightarrow> (string \<Rightarrow> bool) \<Rightarrow>
   (string \<Rightarrow> bool) \<Rightarrow> time \<Rightarrow> time \<Rightarrow> db \<Rightarrow> device_stats list res" where
  "Stats grp ob err path_err batt_err from to d =
     (case err of
        Some e \<Rightarrow> Inl e
      | None \<Rightarrow>
          (let rs = select_runs '''' from to d
           in Inr (map (\<lambda>s. fill_stats ob path_err batt_err d
                              (stats_group s (filter (\<lambda>r. row_serial r = s) rs)))
                       (grp (remdups (map row_serial rs))))))"

text \<open>\<open>Store.Devices\<close>: the serials, the one with the newest run first.\<close>

definition newest :: "string \<Rightarrow> db \<Rightarrow> string" where
  "newest s d = foldl max '''' (map row_finished_at (filter (\<lambda>r. row_serial r = s) (runs d)))"

definition Devices :: "(string list \<Rightarrow> nat list) \<Rightarrow> string option \<Rightarrow> db \<Rightarrow> string list res" where
  "Devices ob err d =
     (case err of
        Some e \<Rightarrow> Inl e
      | None \<Rightarrow> Inr (order_by ob (\<lambda>s. newest s d) (remdups (map row_serial (runs d)))))"

section \<open>Opening the database: schema and migrations\<close>

text \<open>
  A statement of \<open>schema\<close> and \<open>migrations\<close>; the catalogue of a database is its tables with their
  columns and its indexes. \<open>exec_stmt\<close> is what SQLite does with a statement; \<open>None\<close> is an error.
\<close>

datatype stmt =
    CreateTable string "string list"
  | AddColumn string string
  | CreateIndex string string string

record catalogue =
  tables :: "(string \<times> string list) list"
  indexes :: "string list"

definition has_column :: "catalogue \<Rightarrow> string \<Rightarrow> string \<Rightarrow> bool" where
  "has_column c t col \<longleftrightarrow> (case map_of (tables c) t of None \<Rightarrow> False | Some cs \<Rightarrow> col \<in> set cs)"

fun exec_stmt :: "stmt \<Rightarrow> catalogue \<Rightarrow> catalogue option" where
  "exec_stmt (CreateTable t cs) c =
     (if map_of (tables c) t \<noteq> None then Some c else Some (c\<lparr>tables := tables c @ [(t, cs)]\<rparr>))"
| "exec_stmt (AddColumn t col) c =
     (case map_of (tables c) t of
        None \<Rightarrow> None
      | Some cs \<Rightarrow> if col \<in> set cs then None
                   else Some (c\<lparr>tables := AList.update t (cs @ [col]) (tables c)\<rparr>))"
| "exec_stmt (CreateIndex i t col) c =
     (if i \<in> set (indexes c) then Some c
      else if has_column c t col then Some (c\<lparr>indexes := indexes c @ [i]\<rparr>) else None)"

text \<open>The text \<open>schema\<close> stops at the first error.\<close>

fun exec_all :: "stmt list \<Rightarrow> catalogue \<Rightarrow> catalogue option" where
  "exec_all [] c = Some c"
| "exec_all (s # ss) c = (case exec_stmt s c of None \<Rightarrow> None | Some c' \<Rightarrow> exec_all ss c')"

text \<open>The loop over \<open>migrations\<close> ignores errors.\<close>

fun migrate :: "stmt list \<Rightarrow> catalogue \<Rightarrow> catalogue" where
  "migrate [] c = c"
| "migrate (s # ss) c = migrate ss (case exec_stmt s c of None \<Rightarrow> c | Some c' \<Rightarrow> c')"

definition runs_columns :: "string list" where
  "runs_columns = [''id'', ''serial'', ''model'', ''finished_at'', ''passing'', ''failing'', ''pending'',
     ''found'', ''boot_ok'', ''boot_seconds'', ''total_seconds'', ''test_seconds'', ''has_logs'',
     ''has_screenshot'', ''battery_pct'', ''battery_temp'', ''usb_path'', ''session_ms'', ''apk_ms'']"

definition device_events_columns :: "string list" where
  "device_events_columns =
     [''id'', ''serial'', ''model'', ''event'', ''ts'', ''usb_path'', ''vid'', ''pid'']"

definition usb_events_columns :: "string list" where
  "usb_events_columns = [''id'', ''ts'', ''event'', ''path'', ''vid'', ''pid'', ''serial'',
     ''product'', ''vendor'', ''in_adb'', ''detail'']"

definition device_config_columns :: "string list" where
  "device_config_columns = [''serial'', ''test_vid'', ''test_pid'']"

definition schema :: "stmt list" where
  "schema =
     [CreateTable ''runs'' runs_columns,
      CreateIndex ''idx_runs_serial'' ''runs'' ''serial'',
      CreateIndex ''idx_runs_finished'' ''runs'' ''finished_at'',
      CreateTable ''device_events'' device_events_columns,
      CreateIndex ''idx_events_serial'' ''device_events'' ''serial'',
      CreateIndex ''idx_events_ts'' ''device_events'' ''ts'',
      CreateTable ''usb_events'' usb_events_columns,
      CreateIndex ''idx_usb_ts'' ''usb_events'' ''ts'',
      CreateIndex ''idx_usb_serial'' ''usb_events'' ''serial'',
      CreateTable ''device_config'' device_config_columns]"

definition migrations :: "stmt list" where
  "migrations =
     [AddColumn ''runs'' ''total_seconds'', AddColumn ''runs'' ''test_seconds'',
      AddColumn ''runs'' ''has_logs'', AddColumn ''runs'' ''has_screenshot'',
      AddColumn ''runs'' ''battery_pct'', AddColumn ''runs'' ''usb_path'',
      AddColumn ''runs'' ''session_ms'', AddColumn ''runs'' ''apk_ms'',
      AddColumn ''runs'' ''battery_temp'',
      CreateTable ''device_events'' device_events_columns,
      CreateIndex ''idx_events_serial'' ''device_events'' ''serial'',
      CreateIndex ''idx_events_ts'' ''device_events'' ''ts'',
      CreateTable ''usb_events'' [''id'', ''ts'', ''event'', ''path'', ''vid'', ''pid'', ''serial'',
        ''product'', ''vendor'', ''in_adb''],
      CreateIndex ''idx_usb_ts'' ''usb_events'' ''ts'',
      CreateIndex ''idx_usb_serial'' ''usb_events'' ''serial'',
      AddColumn ''usb_events'' ''detail'',
      CreateTable ''device_config'' device_config_columns]"

text \<open>\<open>Open\<close>: \<open>mkdir_err\<close> and \<open>open_err\<close> are the answers of the file system and the driver.\<close>

definition Open :: "string option \<Rightarrow> string option \<Rightarrow> catalogue \<Rightarrow> catalogue res" where
  "Open mkdir_err open_err c =
     (case mkdir_err of
        Some e \<Rightarrow> Inl (''store: mkdir: '' @ e)
      | None \<Rightarrow>
          (case open_err of
             Some e \<Rightarrow> Inl (''store: open: '' @ e)
           | None \<Rightarrow>
               (case exec_all schema c of
                  None \<Rightarrow> Inl ''store: schema: SQL error''
                | Some c' \<Rightarrow> Inr (migrate migrations c'))))"

section \<open>Invariants\<close>

text \<open>
  \<open>wf_db\<close>: row ids are distinct, positive and not above the counter, and no serial has two
  configurations. \<open>stamped\<close>: the \<open>finished_at\<close> column holds RFC 3339 texts of years 0 to 9999.
\<close>

definition wf_db :: "db \<Rightarrow> bool" where
  "wf_db d \<longleftrightarrow> distinct (map row_id (runs d)) \<and>
     (\<forall>r \<in> set (runs d). 0 < row_id r \<and> row_id r \<le> runs_seq d) \<and> 0 \<le> runs_seq d \<and>
     distinct (map cfg_Serial (configs d))"

definition stamped :: "db \<Rightarrow> bool" where
  "stamped d \<longleftrightarrow> (\<forall>r \<in> set (runs d). \<exists>t. year4 t \<and> row_finished_at r = fmt_rfc3339 t)"

text \<open>The run a row id stands for.\<close>

definition fetch_run :: "db \<Rightarrow> int \<Rightarrow> run option" where
  "fetch_run d i = map_option scan_run (find (\<lambda>r. row_id r = i) (runs d))"

lemma wf_empty_db: "wf_db empty_db \<and> stamped empty_db"
  by (simp add: wf_db_def stamped_def empty_db_def)

lemma boolToInt_neq_0 [simp]: "boolToInt b \<noteq> 0 \<longleftrightarrow> b"
  by (simp add: boolToInt_def)

lemma row_of_run_simps [simp]:
  "row_id (row_of_run i r) = i"
  "row_finished_at (row_of_run i r) = fmt_rfc3339 (run_FinishedAt r)"
  by (simp_all add: row_of_run_def)

lemma scan_row_of_run:
  "year4 (run_FinishedAt r) \<Longrightarrow>
   scan_run (row_of_run i r) = r\<lparr>run_ID := i, run_FinishedAt := floor_sec (run_FinishedAt r),
     run_HasLogs := False, run_HasScreenshot := False\<rparr>"
  by (simp add: scan_run_def row_of_run_def parse_or_zero_fmt)

lemma find_append: "find P (xs @ ys) = (case find P xs of None \<Rightarrow> find P ys | Some x \<Rightarrow> Some x)"
  by (induction xs) auto

lemma find_map_update:
  assumes "\<And>r. row_id (f r) = row_id r"
  shows "find (\<lambda>r. row_id r = j) (map (\<lambda>r. if row_id r = i then f r else r) rs) =
     map_option (\<lambda>r. if j = i then f r else r) (find (\<lambda>r. row_id r = j) rs)"
  by (induction rs) (auto simp: assms)

lemma Insert_None: "Insert None r d = (Inr (runs_seq d + 1),
    d\<lparr>runs := runs d @ [row_of_run (runs_seq d + 1) r], runs_seq := runs_seq d + 1\<rparr>)"
  by (simp add: Insert_def Let_def)

lemma wf_db_Insert: "wf_db d \<Longrightarrow> wf_db (snd (Insert err r d))"
  by (cases err) (auto simp: wf_db_def Insert_def Let_def)

lemma stamped_Insert: "stamped d \<Longrightarrow> year4 (run_FinishedAt r) \<Longrightarrow> stamped (snd (Insert err r d))"
  by (cases err) (auto simp: stamped_def Insert_def Let_def)

lemma wf_db_update_runs:
  assumes "\<And>r. row_id (f r) = row_id r" and "wf_db d"
  shows "wf_db (update_runs i f d)"
proof -
  have "row_id \<circ> (\<lambda>r. if row_id r = i then f r else r) = row_id"
    using assms(1) by (auto simp: fun_eq_iff)
  then show ?thesis
    using assms by (auto simp: wf_db_def update_runs_def)
qed

lemma stamped_update_runs:
  assumes "\<And>r. row_finished_at (f r) = row_finished_at r" and "stamped d"
  shows "stamped (update_runs i f d)"
  using assms by (auto simp: stamped_def update_runs_def)

lemma wf_db_updates [simp]:
  assumes "wf_db d"
  shows "wf_db (snd (UpdateBoot err i s ok d))" and "wf_db (snd (SetHasLogs err i d))"
    and "wf_db (snd (SetHasScreenshot err i d))" and "wf_db (snd (InsertEvent err e d))"
    and "wf_db (snd (InsertUSBEvent err u d))"
  using assms
  by (auto simp: UpdateBoot_def SetHasLogs_def SetHasScreenshot_def InsertEvent_def
      InsertUSBEvent_def Let_def wf_db_update_runs split: option.splits)
    (auto simp: wf_db_def)

lemma stamped_updates [simp]:
  assumes "stamped d"
  shows "stamped (snd (UpdateBoot err i s ok d))" and "stamped (snd (SetHasLogs err i d))"
    and "stamped (snd (SetHasScreenshot err i d))" and "stamped (snd (InsertEvent err e d))"
    and "stamped (snd (InsertUSBEvent err u d))"
  using assms
  by (auto simp: UpdateBoot_def SetHasLogs_def SetHasScreenshot_def InsertEvent_def
      InsertUSBEvent_def Let_def stamped_update_runs split: option.splits)
    (auto simp: stamped_def)

lemma fetch_update_runs:
  assumes "\<And>r. row_id (f r) = row_id r" and "\<And>r. scan_run (f r) = g (scan_run r)"
  shows "fetch_run (update_runs i f d) = (fetch_run d)(i := map_option g (fetch_run d i))"
  by (rule ext) (auto simp: fetch_run_def update_runs_def find_map_update assms
      option.map_comp o_def option.map_ident)

lemma fetch_fresh: "wf_db d \<Longrightarrow> runs_seq d < i \<Longrightarrow> fetch_run d i = None"
  by (fastforce simp: fetch_run_def wf_db_def find_None_iff)

section \<open>The interface the managers use to save a run\<close>

text \<open>
  \<open>run_log\<close> is the contract between the store and the two managers: what a run looks like when it
  is read back after it was inserted, its log flags set and its boot result updated.
\<close>

locale run_log =
  fixes ok :: "'d \<Rightarrow> bool"
    and fetch :: "'d \<Rightarrow> int \<Rightarrow> run option"
    and ins :: "run \<Rightarrow> 'd \<Rightarrow> int \<times> 'd"
    and boot :: "int \<Rightarrow> float64 \<Rightarrow> bool \<Rightarrow> 'd \<Rightarrow> 'd"
    and logs :: "int \<Rightarrow> 'd \<Rightarrow> 'd"
    and shot :: "int \<Rightarrow> 'd \<Rightarrow> 'd"
  assumes ok_ins: "ok d \<Longrightarrow> ok (snd (ins r d))"
    and ok_boot: "ok d \<Longrightarrow> ok (boot i s b d)"
    and ok_logs: "ok d \<Longrightarrow> ok (logs i d)"
    and ok_shot: "ok d \<Longrightarrow> ok (shot i d)"
    and ins_fresh: "ok d \<Longrightarrow> fetch d (fst (ins r d)) = None \<and> 0 < fst (ins r d)"
    and fetch_ins: "ok d \<Longrightarrow> year4 (run_FinishedAt r) \<Longrightarrow>
      fetch (snd (ins r d)) = (fetch d)(fst (ins r d) \<mapsto> r\<lparr>run_ID := fst (ins r d),
        run_FinishedAt := floor_sec (run_FinishedAt r), run_HasLogs := False, run_HasScreenshot := False\<rparr>)"
    and fetch_boot: "ok d \<Longrightarrow> fetch (boot i s b d) =
      (fetch d)(i := map_option (\<lambda>r. r\<lparr>run_BootOK := b, run_BootSeconds := s\<rparr>) (fetch d i))"
    and fetch_logs: "ok d \<Longrightarrow> fetch (logs i d) =
      (fetch d)(i := map_option (\<lambda>r. r\<lparr>run_HasLogs := True\<rparr>) (fetch d i))"
    and fetch_shot: "ok d \<Longrightarrow> fetch (shot i d) =
      (fetch d)(i := map_option (\<lambda>r. r\<lparr>run_HasScreenshot := True\<rparr>) (fetch d i))"
begin

text \<open>The life of a run: inserted, flagged, then completed by the boot result.\<close>

definition save :: "bool \<Rightarrow> bool \<Rightarrow> run \<Rightarrow> 'd \<Rightarrow> int \<times> 'd" where
  "save l s r d =
     (let (i, d1) = ins r d;
          d2 = (if s then shot i d1 else d1);
          d3 = (if l then logs i d2 else d2)
      in (i, d3))"

lemma ok_save: "ok d \<Longrightarrow> ok (snd (save l s r d))"
  using ok_ins [of d r] by (auto simp: save_def Let_def ok_logs ok_shot split: prod.splits)

lemma fetch_save:
  assumes "ok d" and "year4 (run_FinishedAt r)" and "save l s r d = (i, d')"
  shows "fetch d i = None \<and> 0 < i \<and>
    fetch d' = (fetch d)(i \<mapsto> r\<lparr>run_ID := i, run_FinishedAt := floor_sec (run_FinishedAt r),
      run_HasLogs := l, run_HasScreenshot := s\<rparr>)"
proof -
  obtain d1 where d1: "ins r d = (i, d1)"
    using assms(3) by (auto simp: save_def Let_def split: prod.splits)
  have ok1: "ok d1" using ok_ins [OF assms(1), of r] d1 by simp
  note f = fetch_ins [OF assms(1,2)] ins_fresh [OF assms(1), of r]
  have "d' = (if l then logs i (if s then shot i d1 else d1) else if s then shot i d1 else d1)"
    using assms(3) d1 by (auto simp: save_def Let_def)
  then show ?thesis
    using f ok1 by (auto simp: d1 fetch_shot fetch_logs ok_shot)
qed

lemma fetch_save_boot:
  assumes "ok d" and "year4 (run_FinishedAt r)" and "save l s r d = (i, d')"
  shows "fetch (boot i secs b d') = (fetch d)(i \<mapsto> r\<lparr>run_ID := i,
      run_FinishedAt := floor_sec (run_FinishedAt r), run_BootOK := b, run_BootSeconds := secs,
      run_HasLogs := l, run_HasScreenshot := s\<rparr>)"
  using fetch_save [OF assms] ok_save [OF assms(1), of l s r] assms(3) by (auto simp: fetch_boot)

end

interpretation rl: run_log wf_db fetch_run
  "\<lambda>r d. (case Insert None r d of (Inr i, d') \<Rightarrow> (i, d') | (Inl _, d') \<Rightarrow> (0, d'))"
  "\<lambda>i s b d. snd (UpdateBoot None i s b d)" "\<lambda>i d. snd (SetHasLogs None i d)"
  "\<lambda>i d. snd (SetHasScreenshot None i d)"
proof (unfold_locales, goal_cases)
  case (1 d r)
  then show ?case using wf_db_Insert [of d None r] by (simp add: Insert_None)
next
  case (5 d r)
  then show ?case using fetch_fresh [of d "runs_seq d + 1"] by (simp add: Insert_None wf_db_def)
next
  case (6 d r)
  then have "fetch_run d (runs_seq d + 1) = None" by (simp add: fetch_fresh)
  then have "find (\<lambda>x. row_id x = runs_seq d + 1) (runs d) = None" by (simp add: fetch_run_def)
  with 6 show ?case
    by (auto simp: Insert_None fetch_run_def fun_eq_iff find_append scan_row_of_run
        split: option.splits)
next
  case (7 d i s b)
  then show ?case by (simp add: UpdateBoot_def) (rule fetch_update_runs; simp add: scan_run_def)
next
  case (8 d i)
  then show ?case by (simp add: SetHasLogs_def) (rule fetch_update_runs; simp add: scan_run_def)
next
  case (9 d i)
  then show ?case by (simp add: SetHasScreenshot_def) (rule fetch_update_runs; simp add: scan_run_def)
qed simp_all

section \<open>Lemmas on ordered queries\<close>

lemma mset_order_by:
  assumes "desc_order ob"
  shows "mset (order_by ob key rows) = mset rows"
proof -
  have "mset (order_by ob key rows) = image_mset (\<lambda>i. rows ! i) (mset (ob (map key rows)))"
    by (simp add: order_by_def)
  also have "\<dots> = image_mset (\<lambda>i. rows ! i) (mset [0..<length rows])"
    using assms by (simp add: desc_order_def)
  also have "\<dots> = mset (map (\<lambda>i. rows ! i) [0..<length rows])"
    by (simp only: mset_map)
  also have "\<dots> = mset rows"
    by (simp only: map_nth)
  finally show ?thesis .
qed

lemma sorted_order_by:
  assumes "desc_order ob"
  shows "sorted_wrt (\<lambda>a b. key b \<le> key a) (order_by ob key rows)"
proof -
  let ?ks = "map key rows"
  have "set (ob ?ks) = {0..<length rows}"
    using assms by (metis desc_order_def atLeastLessThan_upt length_map mset_eq_setD)
  moreover have "sorted_wrt (\<lambda>i j. ?ks ! j \<le> ?ks ! i) (ob ?ks)"
    using assms by (simp add: desc_order_def)
  ultimately have "sorted_wrt (\<lambda>i j. key (rows ! j) \<le> key (rows ! i)) (ob ?ks)"
    by (auto intro!: sorted_wrt_mono_rel [of _ "\<lambda>i j. ?ks ! j \<le> ?ks ! i"])
  then show ?thesis by (simp add: order_by_def sorted_wrt_map)
qed

lemma set_order_by: "desc_order ob \<Longrightarrow> set (order_by ob key rows) = set rows"
  by (metis mset_eq_setD mset_order_by)

lemma sql_limit_split: "\<exists>ys. xs = sql_limit n xs @ ys"
  by (auto simp: sql_limit_def intro: append_take_drop_id [symmetric])

lemma length_sql_limit:
  "length (sql_limit n xs) = (if n < 0 then length xs else min (nat n) (length xs))"
  by (auto simp: sql_limit_def)

text \<open>A sorted query cut by a limit keeps the rows with the largest keys.\<close>

lemma top_rows:
  fixes rows :: "'a list" and key :: "'a \<Rightarrow> string" and n :: int
  assumes "desc_order ob"
  defines "out \<equiv> sql_limit n (order_by ob key rows)"
  shows "mset out \<subseteq># mset rows" and "sorted_wrt (\<lambda>a b. key b \<le> key a) out"
    and "\<And>x y. x \<in># mset rows - mset out \<Longrightarrow> y \<in> set out \<Longrightarrow> key x \<le> key y"
proof -
  obtain ys where ys: "order_by ob key rows = out @ ys"
    using sql_limit_split out_def by blast
  have m: "mset rows = mset out + mset ys"
    using mset_order_by [OF assms(1), of key rows] ys by simp
  then show "mset out \<subseteq># mset rows" by simp
  have s: "sorted_wrt (\<lambda>a b. key b \<le> key a) (out @ ys)"
    using sorted_order_by [OF assms(1), of key rows] ys by simp
  then show "sorted_wrt (\<lambda>a b. key b \<le> key a) out" by (simp add: sorted_wrt_append)
  show "\<And>x y. x \<in># mset rows - mset out \<Longrightarrow> y \<in> set out \<Longrightarrow> key x \<le> key y"
    using s m by (auto simp: sorted_wrt_append)
qed

text \<open>For stamped rows the text comparisons of a query are comparisons of instants.\<close>

lemma stamp_of_scan:
  assumes "stamped d" and "r \<in> set (runs d)"
  shows "\<exists>t. year4 t \<and> row_finished_at r = fmt_rfc3339 t \<and> run_FinishedAt (scan_run r) = floor_sec t"
  using assms by (fastforce simp: stamped_def scan_run_def parse_or_zero_fmt)

lemma floor_sec_mono: "floor_sec t \<le> floor_sec u \<longleftrightarrow> t div nanos \<le> u div nanos"
  by (simp add: floor_sec_def nanos_def)

lemma finished_le_iff:
  assumes "stamped d" and "r \<in> set (runs d)" and "r' \<in> set (runs d)"
  shows "row_finished_at r \<le> row_finished_at r' \<longleftrightarrow>
     run_FinishedAt (scan_run r) \<le> run_FinishedAt (scan_run r')"
  using stamp_of_scan [OF assms(1,2)] stamp_of_scan [OF assms(1,3)]
  by (auto simp: fmt_le_iff floor_sec_mono)

lemma in_window_iff:
  assumes "stamped d" and "r \<in> set (runs d)" and "year4 from" and "year4 to"
  shows "in_window from to (row_finished_at r) \<longleftrightarrow>
     (is_zero from \<or> floor_sec from \<le> run_FinishedAt (scan_run r)) \<and>
     (is_zero to \<or> run_FinishedAt (scan_run r) \<le> floor_sec to)"
  using stamp_of_scan [OF assms(1,2)] assms(3,4)
  by (auto simp: in_window_def fmt_le_iff floor_sec_mono)

text \<open>A concrete order for the examples: positions sorted by key, the larger first, earlier rows first.\<close>

fun insert_desc :: "(nat \<Rightarrow> string) \<Rightarrow> nat \<Rightarrow> nat list \<Rightarrow> nat list" where
  "insert_desc k i [] = [i]"
| "insert_desc k i (j # js) = (if k j \<le> k i then i # j # js else j # insert_desc k i js)"

definition stable_desc :: "string list \<Rightarrow> nat list" where
  "stable_desc ks = foldr (insert_desc (\<lambda>i. ks ! i)) [0..<length ks] []"

lemma mset_insert_desc: "mset (insert_desc k i js) = add_mset i (mset js)"
  by (induction k i js rule: insert_desc.induct) auto

lemma set_insert_desc: "set (insert_desc k i js) = insert i (set js)"
  by (induction k i js rule: insert_desc.induct) auto

lemma sorted_insert_desc:
  "sorted_wrt (\<lambda>i j. k j \<le> k i) js \<Longrightarrow> sorted_wrt (\<lambda>i j. k j \<le> k i) (insert_desc k i js)"
  by (induction k i js rule: insert_desc.induct) (auto simp: set_insert_desc)

lemma desc_order_stable: "desc_order stable_desc"
proof -
  have "mset (foldr (insert_desc k) is []) = mset is \<and>
      sorted_wrt (\<lambda>i j. k j \<le> k i) (foldr (insert_desc k) is [])" for k "is"
    by (induction "is") (auto simp: mset_insert_desc sorted_insert_desc)
  then show ?thesis by (simp add: desc_order_def stable_desc_def)
qed

section \<open>Properties of the run table\<close>

text \<open>C19: A run that was inserted is read back under a fresh positive id with every field as it was
  given, its time cut to seconds and the two log flags off; no other run changes.\<close>

theorem Insert_roundtrip:
  assumes "wf_db d" and "year4 (run_FinishedAt r)" and "Insert None r d = (Inr i, d')"
  shows "0 < i \<and> fetch_run d i = None \<and>
    fetch_run d' = (fetch_run d)(i \<mapsto> r\<lparr>run_ID := i, run_FinishedAt := floor_sec (run_FinishedAt r),
      run_HasLogs := False, run_HasScreenshot := False\<rparr>)"
  using rl.ins_fresh [OF assms(1), of r] rl.fetch_ins [OF assms(1,2)] assms(3) by simp

definition sample_run :: run where
  "sample_run = \<lparr>run_ID = 0, run_Serial = ''R58M'', run_Model = ''SM-A515F'',
     run_FinishedAt = 1700000000123456789, run_Passing = 4, run_Failing = 1, run_Pending = 0,
     run_Found = True, run_BootOK = False, run_BootSeconds = 0, run_TotalSeconds = 95,
     run_TestSeconds = 69 / 5, run_HasLogs = False, run_HasScreenshot = False, run_BatteryPct = 80,
     run_BatteryTemp = 0, run_UsbPath = ''1-3.2'', run_SessionMs = 4894, run_ApkMs = 5300\<rparr>"

theorem Insert_roundtrip_witness:
  "fetch_run (snd (Insert None sample_run empty_db)) 1 =
     Some (sample_run\<lparr>run_ID := 1, run_FinishedAt := 1700000000000000000\<rparr>)"
proof -
  have y: "year4 (run_FinishedAt sample_run)" by (simp add: sample_run_def year4_def nanos_def)
  have e: "Insert None sample_run empty_db = (Inr 1, snd (Insert None sample_run empty_db))"
    by (simp add: Insert_None empty_db_def)
  from Insert_roundtrip [OF conjunct1 [OF wf_empty_db] y e] show ?thesis
    by (simp add: sample_run_def floor_sec_def nanos_def)
qed

text \<open>C18: \<open>List\<close> returns, newest first, exactly the newest runs of the device whose time lies between
  the bounds, as many as the limit allows; a matching run that is left out is not newer than any
  run returned. The bounds are compared as instants cut to seconds.\<close>

theorem List_runs_correct:
  assumes "desc_order ob" and "stamped d" and "year4 from" and "year4 to"
    and "List_runs ob None serial limit from to d = Inr rs"
  defines "matching \<equiv> filter (\<lambda>r. (serial = '''' \<or> run_Serial r = serial) \<and>
      (is_zero from \<or> floor_sec from \<le> run_FinishedAt r) \<and>
      (is_zero to \<or> run_FinishedAt r \<le> floor_sec to)) (map scan_run (runs d))"
  shows "mset rs \<subseteq># mset matching \<and>
    length rs = (if limit < 0 then length matching else min (nat limit) (length matching)) \<and>
    sorted_wrt (\<lambda>a b. run_FinishedAt b \<le> run_FinishedAt a) rs \<and>
    (\<forall>x \<in># mset matching - mset rs. \<forall>y \<in> set rs. run_FinishedAt x \<le> run_FinishedAt y)"
proof -
  define sel where "sel = select_runs serial from to d"
  define out where "out = sql_limit limit (order_by ob row_finished_at sel)"
  have rs: "rs = map scan_run out"
    using assms(5) by (simp add: List_runs_def scanRuns_def out_def sel_def)
  have serial_scan: "run_Serial (scan_run r) = row_serial r" for r by (simp add: scan_run_def)
  have m: "matching = map scan_run sel"
    unfolding matching_def sel_def select_runs_def filter_map o_def
    by (rule arg_cong [where f = "map scan_run"], rule filter_cong)
      (use in_window_iff [OF assms(2) _ assms(3,4)] in \<open>auto simp: serial_scan\<close>)
  have sub: "set sel \<subseteq> set (runs d)" by (auto simp: sel_def select_runs_def)
  note top = top_rows [OF assms(1), where n = limit and key = row_finished_at and rows = sel, folded out_def]
  have out_sub: "set out \<subseteq> set sel" using top(1) by (metis set_mset_mono set_mset_mset)
  have le: "row_finished_at a \<le> row_finished_at b \<longleftrightarrow>
      run_FinishedAt (scan_run a) \<le> run_FinishedAt (scan_run b)" if "a \<in> set sel" "b \<in> set sel" for a b
    using finished_le_iff [OF assms(2)] that sub by blast
  have "mset rs \<subseteq># mset matching"
    using image_mset_subseteq_mono [OF top(1), of scan_run] by (simp add: rs m)
  moreover have "length rs = (if limit < 0 then length matching else min (nat limit) (length matching))"
    using mset_order_by [OF assms(1), of row_finished_at sel, THEN mset_eq_length]
    by (simp add: rs m out_def length_sql_limit)
  moreover have "sorted_wrt (\<lambda>a b. run_FinishedAt b \<le> run_FinishedAt a) rs"
    unfolding rs sorted_wrt_map
    by (rule sorted_wrt_mono_rel [OF _ top(2)]) (use le out_sub in blast)
  moreover have "mset matching - mset rs = image_mset scan_run (mset sel - mset out)"
    using top(1) by (simp add: rs m image_mset_Diff)
  then have "\<forall>x \<in># mset matching - mset rs. \<forall>y \<in> set rs. run_FinishedAt x \<le> run_FinishedAt y"
    using top(3) le out_sub in_diffD by (fastforce simp: rs)
  ultimately show ?thesis by blast
qed

text \<open>Updating the boot result or a log flag of one run leaves every other run as it was, changes
  only the fields named, and keeps the table well formed.\<close>

theorem run_updates:
  assumes "wf_db d"
  shows "fetch_run (snd (UpdateBoot None i s b d)) =
      (fetch_run d)(i := map_option (\<lambda>r. r\<lparr>run_BootOK := b, run_BootSeconds := s\<rparr>) (fetch_run d i)) \<and>
    fetch_run (snd (SetHasLogs None i d)) =
      (fetch_run d)(i := map_option (\<lambda>r. r\<lparr>run_HasLogs := True\<rparr>) (fetch_run d i)) \<and>
    fetch_run (snd (SetHasScreenshot None i d)) =
      (fetch_run d)(i := map_option (\<lambda>r. r\<lparr>run_HasScreenshot := True\<rparr>) (fetch_run d i)) \<and>
    wf_db (snd (UpdateBoot None i s b d)) \<and> wf_db (snd (SetHasLogs None i d)) \<and>
    wf_db (snd (SetHasScreenshot None i d))"
  using rl.fetch_boot [OF assms] rl.fetch_logs [OF assms] rl.fetch_shot [OF assms] assms by simp

theorem run_updates_witness:
  "fetch_run (snd (UpdateBoot None 1 45 True (snd (Insert None sample_run empty_db)))) 1 =
     Some (sample_run\<lparr>run_ID := 1, run_FinishedAt := 1700000000000000000, run_BootOK := True,
       run_BootSeconds := 45\<rparr>)"
proof -
  have "wf_db (snd (Insert None sample_run empty_db))"
    by (rule wf_db_Insert) (rule conjunct1 [OF wf_empty_db])
  from run_updates [OF this, of 1 45 True] have
    "fetch_run (snd (UpdateBoot None 1 45 True (snd (Insert None sample_run empty_db)))) 1 =
     map_option (\<lambda>r. r\<lparr>run_BootOK := True, run_BootSeconds := 45\<rparr>)
       (fetch_run (snd (Insert None sample_run empty_db)) 1)" by simp
  moreover have "fetch_run (snd (Insert None sample_run empty_db)) 1 =
      Some (scan_run (row_of_run 1 sample_run))"
    by (simp add: Insert_None empty_db_def fetch_run_def)
  moreover have "scan_run (row_of_run 1 sample_run) =
      sample_run\<lparr>run_ID := 1, run_FinishedAt := 1700000000000000000\<rparr>"
    by (subst scan_row_of_run) (simp_all add: sample_run_def year4_def nanos_def floor_sec_def)
  ultimately show ?thesis by simp
qed

text \<open>Two runs of one device and one of another, for the examples.\<close>

definition sample_db :: db where
  "sample_db = snd (Insert None (sample_run\<lparr>run_FinishedAt := 1700000300000000000, run_Failing := 0\<rparr>)
     (snd (Insert None (sample_run\<lparr>run_FinishedAt := 1700000200000000000, run_Serial := ''HT7''\<rparr>)
     (snd (Insert None sample_run empty_db)))))"

lemma sample_db_ok: "wf_db sample_db" "stamped sample_db"
  unfolding sample_db_def
  by (intro wf_db_Insert conjunct1 [OF wf_empty_db])
    (intro stamped_Insert conjunct2 [OF wf_empty_db]; simp add: sample_run_def year4_def nanos_def)

theorem List_runs_correct_witness:
  "\<exists>rs. List_runs stable_desc None ''R58M'' 1 zero_time zero_time sample_db = Inr rs \<and> length rs = 1"
proof -
  obtain rs where rs: "List_runs stable_desc None ''R58M'' 1 zero_time zero_time sample_db = Inr rs"
    by (simp add: List_runs_def)
  have "length rs = min (nat 1) (length (filter (\<lambda>r. run_Serial r = ''R58M'') (map scan_run (runs sample_db))))"
    using List_runs_correct [OF desc_order_stable sample_db_ok(2) zero_time_year4 zero_time_year4 rs]
    by (simp add: is_zero_def)
  also have "\<dots> = 1"
    by (simp add: sample_db_def Insert_None empty_db_def sample_run_def row_of_run_def scan_run_def)
  finally show ?thesis using rs by blast
qed

section \<open>Properties of the device configuration\<close>

text \<open>
  \<open>config_map\<close> is the contract of the configuration table: it behaves as a map from serials. The
  reconcile loop and the HTTP handler use the table through it.
\<close>

datatype config_op = Set_cfg device_config | Del_cfg string

fun map_op :: "(string \<rightharpoonup> device_config) \<Rightarrow> config_op \<Rightarrow> (string \<rightharpoonup> device_config)" where
  "map_op m (Set_cfg c) = m(cfg_Serial c \<mapsto> c)"
| "map_op m (Del_cfg s) = m(s := None)"

locale config_map =
  fixes ok :: "'d \<Rightarrow> bool"
    and cset :: "device_config \<Rightarrow> 'd \<Rightarrow> 'd"
    and cdel :: "string \<Rightarrow> 'd \<Rightarrow> 'd"
    and call :: "'d \<Rightarrow> (string \<rightharpoonup> device_config)"
  assumes ok_cset: "ok d \<Longrightarrow> ok (cset c d)"
    and ok_cdel: "ok d \<Longrightarrow> ok (cdel s d)"
    and call_cset: "ok d \<Longrightarrow> call (cset c d) = (call d)(cfg_Serial c \<mapsto> c)"
    and call_cdel: "ok d \<Longrightarrow> call (cdel s d) = (call d)(s := None)"
begin

fun apply_op :: "'d \<Rightarrow> config_op \<Rightarrow> 'd" where
  "apply_op d (Set_cfg c) = cset c d"
| "apply_op d (Del_cfg s) = cdel s d"

lemma ok_ops: "ok d \<Longrightarrow> ok (foldl apply_op d ops)"
proof (induction ops arbitrary: d)
  case (Cons x xs)
  then show ?case by (cases x) (simp_all add: ok_cset ok_cdel)
qed simp

lemma call_ops: "ok d \<Longrightarrow> call (foldl apply_op d ops) = foldl map_op (call d) ops"
proof (induction ops arbitrary: d)
  case (Cons x xs)
  then show ?case by (cases x) (simp_all add: ok_cset ok_cdel call_cset call_cdel fun_upd_def)
qed simp

end

text \<open>The map the table stands for.\<close>

definition config_of :: "db \<Rightarrow> (string \<rightharpoonup> device_config)" where
  "config_of d = (\<lambda>s. find (\<lambda>c. cfg_Serial c = s) (configs d))"

lemma find_serial_None: "find (\<lambda>x. cfg_Serial x = s) cs = None \<longleftrightarrow> s \<notin> cfg_Serial ` set cs"
  by (force simp: find_None_iff)

lemma foldl_configs:
  "distinct (map cfg_Serial cs) \<Longrightarrow>
   foldl (\<lambda>m c. m(cfg_Serial c \<mapsto> c)) m cs =
     (\<lambda>s. case find (\<lambda>c. cfg_Serial c = s) cs of None \<Rightarrow> m s | Some c \<Rightarrow> Some c)"
proof (induction cs arbitrary: m)
  case (Cons x xs)
  then have "find (\<lambda>c. cfg_Serial c = cfg_Serial x) xs = None" by (simp add: find_serial_None)
  with Cons show ?case by (auto simp: fun_eq_iff split: option.splits)
qed simp

lemma AllDeviceConfigs_eq: "wf_db d \<Longrightarrow> AllDeviceConfigs None d = Inr (config_of d)"
  by (auto simp: AllDeviceConfigs_def config_of_def wf_db_def foldl_configs fun_eq_iff
      split: option.splits)

lemma find_config_Some: "find (\<lambda>c. cfg_Serial c = s) cs = Some c \<Longrightarrow> cfg_Serial c = s"
  by (auto simp: find_Some_iff)

definition upsert :: "device_config \<Rightarrow> device_config \<Rightarrow> device_config" where
  "upsert c x = (if cfg_Serial x = cfg_Serial c
     then x\<lparr>cfg_TestVID := cfg_TestVID c, cfg_TestPID := cfg_TestPID c\<rparr> else x)"

lemma cfg_Serial_upsert [simp]: "cfg_Serial (upsert c x) = cfg_Serial x"
  by (simp add: upsert_def)

lemma upsert_same: "cfg_Serial x = cfg_Serial c \<Longrightarrow> upsert c x = c"
  by (simp add: upsert_def)

lemma upsert_other: "cfg_Serial x \<noteq> cfg_Serial c \<Longrightarrow> upsert c x = x"
  by (simp add: upsert_def)

lemma SetDeviceConfig_upsert:
  "configs (snd (SetDeviceConfig None c d)) =
     (if cfg_Serial c \<in> cfg_Serial ` set (configs d) then map (upsert c) (configs d)
      else configs d @ [c])"
  by (simp add: SetDeviceConfig_def upsert_def [abs_def])

lemma find_serial_map:
  "find (\<lambda>x. cfg_Serial x = s) (map (upsert c) cs) =
     map_option (upsert c) (find (\<lambda>x. cfg_Serial x = s) cs)"
  by (induction cs) auto

lemma config_of_Set: "config_of (snd (SetDeviceConfig None c d)) = (config_of d)(cfg_Serial c \<mapsto> c)"
proof (rule ext)
  fix s
  show "config_of (snd (SetDeviceConfig None c d)) s = ((config_of d)(cfg_Serial c \<mapsto> c)) s"
  proof (cases "find (\<lambda>x. cfg_Serial x = s) (configs d)")
    case None
    then show ?thesis
      using None [unfolded find_serial_None]
      by (auto simp: config_of_def SetDeviceConfig_upsert find_serial_map find_append)
  next
    case (Some x)
    then have "cfg_Serial x = s" by (rule find_config_Some)
    moreover have "s \<in> cfg_Serial ` set (configs d)" using Some by (metis find_serial_None option.distinct(1))
    ultimately show ?thesis using Some
      by (auto simp: config_of_def SetDeviceConfig_upsert find_serial_map find_append
          upsert_same upsert_other)
  qed
qed

lemma find_serial_filter:
  "find (\<lambda>c. cfg_Serial c = t) (filter (\<lambda>c. cfg_Serial c \<noteq> s) cs) =
     (if t = s then None else find (\<lambda>c. cfg_Serial c = t) cs)"
  by (induction cs) auto

lemma config_of_Delete: "config_of (snd (DeleteDeviceConfig None s d)) = (config_of d)(s := None)"
  by (rule ext) (simp add: config_of_def DeleteDeviceConfig_def find_serial_filter)

lemma wf_db_SetDeviceConfig: "wf_db d \<Longrightarrow> wf_db (snd (SetDeviceConfig err c d))"
proof (cases err)
  case None
  have "map cfg_Serial (map (upsert c) cs) = map cfg_Serial cs" for cs
    by (induction cs) simp_all
  moreover have "runs (snd (SetDeviceConfig None c d)) = runs d"
    "runs_seq (snd (SetDeviceConfig None c d)) = runs_seq d"
    by (simp_all add: SetDeviceConfig_def)
  ultimately show "wf_db d \<Longrightarrow> wf_db (snd (SetDeviceConfig err c d))"
    using None by (simp add: wf_db_def SetDeviceConfig_upsert del: map_map)
qed (simp add: SetDeviceConfig_def)

lemma wf_db_DeleteDeviceConfig: "wf_db d \<Longrightarrow> wf_db (snd (DeleteDeviceConfig err s d))"
  by (cases err) (auto simp: DeleteDeviceConfig_def wf_db_def distinct_map_filter)

interpretation cm: config_map wf_db "\<lambda>c d. snd (SetDeviceConfig None c d)"
  "\<lambda>s d. snd (DeleteDeviceConfig None s d)" config_of
  by unfold_locales
    (simp_all add: wf_db_SetDeviceConfig wf_db_DeleteDeviceConfig config_of_Set config_of_Delete)

definition run_config_op :: "db \<Rightarrow> config_op \<Rightarrow> db" where
  "run_config_op d x = (case x of Set_cfg c \<Rightarrow> snd (SetDeviceConfig None c d)
     | Del_cfg s \<Rightarrow> snd (DeleteDeviceConfig None s d))"

text \<open>After any sequence of settings and deletions \<open>AllDeviceConfigs\<close> returns the map that the same
  sequence of updates makes of the map it returned before.\<close>

theorem config_refines_map:
  assumes "wf_db d"
  shows "AllDeviceConfigs None (foldl run_config_op d ops) =
    map_sum id (\<lambda>m. foldl map_op m ops) (AllDeviceConfigs None d)"
proof -
  have "run_config_op = cm.apply_op"
    by (intro ext) (simp add: run_config_op_def split: config_op.split)
  then show ?thesis
    using assms cm.ok_ops [OF assms, of ops] cm.call_ops [OF assms, of ops]
    by (simp add: AllDeviceConfigs_eq)
qed

theorem config_refines_map_witness:
  "AllDeviceConfigs None (foldl run_config_op empty_db
     [Set_cfg \<lparr>cfg_Serial = ''a'', cfg_TestVID = ''18d1'', cfg_TestPID = ''4ee8''\<rparr>,
      Set_cfg \<lparr>cfg_Serial = ''a'', cfg_TestVID = ''22d9'', cfg_TestPID = ''2769''\<rparr>,
      Del_cfg ''b'']) =
   Inr [''a'' \<mapsto> \<lparr>cfg_Serial = ''a'', cfg_TestVID = ''22d9'', cfg_TestPID = ''2769''\<rparr>]"
  using config_refines_map [OF conjunct1 [OF wf_empty_db], of
     "[Set_cfg \<lparr>cfg_Serial = ''a'', cfg_TestVID = ''18d1'', cfg_TestPID = ''4ee8''\<rparr>,
       Set_cfg \<lparr>cfg_Serial = ''a'', cfg_TestVID = ''22d9'', cfg_TestPID = ''2769''\<rparr>,
       Del_cfg ''b'']"]
  by (simp add: AllDeviceConfigs_def empty_db_def fun_upd_twist)

section \<open>Properties of the statistics\<close>

lemma Stats_eq:
  "Stats grp ob None pe be from to d = Inr (map (\<lambda>s. fill_stats ob pe be d
     (stats_group s (filter (\<lambda>r. row_serial r = s) (select_runs '''' from to d))))
     (grp (remdups (map row_serial (select_runs '''' from to d)))))"
  by (simp add: Stats_def Let_def)

lemma fill_stats_frame [frame]:
  "st_Serial (fill_stats ob pe be d st) = st_Serial st"
  "st_TotalRuns (fill_stats ob pe be d st) = st_TotalRuns st"
  "st_FailedRuns (fill_stats ob pe be d st) = st_FailedRuns st"
  "st_TotalTests (fill_stats ob pe be d st) = st_TotalTests st"
  "st_TotalFail (fill_stats ob pe be d st) = st_TotalFail st"
  by (simp_all add: fill_stats_def Let_def)

text \<open>Counts read from test logs are not negative, and \<open>found\<close> was written by \<open>boolToInt\<close>.\<close>

definition counts_ok :: "db \<Rightarrow> bool" where
  "counts_ok d \<longleftrightarrow> (\<forall>r \<in> set (runs d). 0 \<le> row_passing r \<and> 0 \<le> row_failing r \<and> row_found r \<in> {0, 1})"

lemma group_bounds:
  assumes "\<forall>r \<in> set rs. 0 \<le> row_passing r \<and> 0 \<le> row_failing r \<and> row_found r \<in> {0, 1}"
  shows "0 \<le> total_fail rs \<and> total_fail rs \<le> total_tests rs \<and> 0 \<le> failed_runs rs \<and>
    failed_runs rs \<le> int (length rs) \<and> (failed_runs rs = 0 \<longleftrightarrow> total_fail rs = 0)"
  using assms
proof (induction rs)
  case (Cons r rs)
  then show ?case by (auto simp: total_fail_def total_tests_def failed_runs_def)
qed (simp add: total_fail_def total_tests_def failed_runs_def)

lemma pass_rate_bounds:
  assumes "0 \<le> st_TotalFail s" and "st_TotalFail s \<le> st_TotalTests s"
  shows "0 \<le> PassRate s \<and> PassRate s \<le> 100"
proof (cases "st_TotalTests s = 0")
  case False
  with assms have "0 < (of_int (st_TotalTests s) :: rat)" by simp
  moreover have "(of_int (st_TotalTests s - st_TotalFail s) :: rat) \<le> of_int (st_TotalTests s)"
    "0 \<le> (of_int (st_TotalTests s - st_TotalFail s) :: rat)"
    using assms by (simp_all only: of_int_le_iff of_int_0_le_iff)
  ultimately show ?thesis
    using False by (simp add: PassRate_def field_simps)
qed (simp add: PassRate_def)

text \<open>In the statistics of every device the failed tests are between 0 and the tests, the failed
  cycles between 0 and the cycles, some test failed exactly when some cycle did, and the pass rate
  lies between 0 and 100.\<close>

theorem Stats_bounds:
  assumes "counts_ok d" and "Stats grp ob None pe be from to d = Inr ss" and "s \<in> set ss"
  shows "0 \<le> st_TotalFail s \<and> st_TotalFail s \<le> st_TotalTests s \<and>
    0 \<le> st_FailedRuns s \<and> st_FailedRuns s \<le> st_TotalRuns s \<and>
    (st_FailedRuns s = 0 \<longleftrightarrow> st_TotalFail s = 0) \<and> 0 \<le> PassRate s \<and> PassRate s \<le> 100"
proof -
  define rs where "rs = (\<lambda>x. filter (\<lambda>r. row_serial r = x) (select_runs '''' from to d))"
  from assms(2,3) obtain x where s: "s = fill_stats ob pe be d (stats_group x (rs x))"
    by (auto simp: Stats_eq rs_def)
  have "set (rs x) \<subseteq> set (runs d)" by (auto simp: rs_def select_runs_def)
  with assms(1) have "0 \<le> total_fail (rs x) \<and> total_fail (rs x) \<le> total_tests (rs x) \<and>
      0 \<le> failed_runs (rs x) \<and> failed_runs (rs x) \<le> int (length (rs x)) \<and>
      (failed_runs (rs x) = 0 \<longleftrightarrow> total_fail (rs x) = 0)"
    by (intro group_bounds) (auto simp: counts_ok_def)
  then have "0 \<le> st_TotalFail s \<and> st_TotalFail s \<le> st_TotalTests s \<and>
    0 \<le> st_FailedRuns s \<and> st_FailedRuns s \<le> st_TotalRuns s \<and>
    (st_FailedRuns s = 0 \<longleftrightarrow> st_TotalFail s = 0)"
    by (simp add: s frame stats_group_def)
  then show ?thesis using pass_rate_bounds [of s] by blast
qed

lemma sample_db_runs:
  "runs sample_db = [row_of_run 1 sample_run,
     row_of_run 2 (sample_run\<lparr>run_FinishedAt := 1700000200000000000, run_Serial := ''HT7''\<rparr>),
     row_of_run 3 (sample_run\<lparr>run_FinishedAt := 1700000300000000000, run_Failing := 0\<rparr>)]"
  by (simp add: sample_db_def Insert_None empty_db_def)

theorem Stats_bounds_witness:
  "\<exists>s. st_TotalFail s = 1 \<and> st_FailedRuns s = 1 \<and> st_TotalRuns s = 2 \<and> 0 \<le> PassRate s \<and> PassRate s \<le> 100"
proof -
  let ?st = "fill_stats stable_desc (\<lambda>_. False) (\<lambda>_. False) sample_db (stats_group ''R58M''
     (filter (\<lambda>r. row_serial r = ''R58M'') (select_runs '''' zero_time zero_time sample_db)))"
  have c: "counts_ok sample_db"
    by (simp add: counts_ok_def sample_db_runs row_of_run_def sample_run_def boolToInt_def)
  have e: "Stats id stable_desc None (\<lambda>_. False) (\<lambda>_. False) zero_time zero_time sample_db =
      Inr (map (\<lambda>s. fill_stats stable_desc (\<lambda>_. False) (\<lambda>_. False) sample_db (stats_group s
        (filter (\<lambda>r. row_serial r = s) (select_runs '''' zero_time zero_time sample_db))))
        (remdups (map row_serial (select_runs '''' zero_time zero_time sample_db))))"
    by (simp add: Stats_eq)
  have m: "?st \<in> set (map (\<lambda>s. fill_stats stable_desc (\<lambda>_. False) (\<lambda>_. False) sample_db (stats_group s
        (filter (\<lambda>r. row_serial r = s) (select_runs '''' zero_time zero_time sample_db))))
        (remdups (map row_serial (select_runs '''' zero_time zero_time sample_db))))"
    by (simp add: select_runs_def in_window_def is_zero_def sample_db_runs row_of_run_def sample_run_def)
  have "st_TotalFail ?st = 1 \<and> st_FailedRuns ?st = 1 \<and> st_TotalRuns ?st = 2"
    by (simp add: frame stats_group_def select_runs_def in_window_def is_zero_def sample_db_runs
        row_of_run_def sample_run_def total_fail_def failed_runs_def boolToInt_def)
  with Stats_bounds [OF c e m] show ?thesis by blast
qed

lemma sum_groups:
  "distinct ks \<Longrightarrow> set (map f xs) \<subseteq> set ks \<Longrightarrow>
   (\<Sum>k\<leftarrow>ks. int (length (filter (\<lambda>x. f x = k) xs))) = int (length xs)"
proof (induction xs)
  case (Cons x xs)
  have "(\<Sum>k\<leftarrow>ks. int (length (filter (\<lambda>y. f y = k) (x # xs)))) =
      (\<Sum>k\<leftarrow>ks. int (length (filter (\<lambda>y. f y = k) xs))) + (\<Sum>k\<leftarrow>ks. if f x = k then 1 else 0)"
    by (induction ks) simp_all
  moreover have "(\<Sum>k\<leftarrow>ks. if f x = k then 1 else 0 :: int) = 1"
    using Cons.prems by (subst sum_list_distinct_conv_sum_set) auto
  ultimately show ?case using Cons by simp
qed simp

text \<open>C30: The groups of the statistics partition the runs of the time window: every device with a run
  in the window has exactly one entry, and the cycle counts add up to the number of those runs.\<close>

theorem Stats_partition:
  assumes "\<And>gs. mset (grp gs) = mset gs" and "Stats grp ob None pe be from to d = Inr ss"
  shows "distinct (map st_Serial ss) \<and>
    set (map st_Serial ss) = row_serial ` {r \<in> set (runs d). in_window from to (row_finished_at r)} \<and>
    sum_list (map st_TotalRuns ss) =
      int (length (filter (\<lambda>r. in_window from to (row_finished_at r)) (runs d)))"
proof -
  define rs where "rs = select_runs '''' from to d"
  define ks where "ks = grp (remdups (map row_serial rs))"
  have ss: "ss = map (\<lambda>s. fill_stats ob pe be d (stats_group s (filter (\<lambda>r. row_serial r = s) rs))) ks"
    using assms(2) by (simp add: Stats_eq rs_def ks_def)
  have k: "distinct ks" "set ks = row_serial ` set rs"
    using assms(1) [of "remdups (map row_serial rs)"]
    by (metis ks_def distinct_remdups mset_eq_imp_distinct_iff)
      (metis ks_def assms(1) mset_eq_setD set_remdups set_map)
  have serials: "map st_Serial ss = ks"
    by (simp add: ss o_def frame stats_group_def)
  have "map st_TotalRuns ss = map (\<lambda>s. int (length (filter (\<lambda>r. row_serial r = s) rs))) ks"
    by (simp add: ss o_def frame stats_group_def)
  then have "sum_list (map st_TotalRuns ss) = int (length rs)"
    using sum_groups [OF k(1), of row_serial rs] k(2) by simp
  moreover have "rs = filter (\<lambda>r. in_window from to (row_finished_at r)) (runs d)"
    by (simp add: rs_def select_runs_def)
  ultimately show ?thesis using serials k by auto
qed

theorem Stats_partition_witness:
  "\<exists>ss. Stats id stable_desc None (\<lambda>_. False) (\<lambda>_. False) zero_time zero_time sample_db = Inr ss \<and>
     sum_list (map st_TotalRuns ss) = 3 \<and> set (map st_Serial ss) = {''R58M'', ''HT7''}"
proof -
  obtain ss where ss: "Stats id stable_desc None (\<lambda>_. False) (\<lambda>_. False) zero_time zero_time sample_db = Inr ss"
    by (simp add: Stats_eq)
  have p: "\<And>gs. mset (id gs) = mset gs" by simp
  have w: "in_window zero_time zero_time x" for x by (simp add: in_window_def is_zero_def)
  have "length (runs sample_db) = 3" "row_serial ` set (runs sample_db) = {''R58M'', ''HT7''}"
    by (auto simp: sample_db_runs row_of_run_def sample_run_def)
  with Stats_partition [OF p ss] ss show ?thesis by (simp add: w)
qed

section \<open>The latest USB data of a device\<close>

lemma distinct_singleton: "distinct xs \<Longrightarrow> set xs = {a} \<Longrightarrow> xs = [a]"
  by (cases xs; cases "tl xs") auto

text \<open>\<open>LatestUSBInfoPerDevice\<close> has exactly one entry for every serial that ever connected, with the
  path, vendor and product id of a connect event of this serial that no other one is later than.\<close>

theorem LatestUSBInfo_correct:
  assumes "desc_order ob" and "LatestUSBInfoPerDevice ob None d = Inr es"
  shows "distinct (map ev_Serial es) \<and>
    set (map ev_Serial es) = {evr_serial r | r. r \<in> set (device_events d) \<and> evr_event r = ''connected''} \<and>
    (\<forall>e \<in> set es. \<exists>r \<in> set (connected_rows (ev_Serial e) d).
       ev_USBPath e = evr_usb_path r \<and> ev_VID e = evr_vid r \<and> ev_PID e = evr_pid r \<and>
       (\<forall>r' \<in> set (connected_rows (ev_Serial e) d). evr_ts r' \<le> evr_ts r))"
proof -
  define top where "top = (\<lambda>s. hd (order_by ob evr_ts (connected_rows s d)))"
  define ks where "ks = remdups (map evr_serial (filter (\<lambda>r. evr_event r = ''connected'') (device_events d)))"
  have es: "es = map (\<lambda>s. zero_event\<lparr>ev_Serial := evr_serial (top s), ev_USBPath := evr_usb_path (top s),
      ev_VID := evr_vid (top s), ev_PID := evr_pid (top s)\<rparr>) ks"
    using assms(2) by (simp add: LatestUSBInfoPerDevice_def top_def ks_def Let_def)
  have top: "top s \<in> set (connected_rows s d) \<and>
      (\<forall>r' \<in> set (connected_rows s d). evr_ts r' \<le> evr_ts (top s))" if "s \<in> set ks" for s
  proof -
    from that have ne: "connected_rows s d \<noteq> []" by (auto simp: ks_def connected_rows_def filter_empty_conv)
    obtain x xs where x: "order_by ob evr_ts (connected_rows s d) = x # xs"
      using ne set_order_by [OF assms(1), of evr_ts "connected_rows s d"]
      by (metis list.exhaust set_empty)
    with set_order_by [OF assms(1), of evr_ts "connected_rows s d"]
      sorted_order_by [OF assms(1), of evr_ts "connected_rows s d"]
    show ?thesis by (auto simp: top_def)
  qed
  have serial: "evr_serial (top s) = s" if "s \<in> set ks" for s
    using top [OF that] by (auto simp: connected_rows_def)
  have "map ev_Serial es = ks"
    by (simp add: es o_def serial map_idI)
  moreover have "distinct ks" by (simp add: ks_def)
  moreover have "set ks = {evr_serial r | r. r \<in> set (device_events d) \<and> evr_event r = ''connected''}"
    by (auto simp: ks_def)
  moreover have "\<forall>e \<in> set es. \<exists>r \<in> set (connected_rows (ev_Serial e) d).
       ev_USBPath e = evr_usb_path r \<and> ev_VID e = evr_vid r \<and> ev_PID e = evr_pid r \<and>
       (\<forall>r' \<in> set (connected_rows (ev_Serial e) d). evr_ts r' \<le> evr_ts r)"
    using top serial by (auto simp: es)
  ultimately show ?thesis by simp
qed

definition sample_event :: device_event where
  "sample_event = zero_event\<lparr>ev_Serial := ''R58M'', ev_Event := ''connected'', ev_TS := 1700000000000000000,
     ev_USBPath := ''1-3.2'', ev_VID := ''04e8'', ev_PID := ''6860''\<rparr>"

theorem LatestUSBInfo_correct_witness:
  "\<exists>es. LatestUSBInfoPerDevice stable_desc None (snd (InsertEvent None sample_event empty_db)) = Inr es \<and>
     map ev_Serial es = [''R58M'']"
proof -
  let ?d = "snd (InsertEvent None sample_event empty_db)"
  obtain es where es: "LatestUSBInfoPerDevice stable_desc None ?d = Inr es"
    by (simp add: LatestUSBInfoPerDevice_def)
  note c = LatestUSBInfo_correct [OF desc_order_stable es]
  obtain r where r: "device_events ?d = [r]" "evr_serial r = ''R58M''" "evr_event r = ''connected''"
    by (simp add: InsertEvent_def sample_event_def empty_db_def zero_event_def)
  have "{evr_serial x | x. x \<in> set [r] \<and> evr_event x = ''connected''} = {''R58M''}"
    using r(2,3) by auto
  then have "{evr_serial x | x. x \<in> set (device_events ?d) \<and> evr_event x = ''connected''} = {''R58M''}"
    by (simp only: r(1))
  then have u: "set (map ev_Serial es) = {''R58M''}"
    by (rule trans [OF conjunct1 [OF conjunct2 [OF c]]])
  have "map ev_Serial es = [''R58M'']"
    by (rule distinct_singleton [OF conjunct1 [OF c] u])
  from es this show ?thesis by (intro exI [of _ es] conjI)
qed

section \<open>Properties of opening the database\<close>

lemma exec_stmt_keeps:
  assumes "exec_stmt s c = Some c'"
  shows "map_of (tables c) t = Some cs \<Longrightarrow> \<exists>cs'. map_of (tables c') t = Some cs' \<and> set cs \<subseteq> set cs'"
    and "set (indexes c) \<subseteq> set (indexes c')"
  using assms
  by (cases s; auto simp: map_add_Some_iff update_conv' split: if_splits option.splits)+

lemma has_column_keeps: "exec_stmt s c = Some c' \<Longrightarrow> has_column c t col \<Longrightarrow> has_column c' t col"
  using exec_stmt_keeps(1) [of s c c' t] by (fastforce simp: has_column_def split: option.splits)

definition has_columns :: "catalogue \<Rightarrow> string \<Rightarrow> string list \<Rightarrow> bool" where
  "has_columns c t cs \<longleftrightarrow> (\<exists>cs'. map_of (tables c) t = Some cs' \<and> set cs \<subseteq> set cs')"

lemma has_columns_keeps: "exec_stmt s c = Some c' \<Longrightarrow> has_columns c t cs \<Longrightarrow> has_columns c' t cs"
  unfolding has_columns_def using exec_stmt_keeps(1) [of s c c' t] by (meson subset_trans)

text \<open>
  \<open>base t\<close> is the columns the table \<open>t\<close> had when it was first released; an older database has each
  table either not at all or with at least these columns.
\<close>

definition base :: "string \<Rightarrow> string list" where
  "base t =
     (if t = ''runs'' then take 10 runs_columns
      else if t = ''usb_events'' then butlast usb_events_columns
      else if t = ''device_events'' then device_events_columns
      else if t = ''device_config'' then device_config_columns else [])"

definition sane :: "catalogue \<Rightarrow> bool" where
  "sane c \<longleftrightarrow> (\<forall>t. map_of (tables c) t = None \<or> has_columns c t (base t))"

text \<open>Statically: every table is created with its base columns, and every index is on a base column
  of a table created before.\<close>

fun sound :: "string list \<Rightarrow> stmt list \<Rightarrow> bool" where
  "sound K [] = True"
| "sound K (CreateTable t cs # ss) \<longleftrightarrow> set (base t) \<subseteq> set cs \<and> sound (t # K) ss"
| "sound K (AddColumn t col # ss) = False"
| "sound K (CreateIndex i t col # ss) \<longleftrightarrow> t \<in> set K \<and> col \<in> set (base t) \<and> sound K ss"

lemma exec_all_sound:
  assumes "sane c" and "sound K ss" and "\<forall>t \<in> set K. has_columns c t (base t)"
  shows "\<exists>c'. exec_all ss c = Some c' \<and> sane c' \<and> (\<forall>t \<in> set K. has_columns c' t (base t)) \<and>
    (\<forall>t cs. CreateTable t cs \<in> set ss \<longrightarrow> has_columns c' t (base t)) \<and>
    (\<forall>i t col. CreateIndex i t col \<in> set ss \<longrightarrow> i \<in> set (indexes c')) \<and>
    set (indexes c) \<subseteq> set (indexes c')"
  using assms
proof (induction K ss arbitrary: c rule: sound.induct)
  case (2 K t cs ss)
  obtain c1 where c1: "exec_stmt (CreateTable t cs) c = Some c1"
    by (cases "map_of (tables c) t") auto
  have t1: "has_columns c1 t (base t)"
  proof (cases "map_of (tables c) t")
    case None
    then have "map_of (tables c1) t = Some cs" using c1 by (auto simp: map_add_def)
    then show ?thesis using 2(3) by (simp add: has_columns_def)
  next
    case (Some old)
    then have "c1 = c" using c1 by auto
    moreover have "has_columns c t (base t)" using 2(2) Some by (metis sane_def option.distinct(1))
    ultimately show ?thesis by simp
  qed
  have "sane c1"
    using c1 2(2,3) by (auto simp: sane_def has_columns_def map_add_Some_iff split: if_splits)
  moreover have "\<forall>u \<in> set (t # K). has_columns c1 u (base u)"
    using t1 2(4) has_columns_keeps [OF c1] by auto
  ultimately obtain c' where c': "exec_all ss c1 = Some c'" "sane c'"
    "\<forall>u \<in> set (t # K). has_columns c' u (base u)"
    "\<forall>u cs. CreateTable u cs \<in> set ss \<longrightarrow> has_columns c' u (base u)"
    "\<forall>i t col. CreateIndex i t col \<in> set ss \<longrightarrow> i \<in> set (indexes c')" "set (indexes c1) \<subseteq> set (indexes c')"
    using 2 by (metis sound.simps(2))
  then show ?case using c1 exec_stmt_keeps(2) [OF c1] by (intro exI [of _ c']) auto
next
  case (4 K i t col ss)
  have "has_column c t col"
    using 4(3,4) by (fastforce simp: has_columns_def has_column_def)
  then obtain c1 where c1: "exec_stmt (CreateIndex i t col) c = Some c1" "i \<in> set (indexes c1)"
    "tables c1 = tables c"
    by (cases "i \<in> set (indexes c)") auto
  then have "sane c1" "\<forall>u \<in> set K. has_columns c1 u (base u)"
    using 4(2,4) by (simp_all add: sane_def has_columns_def)
  then obtain c' where c': "exec_all ss c1 = Some c'" "sane c'" "\<forall>u \<in> set K. has_columns c' u (base u)"
    "\<forall>u cs. CreateTable u cs \<in> set ss \<longrightarrow> has_columns c' u (base u)"
    "\<forall>i t col. CreateIndex i t col \<in> set ss \<longrightarrow> i \<in> set (indexes c')" "set (indexes c1) \<subseteq> set (indexes c')"
    using 4 by (metis sound.simps(4))
  have "exec_all (CreateIndex i t col # ss) c = Some c'" using c1(1) c'(1) by simp
  moreover have "i \<in> set (indexes c')" using c1(2) c'(6) by blast
  with c'(5) have "\<forall>i' t' col'. CreateIndex i' t' col' \<in> set (CreateIndex i t col # ss) \<longrightarrow> i' \<in> set (indexes c')"
    by (metis set_ConsD stmt.inject(3))
  moreover have "\<forall>u cs. CreateTable u cs \<in> set (CreateIndex i t col # ss) \<longrightarrow> has_columns c' u (base u)"
    using c'(4) by simp
  moreover have "set (indexes c) \<subseteq> set (indexes c')" using exec_stmt_keeps(2) [OF c1(1)] c'(6) by simp
  ultimately show ?case using c'(2,3) by (intro exI [of _ c'] conjI)
qed auto

lemma migrate_keeps:
  "map_of (tables c) t = Some cs \<Longrightarrow> \<exists>cs'. map_of (tables (migrate ss c)) t = Some cs' \<and> set cs \<subseteq> set cs'"
  "has_column c t col \<Longrightarrow> has_column (migrate ss c) t col"
  "set (indexes c) \<subseteq> set (indexes (migrate ss c))"
proof (induction ss arbitrary: c cs)
  case (Cons s ss)
  {
    case 1
    then show ?case using Cons.IH(1) exec_stmt_keeps(1) [of s c _ t cs]
      by (fastforce split: option.splits)
  next
    case 2
    then show ?case using Cons.IH(2) has_column_keeps [of s c] by (simp split: option.splits)
  next
    case 3
    then show ?case using Cons.IH(3) exec_stmt_keeps(2) [of s c] by (fastforce split: option.splits)
  }
qed auto

lemma migrate_adds:
  assumes "AddColumn t col \<in> set ss" and "map_of (tables c) t \<noteq> None"
  shows "has_column (migrate ss c) t col"
  using assms
proof (induction ss arbitrary: c)
  case (Cons s ss)
  let ?c = "case exec_stmt s c of None \<Rightarrow> c | Some c' \<Rightarrow> c'"
  have k: "map_of (tables ?c) t \<noteq> None"
    using Cons.prems(2) exec_stmt_keeps(1) [of s c _ t] by (fastforce split: option.splits)
  show ?case
  proof (cases "AddColumn t col = s")
    case True
    have "has_column ?c t col"
      using Cons.prems(2) True
      by (auto simp: has_column_def update_conv' split: option.splits if_splits)
    then show ?thesis by (simp add: migrate_keeps(2))
  next
    case False
    then show ?thesis using Cons k by simp
  qed
qed simp

text \<open>A catalogue on which a statement changes nothing.\<close>

fun settled :: "catalogue \<Rightarrow> stmt \<Rightarrow> bool" where
  "settled c (CreateTable t cs) \<longleftrightarrow> map_of (tables c) t \<noteq> None"
| "settled c (AddColumn t col) \<longleftrightarrow> has_column c t col"
| "settled c (CreateIndex i t col) \<longleftrightarrow> i \<in> set (indexes c)"

lemma exec_all_settled:
  "\<forall>s \<in> set ss. settled c s \<and> (\<forall>t col. s \<noteq> AddColumn t col) \<Longrightarrow> exec_all ss c = Some c"
proof (induction ss)
  case (Cons s ss)
  then have "exec_stmt s c = Some c" by (cases s) auto
  with Cons show ?case by simp
qed simp

lemma migrate_settled: "\<forall>s \<in> set ss. settled c s \<Longrightarrow> migrate ss c = c"
proof (induction ss)
  case (Cons s ss)
  then have "(case exec_stmt s c of None \<Rightarrow> c | Some c' \<Rightarrow> c') = c"
    by (cases s) (auto simp: has_column_def split: option.splits)
  with Cons show ?case by simp
qed simp

definition up_to_date :: "catalogue \<Rightarrow> bool" where
  "up_to_date c \<longleftrightarrow> (\<forall>col \<in> set runs_columns. has_column c ''runs'' col) \<and>
     (\<forall>col \<in> set device_events_columns. has_column c ''device_events'' col) \<and>
     (\<forall>col \<in> set usb_events_columns. has_column c ''usb_events'' col) \<and>
     (\<forall>col \<in> set device_config_columns. has_column c ''device_config'' col)"

lemma has_columns_column: "has_columns c t cs \<Longrightarrow> col \<in> set cs \<Longrightarrow> has_column c t col"
  by (auto simp: has_columns_def has_column_def)

lemma schema_sound: "sound [] schema"
  by (simp add: schema_def base_def runs_columns_def device_events_columns_def usb_events_columns_def
      device_config_columns_def)

lemma migrations_indexes:
  "CreateIndex i t col \<in> set migrations \<Longrightarrow> CreateIndex i t col \<in> set schema"
  "CreateTable t cs \<in> set migrations \<Longrightarrow> \<exists>cs'. CreateTable t cs' \<in> set schema"
  "AddColumn t col \<in> set migrations \<Longrightarrow> \<exists>cs'. CreateTable t cs' \<in> set schema"
  by (auto simp: migrations_def schema_def)

text \<open>C31: Opening any older database succeeds and leaves every column that the statements of the store
  name in place, and opening the result once more changes nothing.\<close>

theorem Open_upgrades:
  assumes "sane c"
  shows "\<exists>c'. Open None None c = Inr c' \<and> up_to_date c' \<and> Open None None c' = Inr c'"
proof -
  have "\<forall>t \<in> set []. has_columns c t (base t)" by simp
  from exec_all_sound [OF assms schema_sound this]
  obtain c1 where c1: "exec_all schema c = Some c1"
    and c1_tables: "\<forall>t cs. CreateTable t cs \<in> set schema \<longrightarrow> has_columns c1 t (base t)"
    and c1_indexes: "\<forall>i t col. CreateIndex i t col \<in> set schema \<longrightarrow> i \<in> set (indexes c1)"
    by blast
  have tabs: "has_columns c1 t (base t)" if "CreateTable t cs \<in> set schema" for t cs
    using c1_tables that by blast
  have idx: "i \<in> set (indexes c1)" if "CreateIndex i t col \<in> set schema" for i t col
    using c1_indexes that by blast
  define c2 where "c2 = migrate migrations c1"
  have t1: "map_of (tables c1) t \<noteq> None" if "CreateTable t cs \<in> set schema" for t cs
    using tabs [OF that] by (auto simp: has_columns_def)
  have old: "has_column c2 t col" if "CreateTable t cs \<in> set schema" "col \<in> set (base t)" for t cs col
    unfolding c2_def by (intro migrate_keeps(2) has_columns_column [OF tabs [OF that(1)] that(2)])
  have new: "has_column c2 t col" if "AddColumn t col \<in> set migrations" for t col
    using migrations_indexes(3) [OF that] t1 migrate_adds [OF that] by (auto simp: c2_def)
  have tables: "CreateTable ''runs'' runs_columns \<in> set schema"
    "CreateTable ''device_events'' device_events_columns \<in> set schema"
    "CreateTable ''usb_events'' usb_events_columns \<in> set schema"
    "CreateTable ''device_config'' device_config_columns \<in> set schema"
    by (simp_all add: schema_def)
  have up: "up_to_date c2"
    unfolding up_to_date_def
    using old [OF tables(1)] old [OF tables(2)] old [OF tables(3)] old [OF tables(4)]
      new [of "''runs''"] new [of "''usb_events''"]
    by (simp add: base_def runs_columns_def device_events_columns_def usb_events_columns_def
        device_config_columns_def migrations_def)
  have "settled c2 s" if "s \<in> set schema \<union> set migrations" for s
  proof (cases s)
    case (CreateTable t cs)
    with that obtain cs' where "CreateTable t cs' \<in> set schema" using migrations_indexes(2) by auto
    then show ?thesis
      using CreateTable t1 migrate_keeps(1) [of c1 t _ migrations] by (fastforce simp: c2_def)
  next
    case (AddColumn t col)
    then have "s \<notin> set schema" by (simp add: schema_def)
    then show ?thesis using that AddColumn new by auto
  next
    case (CreateIndex i t col)
    then show ?thesis
      using that migrations_indexes(1) [of i t col] idx [of i t col] migrate_keeps(3) [of c1 migrations]
      by (auto simp: c2_def)
  qed
  then have "exec_all schema c2 = Some c2" "migrate migrations c2 = c2"
    by (auto intro!: exec_all_settled migrate_settled) (simp add: schema_def)
  then have "Open None None c2 = Inr c2" by (simp add: Open_def)
  moreover have "Open None None c = Inr c2" by (simp add: Open_def c1 c2_def)
  ultimately show ?thesis using up by blast
qed

theorem Open_upgrades_witness:
  "\<exists>c'. Open None None \<lparr>tables = [(''runs'', take 10 runs_columns)], indexes = []\<rparr> = Inr c' \<and> up_to_date c'"
proof -
  have "sane \<lparr>tables = [(''runs'', take 10 runs_columns)], indexes = []\<rparr>"
    by (simp add: sane_def has_columns_def base_def)
  from Open_upgrades [OF this] show ?thesis by blast
qed

end
