(* ===== verification/Adb_Client.thy ===== *)
theory Adb_Client
  imports Host
begin

text \<open>
  \<open>internal/adb/client.go\<close>: the list of devices and its stream from the ADB server, the commands the
  hub sends to a phone, the wait for a rebooted phone, the battery level, and the USB devices that
  the kernel shows under \<open>/sys/bus/usb/devices\<close>. Every function takes the machine's answers (\<open>Host\<close>)
  and the calls made so far and gives its result with the calls it added.
\<close>

section \<open>Devices\<close>

record device =
  Serial :: string
  ADBSerial :: string
  State :: string
  Model :: string
  ADBHost :: string
  ADBPort :: int
  Platform :: string

definition zero_device :: device where
  "zero_device = \<lparr>Serial = '''', ADBSerial = '''', State = '''', Model = '''', ADBHost = '''',
     ADBPort = 0, Platform = ''''\<rparr>"

definition IsReady :: "device \<Rightarrow> bool" where
  "IsReady d \<longleftrightarrow> State d = ''device''"

fun parse_line :: "string \<Rightarrow> device list" where
  "parse_line line =
     (let l = trim_space line
      in if l = [] then []
         else case text_fields l of
           serial # state # _ \<Rightarrow> [zero_device\<lparr>Serial := serial, State := state\<rparr>]
         | _ \<Rightarrow> [])"

definition parseDeviceList :: "string \<Rightarrow> device list" where
  "parseDeviceList data = concat (map parse_line (split_on nl data))"

fun populateModels ::
  "('x, 'm) world_scheme \<Rightarrow> device list \<Rightarrow> 'x call list \<Rightarrow> device list \<times> 'x call list" where
  "populateModels w [] tr = ([], tr)"
| "populateModels w (d # ds) tr =
     (if \<not> IsReady d then (let (ds', tr') = populateModels w ds tr in (d # ds', tr'))
      else let ((out, err), tr1) = exec w [''adb'', ''-s'', Serial d, ''shell'', ''getprop'', ''ro.product.model''] tr;
               d' = (if err = None then d\<lparr>Model := trim_space out\<rparr> else d);
               (ds', tr') = populateModels w ds tr1
           in (d' # ds', tr'))"

text \<open>The text after the first line break, or nothing.\<close>

definition after_first_line :: "string \<Rightarrow> string" where
  "after_first_line s = tl (dropWhile (\<lambda>c. c \<noteq> nl) s)"

definition ListDevices :: "('x, 'm) world_scheme \<Rightarrow> 'x call list \<Rightarrow> device list res \<times> 'x call list" where
  "ListDevices w tr =
     (let ((out, err), tr1) = exec w [''adb'', ''devices''] tr
      in case err of
           Some e \<Rightarrow> (Inl (''adb devices: '' @ e), tr1)
         | None \<Rightarrow> let (ds, tr2) = populateModels w (parseDeviceList (after_first_line out)) tr1 in (Inr ds, tr2))"

section \<open>Commands to one device\<close>

text \<open>With an endpoint the command goes to another ADB server; a colon at the front does not count.\<close>

definition adbArgs :: "string \<Rightarrow> string \<Rightarrow> string list \<Rightarrow> string list" where
  "adbArgs endpoint serial args =
     (if endpoint = [] then []
      else case last_index (CHR '':'') endpoint of
             Some i \<Rightarrow> if i > 0 then [''-H'', take i endpoint, ''-P'', drop (i + 1) endpoint] else []
           | None \<Rightarrow> []) @ [''-s'', serial] @ args"

definition Reboot :: "('x, 'm) world_scheme \<Rightarrow> string \<Rightarrow> string \<Rightarrow> 'x call list \<Rightarrow> unit res \<times> 'x call list" where
  "Reboot w serial endpoint tr =
     (let ((out, err), tr1) = exec w (''adb'' # adbArgs endpoint serial [''reboot'']) tr
      in case err of
           Some e \<Rightarrow> (Inl (''adb reboot: '' @ e @ nl # out), tr1)
         | None \<Rightarrow> (Inr (), tr1))"

definition isOnline :: "('x, 'm) world_scheme \<Rightarrow> string \<Rightarrow> string \<Rightarrow> 'x call list \<Rightarrow> bool \<times> 'x call list" where
  "isOnline w serial endpoint tr =
     (let ((out, err), tr1) = exec w (''adb'' # adbArgs endpoint serial [''get-state'']) tr
      in (err = None \<and> trim_space out = ''device'', tr1))"

definition isBootCompleted :: "('x, 'm) world_scheme \<Rightarrow> string \<Rightarrow> string \<Rightarrow> 'x call list \<Rightarrow> bool \<times> 'x call list" where
  "isBootCompleted w serial endpoint tr =
     (let ((out, err), tr1) =
            exec w (''adb'' # adbArgs endpoint serial [''shell'', ''getprop'', ''sys.boot_completed'']) tr
      in (err = None \<and> trim_space out = ''1'', tr1))"

definition seconds :: "int \<Rightarrow> duration" where "seconds n = n * nanos"

text \<open>Phase 1 of \<open>WaitForReady\<close>: until the device is offline or the deadline has passed. The loop has
  fuel; \<open>None\<close> is a loop that has not ended.\<close>

fun wait_offline ::
  "nat \<Rightarrow> ('x, 'm) world_scheme \<Rightarrow> string \<Rightarrow> string \<Rightarrow> time \<Rightarrow> 'x call list \<Rightarrow> 'x call list option" where
  "wait_offline 0 w serial endpoint deadline tr = None"
| "wait_offline (Suc n) w serial endpoint deadline tr =
     (let (t, tr1) = now w tr
      in if \<not> t < deadline then Some tr1
         else let (online, tr2) = isOnline w serial endpoint tr1
              in if \<not> online then Some tr2
                 else wait_offline n w serial endpoint deadline (sleep (seconds 2) tr2))"

text \<open>Phase 2: until the device is online and booted, or the deadline has passed. \<open>isBootCompleted\<close> is
  asked only of a device that is online.\<close>

fun wait_booted ::
  "nat \<Rightarrow> ('x, 'm) world_scheme \<Rightarrow> string \<Rightarrow> string \<Rightarrow> time \<Rightarrow> 'x call list \<Rightarrow> (bool \<times> 'x call list) option" where
  "wait_booted 0 w serial endpoint deadline tr = None"
| "wait_booted (Suc n) w serial endpoint deadline tr =
     (let (t, tr1) = now w tr
      in if \<not> t < deadline then Some (False, tr1)
         else let (online, tr2) = isOnline w serial endpoint (sleep (seconds 3) tr1);
                  (ready, tr3) = (if online then isBootCompleted w serial endpoint tr2 else (False, tr2))
              in if ready then Some (True, tr3) else wait_booted n w serial endpoint deadline tr3)"

text \<open>The result is the elapsed time with an optional error: the code returns both.\<close>

definition WaitForReady ::
  "nat \<Rightarrow> ('x, 'm) world_scheme \<Rightarrow> string \<Rightarrow> duration \<Rightarrow> string \<Rightarrow> 'x call list
   \<Rightarrow> ((duration \<times> string option) \<times> 'x call list) option" where
  "WaitForReady n w serial timeout endpoint tr =
     (let (start, tr1) = now w tr
      in case wait_offline n w serial endpoint (start + seconds 30) tr1 of
           None \<Rightarrow> None
         | Some tr2 \<Rightarrow>
             let (t, tr3) = now w tr2
             in case wait_booted n w serial endpoint (t + timeout) tr3 of
                  None \<Rightarrow> None
                | Some (ok, tr4) \<Rightarrow>
                    let (t', tr5) = now w tr4
                    in Some ((time_sub t' start,
                              if ok then None
                              else Some (''device '' @ serial @ '' not ready after '' @ duration_text timeout)), tr5))"

definition appium_pkgs :: "string list" where
  "appium_pkgs = [''io.appium.settings'', ''io.appium.uiautomator2.server'',
     ''io.appium.uiautomator2.server.test'', ''io.appium.android.apis'']"

definition run_all :: "('x, 'm) world_scheme \<Rightarrow> string list list \<Rightarrow> 'x call list \<Rightarrow> 'x call list" where
  "run_all w cmds tr = foldl (\<lambda>t c. snd (exec w c t)) tr cmds"

text \<open>The answers are only counted for a log line.\<close>

definition GrantAppiumPermissions :: "('x, 'm) world_scheme \<Rightarrow> string \<Rightarrow> string \<Rightarrow> 'x call list \<Rightarrow> 'x call list" where
  "GrantAppiumPermissions w serial endpoint tr =
     run_all w
       (map (\<lambda>p. ''adb'' # adbArgs endpoint serial [''shell'', ''appops'', ''set'', p, ''SYSTEM_ALERT_WINDOW'', ''allow''])
            appium_pkgs @
        [''adb'' # adbArgs endpoint serial [''shell'', ''pm'', ''grant'', ''io.appium.android.apis'', ''android.permission.POST_NOTIFICATIONS''],
         ''adb'' # adbArgs endpoint serial [''shell'', ''svc'', ''usb'', ''setFunctions'', ''mtp'']]) tr"

definition TakeScreenshot :: "('x, 'm) world_scheme \<Rightarrow> string \<Rightarrow> string \<Rightarrow> 'x call list \<Rightarrow> string res \<times> 'x call list" where
  "TakeScreenshot w serial endpoint tr =
     (let ((out, err), tr1) = exec w (''adb'' # adbArgs endpoint serial [''exec-out'', ''screencap'', ''-p'']) tr
      in (case err of Some e \<Rightarrow> Inl e | None \<Rightarrow> Inr out, tr1))"

text \<open>The error text of \<open>strconv.Atoi\<close>\<close>

definition atoi_error :: "string \<Rightarrow> string" where
  "atoi_error s = ''strconv.Atoi: parsing '' @ quoted s @
     (if fst (atoi s) = 0 then '': invalid syntax'' else '': value out of range'')"

fun level_of_lines :: "string list \<Rightarrow> int \<times> string option" where
  "level_of_lines [] = (-1, Some ''battery level not found in dumpsys output'')"
| "level_of_lines (l # ls) =
     (let line = trim_space l
      in if has_prefix line ''level:'' then
           let val = trim_space (trim_prefix line ''level:''); (n, ok) = atoi val
           in if \<not> ok then (-1, Some (''parse battery level '' @ quoted val @ '': '' @ atoi_error val)) else (n, None)
         else level_of_lines ls)"

definition BatteryLevel :: "('x, 'm) world_scheme \<Rightarrow> string \<Rightarrow> string \<Rightarrow> 'x call list \<Rightarrow> (int \<times> string option) \<times> 'x call list" where
  "BatteryLevel w serial endpoint tr =
     (let ((out, err), tr1) = exec w (''adb'' # adbArgs endpoint serial [''shell'', ''dumpsys'', ''battery'']) tr
      in case err of
           Some e \<Rightarrow> ((-1, Some (''adb dumpsys battery: '' @ e)), tr1)
         | None \<Rightarrow> (level_of_lines (split_on nl out), tr1))"

definition EnsureServerListensOnAllInterfaces :: "('x, 'm) world_scheme \<Rightarrow> 'x call list \<Rightarrow> unit res \<times> 'x call list" where
  "EnsureServerListensOnAllInterfaces w tr =
     (let ((out1, err1), tr1) = exec w [''adb'', ''kill-server''] tr
      in case err1 of
           Some e \<Rightarrow> (Inl (''adb kill-server: '' @ e @ nl # out1), tr1)
         | None \<Rightarrow>
             let ((out2, err2), tr2) = exec w [''adb'', ''-a'', ''start-server''] tr1
             in case err2 of
                  Some e \<Rightarrow> (Inl (''adb start-server: '' @ e @ nl # out2), tr2)
                | None \<Rightarrow> (Inr (), tr2))"

section \<open>The stream of device lists\<close>

text \<open>The verb \<open>%04x\<close> and \<open>strconv.ParseInt(s, 16, 32)\<close> on at most seven characters, which cannot
  overflow. A sign is part of the syntax.\<close>

definition hex4 :: "nat \<Rightarrow> string" where
  "hex4 n = (if n < 65536
     then map (\<lambda>k. hex_digit (n div 16 ^ k mod 16)) [3, 2, 1, 0] else show_nat n)"

definition hex_value :: "char \<Rightarrow> nat option" where
  "hex_value c =
     (if is_digit c then Some (code c - 48)
      else if 97 \<le> code c \<and> code c \<le> 102 then Some (code c - 87)
      else if 65 \<le> code c \<and> code c \<le> 70 then Some (code c - 55) else None)"

fun hex_digits :: "nat \<Rightarrow> string \<Rightarrow> nat option" where
  "hex_digits a [] = Some a"
| "hex_digits a (c # cs) = (case hex_value c of None \<Rightarrow> None | Some v \<Rightarrow> hex_digits (16 * a + v) cs)"

definition parse_hex :: "string \<Rightarrow> int option" where
  "parse_hex s =
     (let neg = (s \<noteq> [] \<and> hd s = CHR ''-'');
          body = (if s \<noteq> [] \<and> (hd s = CHR ''-'' \<or> hd s = CHR ''+'') then tl s else s)
      in if body = [] then None
         else map_option (\<lambda>v. if neg then - int v else int v) (hex_digits 0 body))"

text \<open>
  One connection to the ADB server: whether dialling and writing fail, the bytes that arrive, and
  what ends them: the read deadline (only the read of a length has one) or an error.
\<close>

record connection =
  dial_error :: "string option"
  write_error :: "string option"
  incoming :: string
  ends_by_timeout :: bool
  end_error :: string

datatype track_error =
    Dial_failed string | Write_failed string | Status_failed string | Not_okay string
  | Read_timeout | Length_failed string | Bad_length string | Data_failed string

text \<open>\<open>make([]byte, n)\<close> with a negative \<open>n\<close> panics.\<close>

datatype track_end = Track_error track_error | Track_panic

fun error_text :: "track_error \<Rightarrow> string" where
  "error_text (Dial_failed e) = ''dial: '' @ e"
| "error_text (Write_failed e) = ''write: '' @ e"
| "error_text (Status_failed e) = ''read status: '' @ e"
| "error_text (Not_okay s) = ''expected OKAY, got '' @ quoted s"
| "error_text Read_timeout = ''read timeout after 1m0s, reconnecting''"
| "error_text (Length_failed e) = ''read length: '' @ e"
| "error_text (Bad_length s) = ''parse length '' @ quoted s @ '': strconv.ParseInt: parsing '' @ quoted s @ '': invalid syntax''"
| "error_text (Data_failed e) = ''read data: '' @ e"

definition track_request :: string where
  "track_request = (let cmd = ''host:track-devices'' in hex4 (length cmd) @ cmd)"

text \<open>The loop of \<open>trackOnce\<close>: the device lists handed to \<open>onChange\<close>, and how the loop ends.\<close>

function track_frames ::
  "('x, 'm) world_scheme \<Rightarrow> connection \<Rightarrow> string \<Rightarrow> 'x call list
   \<Rightarrow> (device list list \<times> track_end) \<times> 'x call list" where
  "track_frames w c bytes tr =
     (if length bytes < 4 then
        (([], Track_error (if ends_by_timeout c then Read_timeout else Length_failed (end_error c))), tr)
      else case parse_hex (take 4 bytes) of
          None \<Rightarrow> (([], Track_error (Bad_length (take 4 bytes))), tr)
        | Some n \<Rightarrow>
            if n < 0 then (([], Track_panic), tr)
            else if length (drop 4 bytes) < nat n then (([], Track_error (Data_failed (end_error c))), tr)
            else let (ds, tr1) = populateModels w (parseDeviceList (take (nat n) (drop 4 bytes))) tr;
                     ((rest, e), tr2) = track_frames w c (drop (nat n) (drop 4 bytes)) tr1
                 in ((ds # rest, e), tr2))"
  by pat_completeness auto
termination
  by (relation "measure (\<lambda>(w, c, bytes, tr). length bytes)") auto

declare track_frames.simps [simp del]

definition trackOnce ::
  "('x, 'm) world_scheme \<Rightarrow> connection \<Rightarrow> 'x call list \<Rightarrow> (device list list \<times> track_end) \<times> 'x call list" where
  "trackOnce w c tr =
     (case dial_error c of
        Some e \<Rightarrow> (([], Track_error (Dial_failed e)), tr)
      | None \<Rightarrow>
          case write_error c of
            Some e \<Rightarrow> (([], Track_error (Write_failed e)), tr)
          | None \<Rightarrow>
              if length (incoming c) < 4 then (([], Track_error (Status_failed (end_error c))), tr)
              else if take 4 (incoming c) \<noteq> ''OKAY'' then (([], Track_error (Not_okay (take 4 (incoming c)))), tr)
              else track_frames w c (drop 4 (incoming c)) tr)"

text \<open>
  The loop of \<open>TrackDevices\<close> over the connections it makes, each with whether the context was
  already cancelled when the loop came round and whether it is cancelled during the pause.
\<close>

record attempt =
  cancelled :: bool
  conn :: connection
  cancelled_in_pause :: bool

datatype track_action = Reconnected | Changed "device list" | Paused duration

definition is_timeout :: "track_error \<Rightarrow> bool" where
  "is_timeout e \<longleftrightarrow> contains (error_text e) ''reconnecting''"

fun TrackDevices ::
  "('x, 'm) world_scheme \<Rightarrow> bool \<Rightarrow> attempt list \<Rightarrow> 'x call list \<Rightarrow> track_action list \<times> 'x call list" where
  "TrackDevices w notify [] tr = ([], tr)"
| "TrackDevices w notify (a # as) tr =
     (if cancelled a then ([], tr)
      else let ((lists, e), tr1) = trackOnce w (conn a) tr;
               done = (if notify then [Reconnected] else []) @ map Changed lists
           in case e of
                Track_panic \<Rightarrow> (done, tr1)
              | Track_error err \<Rightarrow>
                  if is_timeout err then
                    let (more, tr2) = TrackDevices w notify as tr1 in (done @ more, tr2)
                  else if cancelled_in_pause a then (done @ [Paused (seconds 3)], tr1)
                  else let (more, tr2) = TrackDevices w notify as tr1
                       in (done @ Paused (seconds 3) # more, tr2))"

section \<open>USB devices\<close>

definition androidVendors :: "(string \<times> string) list" where
  "androidVendors =
     [(''0489'', ''Foxconn''), (''04c5'', ''Fujitsu''), (''04dd'', ''Sharp''), (''04e8'', ''Samsung''),
      (''0502'', ''Acer''), (''05c6'', ''Qualcomm''), (''0b05'', ''Asus''), (''0bb4'', ''HTC''),
      (''0e8d'', ''Tecno/Infinix''), (''0fce'', ''Sony Ericsson''), (''1004'', ''LG''), (''12d1'', ''Huawei''),
      (''17ef'', ''Lenovo''), (''18d1'', ''Google''), (''19d2'', ''ZTE''), (''1782'', ''Unisoc''),
      (''1bbb'', ''Alcatel''), (''1d4d'', ''Pegatron''), (''1ebf'', ''Huawei''), (''1f3a'', ''Xiaomi''),
      (''22b8'', ''Motorola''), (''22d9'', ''Realme''), (''2717'', ''Xiaomi/Poco/Redmi''), (''2a45'', ''Meizu''),
      (''2a70'', ''OPPO/Realme/OnePlus''), (''2d95'', ''vivo''), (''2e04'', ''Nokia''), (''2ee5'', ''Fairphone''),
      (''339b'', ''Honor'')]"

record usb_device =
  ud_Path :: string
  ud_VID :: string
  ud_PID :: string
  ud_Serial :: string
  ud_Product :: string
  ud_Vendor :: string
  ud_InADB :: bool

text \<open>A file of the device's directory, trimmed, or nothing when it cannot be read.\<close>

definition attribute :: "('x, 'm) world_scheme \<Rightarrow> string \<Rightarrow> string \<Rightarrow> 'x call list \<Rightarrow> string option \<times> 'x call list" where
  "attribute w dir f tr =
     (let (r, tr1) = read_file w (dir @ f) tr
      in (case r of Inl _ \<Rightarrow> None | Inr b \<Rightarrow> Some (trim_space b), tr1))"

definition sysfs :: string where "sysfs = ''/sys/bus/usb/devices''"

fun scan_vendors :: "('x, 'm) world_scheme \<Rightarrow> string list \<Rightarrow> 'x call list \<Rightarrow> usb_device list \<times> 'x call list" where
  "scan_vendors w [] tr = ([], tr)"
| "scan_vendors w (name # names) tr =
     (if CHR '':'' \<in> set name then scan_vendors w names tr
      else let dir = sysfs @ ''/'' @ name; (vid, tr1) = attribute w dir ''/idVendor'' tr
           in case Option.bind vid (map_of androidVendors) of
                None \<Rightarrow> scan_vendors w names tr1
              | Some oem \<Rightarrow>
                  let (pid, tr2) = attribute w dir ''/idProduct'' tr1;
                      (serial, tr3) = attribute w dir ''/serial'' tr2;
                      (product, tr4) = attribute w dir ''/product'' tr3;
                      (rest, tr5) = scan_vendors w names tr4;
                      text = case_option [] id
                  in (\<lparr>ud_Path = name, ud_VID = the vid, ud_PID = text pid, ud_Serial = text serial,
                       ud_Product = text product, ud_Vendor = oem, ud_InADB = False\<rparr> # rest, tr5))"

definition USBAndroidDevices :: "('x, 'm) world_scheme \<Rightarrow> 'x call list \<Rightarrow> usb_device list \<times> 'x call list" where
  "USBAndroidDevices w tr =
     (let (r, tr1) = read_dir w sysfs tr
      in case r of Inl _ \<Rightarrow> ([], tr1) | Inr names \<Rightarrow> scan_vendors w names tr1)"

fun find_serial ::
  "('x, 'm) world_scheme \<Rightarrow> string \<Rightarrow> string list \<Rightarrow> 'x call list \<Rightarrow> (string \<times> string \<times> string) \<times> 'x call list" where
  "find_serial w serial [] tr = (('''', '''', ''''), tr)"
| "find_serial w serial (name # names) tr =
     (let dir = sysfs @ ''/'' @ name; (s, tr1) = attribute w dir ''/serial'' tr
      in if s \<noteq> Some serial then find_serial w serial names tr1
         else let (vid, tr2) = attribute w dir ''/idVendor'' tr1;
                  (pid, tr3) = attribute w dir ''/idProduct'' tr2
              in ((name, case_option [] id vid, case_option [] id pid), tr3))"

definition USBInfo :: "('x, 'm) world_scheme \<Rightarrow> string \<Rightarrow> 'x call list \<Rightarrow> (string \<times> string \<times> string) \<times> 'x call list" where
  "USBInfo w serial tr =
     (let (r, tr1) = read_dir w sysfs tr
      in case r of Inl _ \<Rightarrow> (('''', '''', ''''), tr1) | Inr names \<Rightarrow> find_serial w serial names tr1)"

section \<open>The device list: printing and parsing\<close>

definition print_device :: "string \<times> string \<Rightarrow> string" where
  "print_device d = fst d @ CHR 0x09 # snd d"

definition print_devices :: "(string \<times> string) list \<Rightarrow> string" where
  "print_devices ds = concat (map (\<lambda>d. print_device d @ [nl]) ds)"

definition words2 :: "string \<times> string \<Rightarrow> bool" where
  "words2 d \<longleftrightarrow> word (fst d) \<and> word (snd d)"

definition plain_device :: "string \<times> string \<Rightarrow> device" where
  "plain_device d = zero_device\<lparr>Serial := fst d, State := snd d\<rparr>"

lemma parse_line_print: "words2 d \<Longrightarrow> parse_line (print_device d) = [plain_device d]"
  by (simp add: words2_def print_device_def trim_words text_fields_words is_space_def plain_device_def)

lemma parse_print_devices:
  assumes "list_all words2 ds"
  shows "parseDeviceList (print_devices ds) = map plain_device ds"
proof -
  have "\<forall>l \<in> set (map print_device ds). nl \<notin> set l"
    using assms word_no_nl by (fastforce simp: list_all_iff words2_def print_device_def nl_def)
  from split_on_lines [OF this] have "split_on nl (print_devices ds) = map print_device ds @ [[]]"
    by (simp add: print_devices_def comp_def)
  moreover have "concat (map parse_line (map print_device ds)) = map plain_device ds"
    using assms by (induction ds) (simp_all add: parse_line_print del: parse_line.simps)
  ultimately show ?thesis
    by (simp add: parseDeviceList_def trim_space_def trim_left_def)
qed

definition serial_state :: "device \<Rightarrow> string \<times> string" where
  "serial_state d = (Serial d, State d)"

lemma names_populated: "map serial_state (fst (populateModels w ds tr)) = map serial_state ds"
  by (induction ds arbitrary: tr) (simp_all add: Let_def serial_state_def case_prod_beta)

lemma names_plain [simp]: "serial_state (plain_device d) = d"
  by (simp add: serial_state_def plain_device_def zero_device_def)

section \<open>Frames\<close>

lemma hex_value_digit: "n < 16 \<Longrightarrow> hex_value (hex_digit n) = Some n"
  by (auto simp: hex_value_def hex_digit_def is_digit_def)

lemma hex_digit_no_sign: "n < 16 \<Longrightarrow> hex_digit n \<noteq> CHR ''-'' \<and> hex_digit n \<noteq> CHR ''+''"
  using hex_value_digit [of n] by (auto simp: hex_value_def is_digit_def code_def)

lemma length_hex4: "n < 65536 \<Longrightarrow> length (hex4 n) = 4"
  by (simp add: hex4_def)

lemma parse_hex4:
  assumes "n < 65536"
  shows "parse_hex (hex4 n) = Some (int n)"
proof -
  have "n = ((n div 4096 mod 16 * 16 + n div 256 mod 16) * 16 + n div 16 mod 16) * 16 + n mod 16"
  proof -
    have "n div 4096 mod 16 = n div 4096" using assms by (intro mod_less) (simp add: div_less_iff_less_mult)
    moreover have "n div 256 = n div 4096 * 16 + n div 256 mod 16"
      using div_mult_mod_eq [of "n div 256" 16] by (simp add: div_mult2_eq [symmetric])
    moreover have "n div 16 = n div 256 * 16 + n div 16 mod 16"
      using div_mult_mod_eq [of "n div 16" 16] by (simp add: div_mult2_eq [symmetric])
    moreover have "n = n div 16 * 16 + n mod 16" by simp
    ultimately show ?thesis by presburger
  qed
  then show ?thesis
    using assms by (simp add: parse_hex_def hex4_def hex_digit_no_sign hex_value_digit ac_simps)
qed

definition frame :: "string \<Rightarrow> string" where
  "frame p = hex4 (length p) @ p"

lemma track_frames_step:
  assumes "length p < 65536"
  shows "track_frames w c (frame p @ rest) tr =
    (let (ds, tr1) = populateModels w (parseDeviceList p) tr; ((more, e), tr2) = track_frames w c rest tr1
     in ((ds # more, e), tr2))"
  using assms
  by (subst track_frames.simps) (simp add: frame_def length_hex4 parse_hex4)

lemma track_frames_all:
  assumes "\<forall>p \<in> set ps. length p < 65536" and "length rest < 4"
  shows "map (map serial_state) (fst (fst (track_frames w c (concat (map frame ps) @ rest) tr))) =
      map (map serial_state \<circ> parseDeviceList) ps \<and>
    snd (fst (track_frames w c (concat (map frame ps) @ rest) tr)) =
      Track_error (if ends_by_timeout c then Read_timeout else Length_failed (end_error c))"
  using assms
proof (induction ps arbitrary: tr)
  case Nil
  then show ?case by (simp add: track_frames.simps)
next
  case (Cons p ps)
  then show ?case
    using names_populated [of w "parseDeviceList p" tr]
    by (auto simp: track_frames_step Let_def split: prod.splits) (metis fst_conv snd_conv)+
qed

text \<open>C27: What the ADB server sends reaches the program: from a stream of length-prefixed updates that
  then falls silent, \<open>onChange\<close> is called once for every update, in order, with exactly the serials and
  states it serial_state, and the connection ends as the read timeout that \<open>TrackDevices\<close> answers by
  reconnecting at once.\<close>

theorem trackOnce_roundtrip:
  assumes "dial_error c = None" and "write_error c = None" and "ends_by_timeout c"
    and "incoming c = ''OKAY'' @ concat (map (frame \<circ> print_devices) updates) @ partial"
    and "length partial < 4"
    and "\<forall>ds \<in> set updates. list_all words2 ds \<and> length (print_devices ds) < 65536"
  shows "map (map serial_state) (fst (fst (trackOnce w c tr))) = updates \<and>
    (\<exists>e. snd (fst (trackOnce w c tr)) = Track_error e \<and> is_timeout e)"
proof -
  have "trackOnce w c tr = track_frames w c (concat (map frame (map print_devices updates)) @ partial) tr"
    using assms(1,2,4) by (simp add: trackOnce_def comp_def)
  moreover have "map (map serial_state \<circ> parseDeviceList) (map print_devices updates) = updates"
    using assms(6) by (simp add: comp_def parse_print_devices map_idI)
  moreover have "is_timeout Read_timeout" by (simp add: is_timeout_def has_prefix_def)
  ultimately show ?thesis
    using track_frames_all [of "map print_devices updates" partial w c tr] assms(3,5,6) by simp
qed

definition sample_updates :: "(string \<times> string) list list" where
  "sample_updates = [[(''R58M'', ''device''), (''ZX1'', ''offline'')], []]"

definition sample_connection :: connection where
  "sample_connection = \<lparr>dial_error = None, write_error = None,
     incoming = ''OKAY'' @ concat (map (frame \<circ> print_devices) sample_updates) @ ''00'',
     ends_by_timeout = True, end_error = ''EOF''\<rparr>"

theorem trackOnce_roundtrip_witness:
  "\<forall>w :: unit world. \<exists>lists. fst (fst (trackOnce w sample_connection [])) = lists \<and> map (map serial_state) lists = sample_updates"
proof -
  have "\<forall>ds \<in> set sample_updates. list_all words2 ds \<and> length (print_devices ds) < 65536"
    by (simp add: sample_updates_def words2_def word_def is_space_def print_devices_def print_device_def)
  then show ?thesis
    using trackOnce_roundtrip [of sample_connection sample_updates "''00''" w "[]" for w :: "unit world"]
    by (simp add: sample_connection_def)
qed

section \<open>Waiting for a rebooted device\<close>

lemma seconds_pos: "0 < n \<Longrightarrow> 0 < seconds n"
  by (simp add: seconds_def nanos_def)

text \<open>With enough fuel phase 1 ends, and no call takes the clock back.\<close>

lemma wait_offline_ends:
  assumes "ticking w" and "deadline \<le> clock w tr + seconds 2 * int n"
  shows "\<exists>tr'. wait_offline (Suc n) w s e deadline tr = Some tr' \<and> clock w tr \<le> clock w tr'"
  using assms(2)
proof (induction n arbitrary: tr)
  case 0
  then show ?case using ticking_step [OF assms(1), of tr Now] by (simp add: now_def)
next
  case (Suc n)
  define tr2 where "tr2 = snd (isOnline w s e (Now # tr))"
  have t2: "clock w tr \<le> clock w tr2"
    using ticking_step [OF assms(1), of tr Now] ticking_step [OF assms(1), of "Now # tr"]
    by (auto simp: tr2_def isOnline_def exec_def case_prod_beta intro: order_trans)
  have t3: "clock w tr2 + seconds 2 \<le> clock w (sleep (seconds 2) tr2)"
    using ticking_sleep [OF assms(1)] by (simp add: sleep_def)
  have "deadline \<le> clock w (sleep (seconds 2) tr2) + seconds 2 * int n"
    using Suc.prems t2 t3 by (simp add: algebra_simps)
  from Suc.IH [OF this] obtain tr' where
    tr': "wait_offline (Suc n) w s e deadline (sleep (seconds 2) tr2) = Some tr'"
      "clock w (sleep (seconds 2) tr2) \<le> clock w tr'"
    by blast
  have "clock w tr \<le> clock w tr'"
    using t2 t3 tr'(2) seconds_pos [of 2] by simp
  moreover have "clock w tr \<le> clock w (Now # tr)" by (rule ticking_step [OF assms(1)])
  ultimately show ?case
    using tr'(1) t2
    by (subst wait_offline.simps)
       (auto simp: now_def tr2_def case_prod_beta Let_def simp del: wait_offline.simps)
qed

text \<open>What phase 2 leaves behind: either the deadline has passed, or its last two calls found the device
  online and booted.\<close>

definition asked :: "('x, 'm) world_scheme \<Rightarrow> string list \<Rightarrow> string \<Rightarrow> 'x call list \<Rightarrow> bool" where
  "asked w args a tr \<longleftrightarrow> (\<exists>tr'. tr = Exec args # tr' \<and>
     snd (exec_answer w tr' args) = None \<and> trim_space (fst (exec_answer w tr' args)) = a)"

definition state_cmd :: "string \<Rightarrow> string \<Rightarrow> string list" where
  "state_cmd s e = ''adb'' # adbArgs e s [''get-state'']"

definition boot_cmd :: "string \<Rightarrow> string \<Rightarrow> string list" where
  "boot_cmd s e = ''adb'' # adbArgs e s [''shell'', ''getprop'', ''sys.boot_completed'']"

definition seen_ready :: "('x, 'm) world_scheme \<Rightarrow> string \<Rightarrow> string \<Rightarrow> 'x call list \<Rightarrow> bool" where
  "seen_ready w s e tr \<longleftrightarrow> asked w (boot_cmd s e) ''1'' tr \<and> asked w (state_cmd s e) ''device'' (tl tr)"

lemma isOnline_asked:
  "snd (isOnline w s e tr) = Exec (state_cmd s e) # tr"
  "fst (isOnline w s e tr) \<longleftrightarrow> asked w (state_cmd s e) ''device'' (snd (isOnline w s e tr))"
  by (simp_all add: isOnline_def exec_def case_prod_beta asked_def state_cmd_def)

lemma isBootCompleted_asked:
  "snd (isBootCompleted w s e tr) = Exec (boot_cmd s e) # tr"
  "fst (isBootCompleted w s e tr) \<longleftrightarrow> asked w (boot_cmd s e) ''1'' (snd (isBootCompleted w s e tr))"
  by (simp_all add: isBootCompleted_def exec_def case_prod_beta asked_def boot_cmd_def)

lemma wait_booted_ends:
  assumes "ticking w" and "deadline \<le> clock w tr + seconds 3 * int n"
  shows "\<exists>ok tr'. wait_booted (Suc n) w s e deadline tr = Some (ok, tr') \<and> clock w tr \<le> clock w tr' \<and>
    (ok \<longrightarrow> seen_ready w s e tr') \<and> (\<not> ok \<longrightarrow> deadline \<le> clock w tr')"
  using assms(2)
proof (induction n arbitrary: tr)
  case 0
  then show ?case using ticking_step [OF assms(1), of tr Now] by (auto simp: now_def)
next
  case (Suc n)
  define tr2 where "tr2 = snd (isOnline w s e (sleep (seconds 3) (Now # tr)))"
  define online where "online = fst (isOnline w s e (sleep (seconds 3) (Now # tr)))"
  define tr3 where "tr3 = (if online then snd (isBootCompleted w s e tr2) else tr2)"
  define ready where "ready = (online \<and> fst (isBootCompleted w s e tr2))"
  have now_le: "clock w tr \<le> clock w (Now # tr)" by (rule ticking_step [OF assms(1)])
  have slp: "clock w (Now # tr) + seconds 3 \<le> clock w (sleep (seconds 3) (Now # tr))"
    using ticking_sleep [OF assms(1)] by (simp add: sleep_def)
  have "clock w (sleep (seconds 3) (Now # tr)) \<le> clock w tr2"
    unfolding tr2_def isOnline_asked(1) by (rule ticking_step [OF assms(1)])
  moreover have "clock w tr2 \<le> clock w tr3"
    unfolding tr3_def isBootCompleted_asked(1) using ticking_step [OF assms(1)] by auto
  ultimately have t3: "clock w tr + seconds 3 \<le> clock w tr3" using now_le slp by linarith
  have step: "wait_booted (Suc (Suc n)) w s e deadline tr =
    (if \<not> clock w tr < deadline then Some (False, Now # tr)
     else if ready then Some (True, tr3) else wait_booted (Suc n) w s e deadline tr3)"
    by (subst wait_booted.simps)
       (auto simp: now_def tr2_def online_def tr3_def ready_def case_prod_beta Let_def simp del: wait_booted.simps)
  consider (late) "\<not> clock w tr < deadline"  | (found) "clock w tr < deadline" ready
    | (again) "clock w tr < deadline" "\<not> ready" by blast
  then show ?case
  proof cases
    case late
    then show ?thesis using step now_le by auto
  next
    case found
    then have o: online and b: "fst (isBootCompleted w s e tr2)" by (simp_all add: ready_def)
    have "asked w (boot_cmd s e) ''1'' tr3"
      using b o isBootCompleted_asked(2) [of w s e tr2] by (simp add: tr3_def)
    moreover have "tl tr3 = tr2" using o by (simp add: tr3_def isBootCompleted_asked(1))
    moreover have "asked w (state_cmd s e) ''device'' tr2"
      using o isOnline_asked(2) [of w s e "sleep (seconds 3) (Now # tr)"] by (simp add: online_def tr2_def)
    ultimately have "seen_ready w s e tr3" by (simp add: seen_ready_def)
    then show ?thesis using step found t3 seconds_pos [of 3] by auto
  next
    case again
    have "deadline \<le> clock w tr3 + seconds 3 * int n"
      using Suc.prems t3 by (simp add: algebra_simps)
    from Suc.IH [OF this] show ?thesis
      using step again t3 seconds_pos [of 3] by (auto simp del: wait_booted.simps)
  qed
qed

lemma time_sub_ge: "0 \<le> b \<Longrightarrow> b \<le> max_int \<Longrightarrow> a + b \<le> t \<Longrightarrow> b \<le> time_sub t a"
  by (auto simp: time_sub_def min_int_def)

lemma WaitForReady_ends:
  assumes "ticking w" and "0 \<le> timeout" and "timeout \<le> max_int"
    and "16 \<le> n" and "nat (timeout div seconds 3) + 2 \<le> n"
  shows "\<exists>d err tr'. WaitForReady n w s timeout e tr = Some ((d, err), Now # tr') \<and> 0 \<le> d \<and>
    (err = None \<longrightarrow> seen_ready w s e tr') \<and> (err \<noteq> None \<longrightarrow> timeout \<le> d)"
proof -
  let ?start = "clock w tr"
  have "?start + seconds 30 \<le> clock w (Now # tr) + seconds 2 * int 15"
    using ticking_step [OF assms(1), of tr Now] by (simp add: seconds_def)
  moreover have fuel: "Suc (n - 1) = n" "15 \<le> n - 1" using assms(4) by auto
  ultimately have "?start + seconds 30 \<le> clock w (Now # tr) + seconds 2 * int (n - 1)"
    by (auto simp: seconds_def nanos_def)
  from wait_offline_ends [OF assms(1) this, of s e] obtain tr2 where
    tr2: "wait_offline n w s e (?start + seconds 30) (Now # tr) = Some tr2" "clock w (Now # tr) \<le> clock w tr2"
    unfolding fuel(1) by blast
  have "timeout \<le> seconds 3 * (timeout div seconds 3 + 1)"
    using div_bounds [of "seconds 3" timeout] seconds_pos [of 3] by (simp add: algebra_simps)
  also have "\<dots> \<le> seconds 3 * int (n - 1)"
    using assms(2,5) fuel seconds_pos [of 3] by (intro mult_left_mono) (auto simp: pos_imp_zdiv_nonneg_iff)
  finally have "clock w tr2 + timeout \<le> clock w (Now # tr2) + seconds 3 * int (n - 1)"
    using ticking_step [OF assms(1), of tr2 Now] by linarith
  from wait_booted_ends [OF assms(1) this, of s e] obtain ok tr4 where
    tr4: "wait_booted n w s e (clock w tr2 + timeout) (Now # tr2) = Some (ok, tr4)"
      "clock w (Now # tr2) \<le> clock w tr4" "ok \<longrightarrow> seen_ready w s e tr4"
      "\<not> ok \<longrightarrow> clock w tr2 + timeout \<le> clock w tr4"
    unfolding fuel(1) by blast
  have le: "?start \<le> clock w tr2" "?start \<le> clock w tr4"
    using ticking_step [OF assms(1), of tr Now] ticking_step [OF assms(1), of tr2 Now] tr2(2) tr4(2)
    by linarith+
  have "\<not> ok \<Longrightarrow> timeout \<le> time_sub (clock w tr4) ?start"
    using time_sub_ge [of timeout ?start "clock w tr4"] assms(2,3) tr4(4) le by auto
  moreover have "0 \<le> time_sub (clock w tr4) ?start"
    using time_sub_ge [of 0 ?start "clock w tr4"] le by (simp add: max_int_def)
  ultimately show ?thesis
    using tr2(1) tr4(1,3)
    by (auto simp: WaitForReady_def now_def Let_def simp del: wait_offline.simps wait_booted.simps)
qed

text \<open>C17: \<open>WaitForReady\<close> always returns, after at most 16 polls of phase 1 and one poll of phase 2 for
  every three seconds of the timeout: without an error only when its last two calls found the device
  online and booted, with an error only after the timeout has elapsed.\<close>

theorem WaitForReady_returns:
  assumes "ticking w" and "0 \<le> timeout" and "timeout \<le> max_int"
    and "16 \<le> n" and "nat (timeout div seconds 3) + 2 \<le> n"
  shows "\<exists>d err tr'. WaitForReady n w s timeout e tr = Some ((d, err), Now # tr') \<and> 0 \<le> d \<and>
    (err = None \<longrightarrow> seen_ready w s e tr') \<and> (err \<noteq> None \<longrightarrow> timeout \<le> d)"
  by (rule WaitForReady_ends [OF assms])

text \<open>A machine on which the device is online at first, then away for one poll, then booted.\<close>

definition reboot_world :: "unit world" where
  "reboot_world = \<lparr>exec_answer = (\<lambda>tr args.
       if args = state_cmd ''R58M'' '''' then (if length tr = 4 then ('''', Some ''offline'') else (''device'' @ [nl], None))
       else (''1'' @ [nl], None)),
     dir_answer = (\<lambda>_ _. Inl ''none''), file_answer = (\<lambda>_ _. Inl ''none''), clock = slept\<rparr>"

theorem WaitForReady_returns_witness:
  "\<exists>d err tr'. WaitForReady 62 reboot_world ''R58M'' (seconds 180) '''' [] = Some ((d, err), Now # tr') \<and> 0 \<le> d \<and>
    (err = None \<longrightarrow> seen_ready reboot_world ''R58M'' '''' tr') \<and> (err \<noteq> None \<longrightarrow> seconds 180 \<le> d)"
  by (rule WaitForReady_returns [OF ticking_slept])
     (simp_all add: reboot_world_def seconds_def nanos_def max_int_def)

section \<open>Endpoints and the battery level\<close>

text \<open>A command for a device behind the endpoint \<open>host:port\<close> is sent to exactly that ADB server, a
  command without an endpoint to the local one, and in both cases to exactly the named device; the host
  may itself contain colons.\<close>

theorem adbArgs_endpoint:
  assumes "host \<noteq> []"
  shows "adbArgs (host @ '':'' @ itoa port) serial args = [''-H'', host, ''-P'', itoa port, ''-s'', serial] @ args \<and>
    adbArgs [] serial args = [''-s'', serial] @ args"
proof -
  have "CHR '':'' \<notin> set (itoa port)"
    using show_nat_digits [of "nat port"] show_nat_digits [of "nat (- port)"]
    by (auto simp: itoa_def list_all_iff is_digit_def code_def)
  then have "last_index (CHR '':'') (host @ '':'' @ itoa port) = Some (length host)"
    using last_index_append [of "CHR '':''" host "itoa port"] by (simp add: last_index_None [THEN iffD2])
  with assms show ?thesis by (simp add: adbArgs_def)
qed

theorem adbArgs_endpoint_witness:
  "adbArgs (''peer-1.svc'' @ '':'' @ itoa 5555) ''R58M'' [''reboot''] =
     [''-H'', ''peer-1.svc'', ''-P'', itoa 5555, ''-s'', ''R58M'', ''reboot'']"
  using adbArgs_endpoint [of "''peer-1.svc''" 5555 "''R58M''" "[''reboot'']"] by simp

lemma word_itoa: "word (itoa i)"
  using show_nat_digits [of "nat i"] show_nat_digits [of "nat (- i)"]
  by (auto simp: word_def itoa_def list_all_iff is_digit_def is_space_def code_def)

lemma trim_left_word: "word s \<Longrightarrow> trim_left (c # s) = (if is_space c then s else c # s)"
  by (cases s) (auto simp: trim_left_def word_def)

lemma trim_space_word: "word s \<Longrightarrow> is_space c \<Longrightarrow> trim_space (c # s) = s"
  using word_trim [of s] by (simp add: trim_space_def trim_left_def)

lemma level_of_lines_first:
  assumes "min_int \<le> n" and "n \<le> max_int"
    and "\<forall>l \<in> set ls. \<not> has_prefix (trim_space l) ''level:''"
  shows "level_of_lines (ls @ (''  level: '' @ itoa n) # rest) = (n, None)"
  using assms(3)
proof (induction ls)
  case Nil
  have "word ''level:''" by (simp add: word_def is_space_def)
  from trim_words [OF this word_itoa, of "CHR '' ''" n] have "trim_space (''level: '' @ itoa n) = ''level: '' @ itoa n" by simp
  then have line: "trim_space (''  level: '' @ itoa n) = ''level: '' @ itoa n"
    by (simp add: trim_space_def trim_left_def is_space_def)
  have "trim_space ('' '' @ itoa n) = itoa n"
    using trim_space_word [OF word_itoa, of "CHR '' ''"] by (simp add: is_space_def)
  then show ?case
    using line atoi_itoa [OF assms(1,2)] by (simp add: Let_def trim_prefix_def has_prefix_def)
qed (simp add: Let_def)

text \<open>The battery level is the number of the first line of the battery report that starts with
  \<open>level:\<close>, whatever the other lines say; a failed command gives \<open>-1\<close> and an error.\<close>

theorem BatteryLevel_reads:
  assumes "min_int \<le> n" and "n \<le> max_int"
    and "\<forall>l \<in> set ls. nl \<notin> set l \<and> \<not> has_prefix (trim_space l) ''level:''" and "\<forall>l \<in> set rest. nl \<notin> set l"
    and "exec_answer w tr (''adb'' # adbArgs e s [''shell'', ''dumpsys'', ''battery'']) =
      (concat (map (\<lambda>l. l @ [nl]) (ls @ (''  level: '' @ itoa n) # rest)), err)"
  shows "fst (BatteryLevel w s e tr) =
    (case err of None \<Rightarrow> (n, None) | Some x \<Rightarrow> (-1, Some (''adb dumpsys battery: '' @ x)))"
proof -
  have "nl \<notin> set (itoa n)" by (rule word_no_nl [OF word_itoa])
  then have "\<forall>l \<in> set (ls @ (''  level: '' @ itoa n) # rest). nl \<notin> set l"
    using assms(3,4) by (auto simp: nl_def)
  from split_on_lines [OF this] have
    "split_on nl (concat (map (\<lambda>l. l @ [nl]) (ls @ (''  level: '' @ itoa n) # rest))) =
      ls @ (''  level: '' @ itoa n) # rest @ [[]]" by simp
  then show ?thesis
    using level_of_lines_first [OF assms(1,2), of ls "rest @ [[]]"] assms(3,5)
    by (auto simp: BatteryLevel_def exec_def Let_def split: option.splits)
qed

definition battery_world :: "unit world" where
  "battery_world = \<lparr>exec_answer = (\<lambda>_ _.
       (concat (map (\<lambda>l. l @ [nl]) ([''Current Battery Service state:''] @ (''  level: '' @ itoa 87) # [''  scale: 100''])), None)),
     dir_answer = (\<lambda>_ _. Inl ''none''), file_answer = (\<lambda>_ _. Inl ''none''), clock = slept\<rparr>"

theorem BatteryLevel_reads_witness: "fst (BatteryLevel battery_world ''R58M'' '''' []) = (87, None)"
  using BatteryLevel_reads [of 87 "[''Current Battery Service state:'']" "[''  scale: 100'']" battery_world "[]" "''''" "''R58M''" None]
  by (simp add: battery_world_def min_int_def max_int_def nl_def has_prefix_def trim_space_def trim_left_def is_space_def)

section \<open>USB devices\<close>

text \<open>The files of sysfs as they stand, when nothing changes during the scan.\<close>

definition stable :: "('x, 'm) world_scheme \<Rightarrow> (string \<Rightarrow> string res) \<Rightarrow> bool" where
  "stable w fs \<longleftrightarrow> (\<forall>tr p. file_answer w tr p = fs p)"

definition attr_of :: "(string \<Rightarrow> string res) \<Rightarrow> string \<Rightarrow> string \<Rightarrow> string option" where
  "attr_of fs name f = (case fs (sysfs @ ''/'' @ name @ f) of Inl _ \<Rightarrow> None | Inr b \<Rightarrow> Some (trim_space b))"

lemma attribute_stable: "stable w fs \<Longrightarrow> fst (attribute w (sysfs @ ''/'' @ name) f tr) = attr_of fs name f"
  by (simp add: attribute_def stable_def read_file_def attr_of_def case_prod_beta)

lemma scan_vendors_sound:
  assumes "stable w fs" and "d \<in> set (fst (scan_vendors w names tr))"
  shows "ud_Path d \<in> set names \<and> Some (ud_VID d) = attr_of fs (ud_Path d) ''/idVendor'' \<and>
    ud_PID d = case_option [] id (attr_of fs (ud_Path d) ''/idProduct'') \<and>
    ud_Serial d = case_option [] id (attr_of fs (ud_Path d) ''/serial'') \<and>
    map_of androidVendors (ud_VID d) = Some (ud_Vendor d) \<and> CHR '':'' \<notin> set (ud_Path d)"
  using assms(2)
proof (induction names arbitrary: tr)
  case (Cons name names)
  show ?case
  proof (cases "CHR '':'' \<in> set name \<or> Option.bind (attr_of fs name ''/idVendor'') (map_of androidVendors) = None")
    case True
    then have "fst (scan_vendors w (name # names) tr) =
        fst (scan_vendors w names (if CHR '':'' \<in> set name then tr
               else snd (attribute w (sysfs @ ''/'' @ name) ''/idVendor'' tr)))"
      using attribute_stable [OF assms(1)] by (auto simp: Let_def case_prod_beta)
    with Cons show ?thesis by (auto split: if_splits)
  next
    case False
    then obtain vid oem where v: "attr_of fs name ''/idVendor'' = Some vid" "map_of androidVendors vid = Some oem"
      by (auto simp: bind_eq_None_conv)
    then obtain tr' where e: "fst (scan_vendors w (name # names) tr) =
        \<lparr>ud_Path = name, ud_VID = vid, ud_PID = case_option [] id (attr_of fs name ''/idProduct''),
         ud_Serial = case_option [] id (attr_of fs name ''/serial''),
         ud_Product = case_option [] id (attr_of fs name ''/product''), ud_Vendor = oem, ud_InADB = False\<rparr>
        # fst (scan_vendors w names tr')"
      using False attribute_stable [OF assms(1)] by (auto simp: Let_def case_prod_beta)
    show ?thesis
    proof (cases "d \<in> set (fst (scan_vendors w names tr'))")
      case True
      from Cons.IH [OF this] show ?thesis by auto
    next
      case new: False
      with Cons.prems show ?thesis using v False unfolding e by auto
    qed
  qed
qed simp

lemma find_serial_unique:
  assumes "stable w fs" and "name \<in> set entries" and "attr_of fs name ''/serial'' = Some s"
    and "\<forall>m \<in> set entries. attr_of fs m ''/serial'' = Some s \<longrightarrow> m = name"
  shows "fst (find_serial w s entries tr) = (name, case_option [] id (attr_of fs name ''/idVendor''),
    case_option [] id (attr_of fs name ''/idProduct''))"
  using assms(2,4)
proof (induction entries arbitrary: tr)
  case (Cons m ms)
  show ?case
  proof (cases "attr_of fs m ''/serial'' = Some s")
    case True
    then have "m = name" using Cons.prems by simp
    with True show ?thesis
      using attribute_stable [OF assms(1)] by (simp add: Let_def case_prod_beta)
  next
    case False
    with assms(3) Cons.prems have "name \<in> set ms" by auto
    with False show ?thesis
      using Cons.IH Cons.prems(2) attribute_stable [OF assms(1)] by (simp add: Let_def case_prod_beta)
  qed
qed simp

text \<open>The two scans of the USB bus agree: every listed device is a device node with a known vendor,
  and looking up its serial number, when no other node has it, gives back the same path, vendor and
  product ids.\<close>

theorem USBInfo_agrees:
  assumes "stable w fs" and "\<forall>tr. dir_answer w tr sysfs = Inr entries"
    and "d \<in> set (fst (USBAndroidDevices w tr))" and "ud_Serial d \<noteq> []"
    and "\<forall>m \<in> set entries. attr_of fs m ''/serial'' = Some (ud_Serial d) \<longrightarrow> m = ud_Path d"
  shows "map_of androidVendors (ud_VID d) = Some (ud_Vendor d) \<and> CHR '':'' \<notin> set (ud_Path d) \<and>
    fst (USBInfo w (ud_Serial d) tr') = (ud_Path d, ud_VID d, ud_PID d)"
proof -
  have "d \<in> set (fst (scan_vendors w entries (Read_dir sysfs # tr)))"
    using assms(2,3) by (simp add: USBAndroidDevices_def read_dir_def)
  note s = scan_vendors_sound [OF assms(1) this]
  then have serial: "attr_of fs (ud_Path d) ''/serial'' = Some (ud_Serial d)"
    using assms(4) by (auto split: option.splits)
  have "fst (USBInfo w (ud_Serial d) tr') =
    (ud_Path d, case_option [] id (attr_of fs (ud_Path d) ''/idVendor''), case_option [] id (attr_of fs (ud_Path d) ''/idProduct''))"
    using find_serial_unique [OF assms(1) conjunct1 [OF s] serial assms(5)] assms(2)
    by (simp add: USBInfo_def read_dir_def)
  moreover have v: "Some (ud_VID d) = attr_of fs (ud_Path d) ''/idVendor''"
    and p: "ud_PID d = case_option [] id (attr_of fs (ud_Path d) ''/idProduct'')"
    and k: "map_of androidVendors (ud_VID d) = Some (ud_Vendor d) \<and> CHR '':'' \<notin> set (ud_Path d)"
    using s by blast+
  ultimately have "fst (USBInfo w (ud_Serial d) tr') = (ud_Path d, ud_VID d, ud_PID d)"
    unfolding v [symmetric] p [symmetric] by simp
  with k show ?thesis by blast
qed

definition bus_files :: "string \<Rightarrow> string res" where
  "bus_files p =
     (case map_of [(''/sys/bus/usb/devices/1-3.2/idVendor'', ''04e8''), (''/sys/bus/usb/devices/1-3.2/idProduct'', ''6860''),
                   (''/sys/bus/usb/devices/1-3.2/serial'', ''R58M''), (''/sys/bus/usb/devices/1-4/idVendor'', ''046d'')] p of
        None \<Rightarrow> Inl ''no such file'' | Some b \<Rightarrow> Inr (b @ [nl]))"

definition bus_world :: "unit world" where
  "bus_world = \<lparr>exec_answer = (\<lambda>_ _. ('''', None)), dir_answer = (\<lambda>_ _. Inr [''1-3.2'', ''1-3.2:1.0'', ''1-4'']),
     file_answer = (\<lambda>_. bus_files), clock = slept\<rparr>"

lemma bus_attributes:
  "attr_of bus_files ''1-3.2'' ''/idVendor'' = Some ''04e8''"
  "attr_of bus_files ''1-3.2'' ''/idProduct'' = Some ''6860''"
  "attr_of bus_files ''1-3.2'' ''/serial'' = Some ''R58M''"
  "attr_of bus_files ''1-3.2'' ''/product'' = None"
  "attr_of bus_files ''1-3.2:1.0'' ''/serial'' = None"
  "attr_of bus_files ''1-4'' ''/idVendor'' = Some ''046d''"
  "attr_of bus_files ''1-4'' ''/serial'' = None"
  by (simp_all add: attr_of_def bus_files_def sysfs_def trim_space_def trim_left_def is_space_def nl_def)

theorem USBInfo_agrees_witness:
  "\<exists>d \<in> set (fst (USBAndroidDevices bus_world [])).
     fst (USBInfo bus_world (ud_Serial d) []) = (''1-3.2'', ''04e8'', ''6860'')"
proof -
  define d where "d = \<lparr>ud_Path = ''1-3.2'', ud_VID = ''04e8'', ud_PID = ''6860'', ud_Serial = ''R58M'',
    ud_Product = '''', ud_Vendor = ''Samsung'', ud_InADB = False\<rparr>"
  have st: "stable bus_world bus_files" by (simp add: stable_def bus_world_def)
  have entries: "\<forall>tr. dir_answer bus_world tr sysfs = Inr [''1-3.2'', ''1-3.2:1.0'', ''1-4'']"
    by (simp add: bus_world_def)
  have "map_of androidVendors ''04e8'' = Some ''Samsung''" "map_of androidVendors ''046d'' = None"
    by (simp_all add: androidVendors_def)
  then have d: "fst (USBAndroidDevices bus_world []) = [d]"
    using entries
    by (simp add: USBAndroidDevices_def read_dir_def case_prod_beta Let_def attribute_stable [OF st, simplified]
        bus_attributes d_def)
  have "\<forall>m \<in> set [''1-3.2'', ''1-3.2:1.0'', ''1-4'']. attr_of bus_files m ''/serial'' = Some (ud_Serial d) \<longrightarrow> m = ud_Path d"
    by (simp add: bus_attributes d_def)
  then have "fst (USBInfo bus_world (ud_Serial d) []) = (ud_Path d, ud_VID d, ud_PID d)"
    using USBInfo_agrees [OF st entries, of d "[]" "[]"] d by (simp add: d_def)
  with d show ?thesis by (simp add: d_def)
qed

section \<open>The client calls only the machine\<close>

lemma calls_run_all [simp]: "other_calls (run_all w cmds tr) = other_calls tr"
proof (induction cmds arbitrary: tr)
  case (Cons c cs)
  have "run_all w (c # cs) tr = run_all w cs (snd (exec w c tr))" by (simp add: run_all_def)
  with Cons show ?case by simp
qed (simp add: run_all_def)

lemma calls_commands [simp]:
  "other_calls (snd (Reboot w s e tr)) = other_calls tr" "other_calls (snd (isOnline w s e tr)) = other_calls tr"
  "other_calls (snd (isBootCompleted w s e tr)) = other_calls tr" "other_calls (GrantAppiumPermissions w s e tr) = other_calls tr"
  "other_calls (snd (TakeScreenshot w s e tr)) = other_calls tr" "other_calls (snd (BatteryLevel w s e tr)) = other_calls tr"
  by (simp_all add: Reboot_def isOnline_def isBootCompleted_def GrantAppiumPermissions_def TakeScreenshot_def
      BatteryLevel_def case_prod_beta split: option.splits)

lemma calls_wait_offline: "wait_offline n w s e t tr = Some tr' \<Longrightarrow> other_calls tr' = other_calls tr"
proof (induction n arbitrary: tr)
  case (Suc n)
  then show ?case
    using calls_host(4) [of w tr] calls_commands(2) [of w s e "snd (now w tr)"]
    by (auto simp: Let_def case_prod_beta split: if_splits)
qed simp

lemma calls_wait_booted: "wait_booted n w s e t tr = Some (ok, tr') \<Longrightarrow> other_calls tr' = other_calls tr"
proof (induction n arbitrary: tr)
  case (Suc n)
  then show ?case by (auto simp: Let_def case_prod_beta split: if_splits)
qed simp

lemma calls_WaitForReady: "WaitForReady n w s t e tr = Some (r, tr') \<Longrightarrow> other_calls tr' = other_calls tr"
  by (auto simp: WaitForReady_def Let_def case_prod_beta split: option.splits if_splits
      dest!: calls_wait_offline calls_wait_booted)

lemma calls_attribute [simp]: "other_calls (snd (attribute w d f tr)) = other_calls tr"
  by (simp add: attribute_def case_prod_beta)

lemma calls_find_serial [simp]: "other_calls (snd (find_serial w s entries tr)) = other_calls tr"
  by (induction entries arbitrary: tr) (simp_all add: Let_def case_prod_beta)

lemma calls_USBInfo [simp]: "other_calls (snd (USBInfo w s tr)) = other_calls tr"
  by (simp add: USBInfo_def case_prod_beta split: sum.splits)

lemma others_commands [simp]:
  "others (snd (Reboot w s e tr)) = others tr" "others (snd (isOnline w s e tr)) = others tr"
  "others (snd (isBootCompleted w s e tr)) = others tr" "others (GrantAppiumPermissions w s e tr) = others tr"
  "others (snd (TakeScreenshot w s e tr)) = others tr" "others (snd (BatteryLevel w s e tr)) = others tr"
  "others (snd (USBInfo w s tr)) = others tr"
  by (simp_all add: others_calls)

lemma others_WaitForReady: "WaitForReady n w s t e tr = Some (r, tr') \<Longrightarrow> others tr' = others tr"
  by (simp add: others_calls calls_WaitForReady)

end
