(* ===== verification/Usb_Monitor.thy ===== *)
theory Usb_Monitor
  imports Adb_Client Run_Store
begin

text \<open>
  \<open>internal/usb/monitor.go\<close>: the comparison of two snapshots of the USB bus and the events it records.
  A Go map is an association list without duplicate keys; the order in which \<open>range\<close> visits it is the
  argument \<open>ord\<close>, any permutation. The database is the one of \<open>Run_Store\<close>; whether the driver
  accepts the \<open>n\<close>-th insert of a poll is the argument \<open>ins\<close>. \<open>OnModeChange\<close> is the list of calls.
\<close>

type_synonym snapshot = "(string \<times> usb_device) list"

record monitor =
  prev :: snapshot

definition NewMonitor :: monitor where
  "NewMonitor = \<lparr>prev = []\<rparr>"

datatype monitor_action =
    Record usb_event
  | ModeChange string string string string

definition mark_adb :: "string set \<Rightarrow> usb_device \<Rightarrow> usb_device" where
  "mark_adb serials d = (if ud_Serial d \<noteq> [] then d\<lparr>ud_InADB := ud_Serial d \<in> serials\<rparr> else d)"

definition cur_map :: "usb_device list \<Rightarrow> snapshot" where
  "cur_map ds = foldl (\<lambda>m d. AList.update (ud_Path d) d m) [] ds"

definition event_for :: "time \<Rightarrow> string \<Rightarrow> usb_device \<Rightarrow> usb_event" where
  "event_for t kind d = \<lparr>ue_ID = 0, ue_TS = t, ue_Event = kind, ue_Path = ud_Path d, ue_VID = ud_VID d,
     ue_PID = ud_PID d, ue_Serial = ud_Serial d, ue_Product = ud_Product d, ue_Vendor = ud_Vendor d,
     ue_InADB = ud_InADB d, ue_Detail = ''''\<rparr>"

text \<open>The arrow of the detail texts in UTF-8, and the verb \<open>%v\<close> on a boolean.\<close>

definition arrow :: string where
  "arrow = '' '' @ map char_of [0xE2 :: nat, 0x86, 0x92] @ '' ''"

definition show_bool :: "bool \<Rightarrow> string" where
  "show_bool b = (if b then ''true'' else ''false'')"

definition seen_now :: "time \<Rightarrow> snapshot \<Rightarrow> string \<times> usb_device \<Rightarrow> monitor_action list" where
  "seen_now t old x =
     (case x of (path, d) \<Rightarrow>
        case map_of old path of
          None \<Rightarrow> [Record (event_for t ''appeared'' d)]
        | Some p \<Rightarrow>
            if ud_VID p \<noteq> ud_VID d \<or> ud_PID p \<noteq> ud_PID d then
              Record ((event_for t ''mode_change'' d)\<lparr>ue_Detail :=
                 ud_VID p @ '':'' @ ud_PID p @ arrow @ ud_VID d @ '':'' @ ud_PID d\<rparr>)
              # (if ud_Serial d \<noteq> [] then [ModeChange (ud_Serial d) (ud_Path d) (ud_VID d) (ud_PID d)] else [])
            else if ud_InADB p \<noteq> ud_InADB d then
              [Record ((event_for t ''mode_change'' d)\<lparr>ue_Detail :=
                 ''adb: '' @ show_bool (ud_InADB p) @ arrow @ show_bool (ud_InADB d)\<rparr>)]
            else [])"

definition gone_now :: "time \<Rightarrow> snapshot \<Rightarrow> string \<times> usb_device \<Rightarrow> monitor_action list" where
  "gone_now t cur x =
     (case x of (path, d) \<Rightarrow>
        if map_of cur path = None then [Record ((event_for t ''disappeared'' d)\<lparr>ue_InADB := False\<rparr>)] else [])"

definition poll_actions :: "(snapshot \<Rightarrow> snapshot) \<Rightarrow> time \<Rightarrow> snapshot \<Rightarrow> snapshot \<Rightarrow> monitor_action list" where
  "poll_actions ord t old cur =
     concat (map (seen_now t old) (ord cur)) @ concat (map (gone_now t cur) (ord old))"

text \<open>\<open>record\<close>: an insert that fails is only logged.\<close>

definition record_event :: "string option \<Rightarrow> usb_event \<Rightarrow> db \<Rightarrow> db" where
  "record_event err e d = snd (InsertUSBEvent err e d)"

fun perform ::
  "(nat \<Rightarrow> string option) \<Rightarrow> bool \<Rightarrow> nat \<Rightarrow> monitor_action list \<Rightarrow> db
   \<Rightarrow> db \<times> (string \<times> string \<times> string \<times> string) list" where
  "perform ins cb n [] d = (d, [])"
| "perform ins cb n (Record e # as) d = perform ins cb (Suc n) as (record_event (ins n) e d)"
| "perform ins cb n (ModeChange s p v i # as) d =
     (let (d', cs) = perform ins cb n as d in (d', if cb then (s, p, v, i) # cs else cs))"

text \<open>The devices on the bus, each marked with whether ADB lists it; a failed \<open>adb devices\<close> lists none.\<close>

definition observe :: "('x, 'm) world_scheme \<Rightarrow> 'x call list \<Rightarrow> usb_device list \<times> 'x call list" where
  "observe w tr =
     (let (current, tr1) = USBAndroidDevices w tr;
          (r, tr2) = ListDevices w tr1;
          serials = (case r of Inl _ \<Rightarrow> {} | Inr ds \<Rightarrow> set (map Serial ds))
      in (map (mark_adb serials) current, tr2))"

definition Poll ::
  "('x, 'm) world_scheme \<Rightarrow> (snapshot \<Rightarrow> snapshot) \<Rightarrow> (nat \<Rightarrow> string option) \<Rightarrow> bool \<Rightarrow> monitor \<Rightarrow> db \<Rightarrow> 'x call list
   \<Rightarrow> (monitor \<times> db \<times> (string \<times> string \<times> string \<times> string) list) \<times> 'x call list" where
  "Poll w ord ins cb m d tr =
     (let (current, tr1) = observe w tr;
          cur = cur_map current;
          (t, tr2) = now w tr1;
          (d', calls) = perform ins cb 0 (poll_actions ord t (prev m) cur) d
      in ((m\<lparr>prev := cur\<rparr>, d', calls), tr2))"

lemma Poll_result:
  assumes "Poll w ord ins cb m d tr = ((m', d', calls), tr')"
  shows "prev m' = cur_map (fst (observe w tr))"
    and "\<exists>t. perform ins cb 0 (poll_actions ord t (prev m) (prev m')) d = (d', calls)"
  using assms by (auto simp: Poll_def Let_def split: prod.splits)

section \<open>Snapshots\<close>

definition permutes :: "(snapshot \<Rightarrow> snapshot) \<Rightarrow> bool" where
  "permutes ord \<longleftrightarrow> (\<forall>m. mset (ord m) = mset m)"

definition wf_snap :: "snapshot \<Rightarrow> bool" where
  "wf_snap m \<longleftrightarrow> distinct (map fst m) \<and> (\<forall>(p, d) \<in> set m. ud_Path d = p)"

lemma wf_snap_cur_map: "wf_snap (cur_map ds)"
proof -
  have "wf_snap m \<Longrightarrow> wf_snap (foldl (\<lambda>m d. AList.update (ud_Path d) d m) m ds)" for m
  proof (induction ds arbitrary: m)
    case (Cons d ds)
    have "set (AList.update (ud_Path d) d m) \<subseteq> insert (ud_Path d, d) (set m)"
      by (induction m) auto
    then have "wf_snap (AList.update (ud_Path d) d m)"
      using Cons.prems distinct_update [of m "ud_Path d" d] by (auto simp: wf_snap_def)
    then show ?case using Cons.IH by simp
  qed simp
  from this [of "[]"] show ?thesis by (simp add: cur_map_def wf_snap_def)
qed

lemma permutes_snap:
  assumes "permutes ord" and "wf_snap m"
  shows "set (ord m) = set m" and "distinct (map fst (ord m))" and "wf_snap (ord m)"
proof -
  have m: "mset (ord m) = mset m" using assms(1) by (simp add: permutes_def)
  then show s: "set (ord m) = set m" by (metis set_mset_mset)
  have "mset (map fst (ord m)) = mset (map fst m)" using m by simp
  then show "distinct (map fst (ord m))" using assms(2) mset_eq_imp_distinct_iff by (metis wf_snap_def)
  then show "wf_snap (ord m)" using s assms(2) by (auto simp: wf_snap_def)
qed

text \<open>What an event log says about the bus: the ids and the ADB visibility of the device on each port.\<close>

type_synonym bus_view = "string \<rightharpoonup> string \<times> string \<times> bool"

definition view :: "snapshot \<Rightarrow> bus_view" where
  "view m = (\<lambda>p. map_option (\<lambda>d. (ud_VID d, ud_PID d, ud_InADB d)) (map_of m p))"

definition replay_row :: "bus_view \<Rightarrow> usb_row \<Rightarrow> bus_view" where
  "replay_row v r =
     (if ur_event r = ''disappeared'' then v(ur_path r := None)
      else v(ur_path r \<mapsto> (ur_vid r, ur_pid r, ur_in_adb r \<noteq> 0)))"

definition replay :: "bus_view \<Rightarrow> usb_row list \<Rightarrow> bus_view" where
  "replay v rs = foldl replay_row v rs"

text \<open>The same on the actions of a poll.\<close>

definition tri :: "usb_device \<Rightarrow> string \<times> string \<times> bool" where
  "tri d = (ud_VID d, ud_PID d, ud_InADB d)"

fun replay_action :: "bus_view \<Rightarrow> monitor_action \<Rightarrow> bus_view" where
  "replay_action v (Record e) =
     (if ue_Event e = ''disappeared'' then v(ue_Path e := None)
      else v(ue_Path e \<mapsto> (ue_VID e, ue_PID e, ue_InADB e)))"
| "replay_action v (ModeChange _ _ _ _) = v"

lemma perform_rows:
  "\<exists>rows. usb_events (fst (perform (\<lambda>_. None) cb n as d)) = usb_events d @ rows \<and>
     replay v rows = foldl replay_action v as"
proof (induction as arbitrary: n d v)
  case Nil
  show ?case by (rule exI [of _ "[]"]) (simp add: replay_def)
next
  case (Cons a as)
  show ?case
  proof (cases a)
    case (Record e)
    obtain r where r: "usb_events (record_event None e d) = usb_events d @ [r]"
      "\<And>v. replay_row v r = replay_action v (Record e)"
      by (simp add: record_event_def InsertUSBEvent_def Let_def replay_row_def boolToInt_def)
    from Cons.IH [of "Suc n" "record_event None e d" "replay_action v a"] obtain rows where
      "usb_events (fst (perform (\<lambda>_. None) cb (Suc n) as (record_event None e d))) = usb_events d @ r # rows"
      "replay (replay_action v a) rows = foldl replay_action (replay_action v a) as"
      unfolding r(1) by auto
    with r(2) show ?thesis unfolding Record by (intro exI [of _ "r # rows"]) (simp add: replay_def)
  next
    case (ModeChange s p vid pid)
    then show ?thesis using Cons.IH [of n d v] by (simp add: case_prod_beta)
  qed
qed

lemma view_Cons: "view ((p, d) # m) = (view m)(p \<mapsto> tri d)"
  by (rule ext) (simp add: view_def tri_def)

lemma seen_now_replay:
  assumes "ud_Path d = p" and "v p = view old p"
  shows "foldl replay_action v (seen_now t old (p, d)) = v(p \<mapsto> tri d)"
  using assms by (auto simp: seen_now_def event_for_def view_def tri_def split: option.splits)

lemma replay_seen:
  assumes "distinct (map fst xs)" and "\<forall>(p, d) \<in> set xs. ud_Path d = p \<and> v p = view old p"
  shows "foldl replay_action v (concat (map (seen_now t old) xs)) = v ++ view xs"
  using assms
proof (induction xs arbitrary: v)
  case Nil
  then show ?case by (simp add: view_def map_add_def)
next
  case (Cons x xs)
  obtain p d where x: "x = (p, d)" by (cases x)
  have "foldl replay_action (v(p \<mapsto> tri d)) (concat (map (seen_now t old) xs)) = v(p \<mapsto> tri d) ++ view xs"
    using Cons.prems x by (intro Cons.IH) force+
  moreover have "view xs p = None"
    using Cons.prems(1) x by (auto simp: view_def map_of_eq_None_iff)
  then have "v(p \<mapsto> tri d) ++ view xs = v ++ view ((p, d) # xs)"
    by (auto simp: view_Cons map_add_def fun_eq_iff split: option.splits)
  ultimately show ?case using Cons.prems(2) x seen_now_replay [of d p v old t] by simp
qed

lemma replay_gone:
  assumes "\<forall>(p, d) \<in> set ys. ud_Path d = p"
  shows "foldl replay_action v (concat (map (gone_now t cur) ys)) =
    (\<lambda>p. if p \<in> fst ` set ys \<and> map_of cur p = None then None else v p)"
  using assms
  by (induction ys arbitrary: v) (auto simp: gone_now_def event_for_def fun_eq_iff)

lemma poll_actions_replay:
  assumes "permutes ord" and "wf_snap old" and "wf_snap cur"
  shows "foldl replay_action (view old) (poll_actions ord t old cur) = view cur"
proof -
  note c = permutes_snap [OF assms(1,3)] and o = permutes_snap [OF assms(1,2)]
  have vc: "view (ord cur) = view cur"
    using map_of_inject_set [of "ord cur" cur] c assms(3) by (simp add: view_def wf_snap_def)
  show ?thesis
  proof (rule ext)
    fix p
    have "\<forall>(p, d) \<in> set (ord cur). ud_Path d = p \<and> view old p = view old p" "\<forall>(p, d) \<in> set (ord old). ud_Path d = p"
      using c(3) o(3) by (auto simp: wf_snap_def)
    then have "foldl replay_action (view old) (poll_actions ord t old cur) p =
      (if p \<in> fst ` set old \<and> map_of cur p = None then None else (view old ++ view cur) p)"
      using replay_seen [OF c(2)] replay_gone by (simp add: poll_actions_def vc o(1))
    also have "\<dots> = view cur p"
    proof (cases "map_of cur p")
      case None
      then show ?thesis
        using map_of_eq_None_iff [of old p] by (auto simp: view_def map_add_def)
    next
      case (Some d)
      then show ?thesis by (simp add: view_def map_add_def)
    qed
    finally show "foldl replay_action (view old) (poll_actions ord t old cur) p = view cur p" .
  qed
qed

text \<open>C20: The USB event log is complete: replaying the rows that a poll adds on what was on the bus before
  gives what is on the bus now, port by port with vendor, product and ADB visibility, in whatever order
  the maps are visited.\<close>

theorem Poll_log_complete:
  assumes "permutes ord" and "wf_snap (prev m)"
    and "Poll w ord (\<lambda>_. None) cb m d tr = ((m', d', calls), tr')"
  shows "wf_snap (prev m') \<and>
    (\<exists>rows. usb_events d' = usb_events d @ rows \<and> replay (view (prev m)) rows = view (prev m'))"
proof -
  from Poll_result(2) [OF assms(3)] obtain t where
    d': "d' = fst (perform (\<lambda>_. None) cb 0 (poll_actions ord t (prev m) (prev m')) d)"
    by (metis fst_conv)
  have "wf_snap (prev m')" by (simp add: Poll_result(1) [OF assms(3)] wf_snap_cur_map)
  with poll_actions_replay [OF assms(1,2), of "prev m'"] show ?thesis
    using perform_rows [of cb 0 "poll_actions ord t (prev m) (prev m')" d "view (prev m)"] d' by simp
qed

theorem Poll_log_complete_witness:
  "\<exists>m' d' calls tr'. Poll bus_world (\<lambda>m. m) (\<lambda>_. None) True NewMonitor empty_db [] = ((m', d', calls), tr') \<and>
     (\<exists>rows. usb_events d' = rows \<and> replay (\<lambda>_. None) rows = view (prev m'))"
proof -
  obtain m' d' calls tr' where p: "Poll bus_world (\<lambda>m. m) (\<lambda>_. None) True NewMonitor empty_db [] = ((m', d', calls), tr')"
    by (metis prod.exhaust)
  have "permutes (\<lambda>m. m)" "wf_snap (prev NewMonitor)" by (simp_all add: permutes_def wf_snap_def NewMonitor_def)
  from Poll_log_complete [OF this p] p show ?thesis by (simp add: empty_db_def NewMonitor_def view_def)
qed

fun mode_change :: "monitor_action \<Rightarrow> (string \<times> string \<times> string \<times> string) list" where
  "mode_change (Record e) = []"
| "mode_change (ModeChange s p v i) = [(s, p, v, i)]"

lemma perform_calls: "snd (perform ins cb n as d) = (if cb then concat (map mode_change as) else [])"
  by (induction ins cb n as d rule: perform.induct) (auto simp: case_prod_beta)

lemma mode_change_gone: "concat (map mode_change (gone_now t cur x)) = []"
  by (cases x) (simp add: gone_now_def)

lemma mode_change_seen:
  "c \<in> set (concat (map mode_change (seen_now t old (p, d)))) \<longleftrightarrow>
     (\<exists>q. map_of old p = Some q \<and> (ud_VID q \<noteq> ud_VID d \<or> ud_PID q \<noteq> ud_PID d) \<and> ud_Serial d \<noteq> [] \<and>
        c = (ud_Serial d, ud_Path d, ud_VID d, ud_PID d))"
  by (auto simp: seen_now_def split: option.splits if_splits)

lemma poll_mode_changes:
  assumes "permutes ord" and "wf_snap cur"
  shows "c \<in> set (concat (map mode_change (poll_actions ord t old cur))) \<longleftrightarrow>
    (\<exists>p d q. map_of cur p = Some d \<and> map_of old p = Some q \<and> (ud_VID q \<noteq> ud_VID d \<or> ud_PID q \<noteq> ud_PID d) \<and>
       ud_Serial d \<noteq> [] \<and> c = (ud_Serial d, p, ud_VID d, ud_PID d))"
proof -
  have split: "concat (map mode_change (concat (map f xs))) = concat (map (\<lambda>x. concat (map mode_change (f x))) xs)" for f xs
    by (induction xs) auto
  have "c \<in> set (concat (map mode_change (poll_actions ord t old cur))) \<longleftrightarrow>
    (\<exists>(p, d) \<in> set (ord cur). c \<in> set (concat (map mode_change (seen_now t old (p, d)))))"
    unfolding poll_actions_def map_append concat_append split by (auto simp: mode_change_gone)
  also have "\<dots> \<longleftrightarrow> (\<exists>p d. map_of cur p = Some d \<and> ud_Path d = p \<and> c \<in> set (concat (map mode_change (seen_now t old (p, d)))))"
  proof -
    have "(p, d) \<in> set (ord cur) \<longleftrightarrow> map_of cur p = Some d \<and> ud_Path d = p" for p d
      using permutes_snap(1) [OF assms] assms(2) by (auto simp: wf_snap_def)
    then show ?thesis by (simp only: Bex_def split_paired_Ex case_prod_conv) blast
  qed
  also have "\<dots> \<longleftrightarrow> (\<exists>p d q. map_of cur p = Some d \<and> map_of old p = Some q \<and>
      (ud_VID q \<noteq> ud_VID d \<or> ud_PID q \<noteq> ud_PID d) \<and> ud_Serial d \<noteq> [] \<and> c = (ud_Serial d, p, ud_VID d, ud_PID d))"
  proof -
    have key: "map_of cur p = Some d \<Longrightarrow> ud_Path d = p" for p d
      using assms(2) by (auto simp: wf_snap_def dest: map_of_SomeD)
    show ?thesis unfolding mode_change_seen by (fastforce dest: key)
  qed
  finally show ?thesis .
qed

lemma quiet_poll:
  assumes "permutes ord" and "wf_snap m"
  shows "poll_actions ord t m m = []"
proof -
  have "map_of m p = Some d" if "(p, d) \<in> set m" for p d
    using assms(2) that by (simp add: wf_snap_def)
  then have "seen_now t m x = []" "gone_now t m x = []" if "x \<in> set m" for x
    using that by (auto simp: seen_now_def gone_now_def split: prod.splits)
  then show ?thesis using permutes_snap(1) [OF assms] by (simp add: poll_actions_def)
qed

text \<open>\<open>OnModeChange\<close> is called exactly for the devices with a serial number whose vendor or product id
  on a port has changed since the last poll; a poll that sees the bus as it was records nothing and calls
  nobody, whatever the driver answers.\<close>

theorem Poll_notifies:
  assumes "permutes ord" and "wf_snap (prev m)" and "Poll w ord ins True m d tr = ((m', d', calls), tr')"
  shows "set calls = {(ud_Serial n, p, ud_VID n, ud_PID n) | n p q. map_of (prev m') p = Some n \<and>
      map_of (prev m) p = Some q \<and> (ud_VID q \<noteq> ud_VID n \<or> ud_PID q \<noteq> ud_PID n) \<and> ud_Serial n \<noteq> []} \<and>
    (cur_map (fst (observe w tr)) = prev m \<longrightarrow> d' = d \<and> calls = [])"
proof -
  from Poll_result(2) [OF assms(3)] obtain t where
    p: "perform ins True 0 (poll_actions ord t (prev m) (prev m')) d = (d', calls)" by blast
  have wf: "wf_snap (prev m')" by (simp add: Poll_result(1) [OF assms(3)] wf_snap_cur_map)
  have "calls = concat (map mode_change (poll_actions ord t (prev m) (prev m')))"
    using perform_calls [of ins True 0 "poll_actions ord t (prev m) (prev m')" d] p by simp
  then have "c \<in> set calls \<longleftrightarrow> (\<exists>p n q. map_of (prev m') p = Some n \<and> map_of (prev m) p = Some q \<and>
      (ud_VID q \<noteq> ud_VID n \<or> ud_PID q \<noteq> ud_PID n) \<and> ud_Serial n \<noteq> [] \<and> c = (ud_Serial n, p, ud_VID n, ud_PID n))" for c
    using poll_mode_changes [OF assms(1) wf] by simp
  moreover have "prev m' = prev m \<longrightarrow> d' = d \<and> calls = []"
    using p quiet_poll [OF assms(1,2)] by auto
  ultimately show ?thesis unfolding Poll_result(1) [OF assms(3), symmetric] by blast
qed

text \<open>The phone of \<open>bus_world\<close>, seen before in its charging mode.\<close>

definition charging :: monitor where
  "charging = \<lparr>prev = [(''1-3.2'', \<lparr>ud_Path = ''1-3.2'', ud_VID = ''04e8'', ud_PID = ''685d'', ud_Serial = ''R58M'',
     ud_Product = '''', ud_Vendor = ''Samsung'', ud_InADB = False\<rparr>)]\<rparr>"

theorem Poll_notifies_witness:
  "\<exists>m' d' calls tr'. Poll bus_world (\<lambda>m. m) (\<lambda>_. None) True charging empty_db [] = ((m', d', calls), tr') \<and>
     set calls = {(ud_Serial n, p, ud_VID n, ud_PID n) | n p q. map_of (prev m') p = Some n \<and>
      map_of (prev charging) p = Some q \<and> (ud_VID q \<noteq> ud_VID n \<or> ud_PID q \<noteq> ud_PID n) \<and> ud_Serial n \<noteq> []}"
proof -
  obtain m' d' calls tr' where p: "Poll bus_world (\<lambda>m. m) (\<lambda>_. None) True charging empty_db [] = ((m', d', calls), tr')"
    by (metis prod.exhaust)
  have "permutes (\<lambda>m. m)" "wf_snap (prev charging)" by (simp_all add: permutes_def wf_snap_def charging_def)
  from Poll_notifies [OF this p] p show ?thesis by blast
qed

end
