(* ===== verification/Test_Report.thy ===== *)
theory Test_Report
  imports Run_Store Host "HOL-Library.Log_Nat"
begin

text \<open>
  The result of a test run: what \<open>reportTestResult\<close> of \<open>internal/docker/manager.go\<close> reads out of the
  logs of the containers, the durations of a run and the text of the daily report.

  The regular expressions are written out as matchers: \<open>first_match\<close> tries every position from the
  left, as \<open>FindStringSubmatch\<close> does; at one position each of these expressions can match in one way
  only, so the matcher needs no backtracking. \<open>bufio.Scanner\<close> is modelled with its limit of 64 KiB.

  Here \<open>float64\<close> arithmetic is rounded: \<open>fl\<close> is rounding to nearest, ties to even, with 53 bits. Infinities
  and subnormal numbers, which no time in a log reaches, are left out.
\<close>

section \<open>Floating point\<close>

definition round_even :: "rat \<Rightarrow> int" where
  "round_even x =
     (let f = \<lfloor>x\<rfloor>; r = x - of_int f
      in if r < 1 / 2 then f else if r > 1 / 2 then f + 1 else if even f then f else f + 1)"

definition pow2 :: "int \<Rightarrow> rat" where
  "pow2 k = (if 0 \<le> k then 2 ^ nat k else 1 / 2 ^ nat (- k))"

definition fl_pos :: "rat \<Rightarrow> rat" where
  "fl_pos x =
     (let (a, b) = quotient_of x;
          e = bitlen a - bitlen b;
          k = (if pow2 e \<le> x then e else e - 1) - 52
      in of_int (round_even (x / pow2 k)) * pow2 k)"

definition fl :: "rat \<Rightarrow> rat" where
  "fl x = (if x = 0 then 0 else if x < 0 then - fl_pos (- x) else fl_pos x)"

text \<open>The conversion of a float to an integer cuts towards zero; outside the range of \<open>int64\<close> it is the
  smallest integer, as on amd64.\<close>

definition to_int64 :: "rat \<Rightarrow> int" where
  "to_int64 x = (let i = (if x < 0 then \<lceil>x\<rceil> else \<lfloor>x\<rfloor>) in if min_int \<le> i \<and> i \<le> max_int then i else min_int)"

definition wrap64 :: "int \<Rightarrow> int" where
  "wrap64 i = (i + 2 ^ 63) mod 2 ^ 64 - 2 ^ 63"

text \<open>\<open>ParseFloat\<close> of digits with an optional fraction\<close>

definition parse_decimal :: "string \<Rightarrow> rat" where
  "parse_decimal s =
     (let i = takeWhile is_digit s; f = drop 1 (dropWhile is_digit s)
      in fl (of_nat (digits_val i) + of_nat (digits_val f) / 10 ^ length f))"

text \<open>Truncated division, as Go's on integers, and \<open>Duration.Seconds\<close>.\<close>

definition quo :: "int \<Rightarrow> int \<Rightarrow> int" where
  "quo a b = (if a < 0 then - ((- a) div b) else a div b)"

definition Seconds :: "duration \<Rightarrow> float64" where
  "Seconds d = fl (of_int (quo d nanos) + fl (of_int (d - quo d nanos * nanos) / of_int nanos))"

section \<open>The summary of a run\<close>

record run_summary =
  sm_Serial :: string
  sm_Model :: string
  sm_StartedAt :: time
  sm_FinishedAt :: time
  sm_Passing :: int
  sm_Failing :: int
  sm_Pending :: int
  sm_Found :: bool
  sm_TestSecs :: float64
  sm_TestLog :: string
  sm_AppiumLog :: string
  sm_Screenshot :: string
  sm_BatteryPct :: int
  sm_RunID :: int
  sm_SessionMs :: int
  sm_ApkMs :: int

record summary = run_summary +
  sm_UsbPath :: string

definition summary_label :: "'a run_summary_scheme \<Rightarrow> string" where
  "summary_label s = device_label (sm_Serial s) (sm_Model s)"

definition totalDuration :: "'a run_summary_scheme \<Rightarrow> duration" where
  "totalDuration s = (if is_zero (sm_StartedAt s) then 0 else time_sub (sm_FinishedAt s) (sm_StartedAt s))"

definition setupDuration :: "'a run_summary_scheme \<Rightarrow> duration" where
  "setupDuration s =
     (let total = totalDuration s; test = to_int64 (fl (sm_TestSecs s * of_int nanos))
      in if test > total then 0 else wrap64 (total - test))"

section \<open>Matching\<close>

fun first_match :: "(string \<Rightarrow> 'a option) \<Rightarrow> string \<Rightarrow> 'a option" where
  "first_match f [] = f []"
| "first_match f (c # cs) = (case f (c # cs) of None \<Rightarrow> first_match f cs | Some r \<Rightarrow> Some r)"

text \<open>White space of the expressions (\<open>\s\<close>): without the vertical tab.\<close>

definition re_space :: "char \<Rightarrow> bool" where
  "re_space c \<longleftrightarrow> c \<in> {CHR 0x20, CHR 0x09, CHR 0x0A, CHR 0x0C, CHR 0x0D}"

text \<open>Digits followed by a word: the digits and the rest.\<close>

definition count_of :: "string \<Rightarrow> string \<Rightarrow> (string \<times> string) option" where
  "count_of kw s =
     (let ds = takeWhile is_digit s; r = dropWhile is_digit s
      in if ds \<noteq> [] \<and> has_prefix r kw then Some (ds, drop (length kw) r) else None)"

text \<open>Digits with an optional fraction: the text and the rest.\<close>

definition decimal :: "string \<Rightarrow> (string \<times> string) option" where
  "decimal s =
     (let ds = takeWhile is_digit s; r = dropWhile is_digit s; fs = takeWhile is_digit (tl r)
      in if ds = [] then None
         else if r \<noteq> [] \<and> hd r = CHR ''.'' \<and> fs \<noteq> [] then Some (ds @ CHR ''.'' # fs, dropWhile is_digit (tl r))
         else Some (ds, r))"

definition secs_group :: "string \<Rightarrow> string option" where
  "secs_group s = (case decimal s of None \<Rightarrow> None | Some (t, r) \<Rightarrow> if has_prefix r ''s)'' then Some t else None)"

text \<open>The optional time after the count: minutes and seconds, empty when they are not there.\<close>

definition time_group :: "string \<Rightarrow> string \<times> string" where
  "time_group r =
     (let r1 = dropWhile re_space r; q = tl r1; q1 = dropWhile is_digit q; rest = dropWhile re_space (tl q1)
      in if r = [] \<or> \<not> re_space (hd r) \<or> r1 = [] \<or> hd r1 \<noteq> CHR ''('' then ('''', '''')
         else if takeWhile is_digit q \<noteq> [] \<and> q1 \<noteq> [] \<and> hd q1 = CHR ''m'' \<and> secs_group rest \<noteq> None
           then (takeWhile is_digit q, the (secs_group rest))
         else ('''', case_option '''' id (secs_group q)))"

definition rePassing :: "string \<Rightarrow> (string \<times> string \<times> string) option" where
  "rePassing = first_match (\<lambda>s. map_option (\<lambda>(n, r). (n, time_group r)) (count_of '' passing'' s))"

definition reFailing :: "string \<Rightarrow> string option" where
  "reFailing = first_match (\<lambda>s. map_option fst (count_of '' failing'' s))"

definition rePending :: "string \<Rightarrow> string option" where
  "rePending = first_match (\<lambda>s. map_option fst (count_of '' pending'' s))"

definition reApkMs :: "string \<Rightarrow> string option" where
  "reApkMs = first_match (\<lambda>s.
     if has_prefix s ''[setup] apk: '' then
       (case decimal (drop 13 s) of None \<Rightarrow> None | Some (t, r) \<Rightarrow> if has_prefix r ''s'' then Some t else None)
     else None)"

definition reSessionMs :: "string \<Rightarrow> string option" where
  "reSessionMs = first_match (\<lambda>s.
     if has_prefix s ''<-- POST /session '' then
       (case count_of '' '' (drop 18 s) of None \<Rightarrow> None | Some (_, r) \<Rightarrow> map_option fst (count_of '' ms'' r))
     else None)"

section \<open>The log of a test container\<close>

text \<open>\<open>bufio.Scanner\<close> with \<open>ScanLines\<close>: the lines without a final carriage return, up to the first that does
  not fit the buffer.\<close>

definition drop_cr :: "string \<Rightarrow> string" where
  "drop_cr l = (if l \<noteq> [] \<and> last l = CHR 0x0D then butlast l else l)"

definition scan_limit :: nat where "scan_limit = 65536"

definition scan_lines :: "string \<Rightarrow> string list" where
  "scan_lines s =
     (let ls = split_on nl s
      in map drop_cr (takeWhile (\<lambda>l. length l < scan_limit) (if last ls = [] then butlast ls else ls)))"

definition apply_line :: "'a run_summary_scheme \<Rightarrow> string \<Rightarrow> 'a run_summary_scheme" where
  "apply_line s line =
     (let s1 = (case rePassing line of
                  None \<Rightarrow> s
                | Some (n, mins, secs) \<Rightarrow>
                    let s' = s\<lparr>sm_Passing := fst (atoi n), sm_Found := True\<rparr>
                    in if secs = [] then s'
                       else s'\<lparr>sm_TestSecs :=
                         (if mins = [] then parse_decimal secs
                          else fl (parse_decimal secs + fl (fl (of_int (fst (atoi mins))) * 60)))\<rparr>);
          s2 = (case reFailing line of None \<Rightarrow> s1 | Some n \<Rightarrow> s1\<lparr>sm_Failing := fst (atoi n), sm_Found := True\<rparr>);
          s3 = (case rePending line of None \<Rightarrow> s2 | Some n \<Rightarrow> s2\<lparr>sm_Pending := fst (atoi n)\<rparr>)
      in case reApkMs line of None \<Rightarrow> s3 | Some t \<Rightarrow> s3\<lparr>sm_ApkMs := to_int64 (fl (parse_decimal t * 1000))\<rparr>)"

definition parse_test_log :: "string \<Rightarrow> 'a run_summary_scheme \<Rightarrow> 'a run_summary_scheme" where
  "parse_test_log text s = foldl apply_line s (scan_lines text)"

fun first_session :: "string list \<Rightarrow> int option" where
  "first_session [] = None"
| "first_session (l # ls) = (case reSessionMs l of Some n \<Rightarrow> Some (fst (atoi n)) | None \<Rightarrow> first_session ls)"

definition parse_appium_log :: "'a run_summary_scheme \<Rightarrow> 'a run_summary_scheme" where
  "parse_appium_log s =
     (if sm_AppiumLog s = [] then s
      else case first_session (split_on nl (sm_AppiumLog s)) of None \<Rightarrow> s | Some n \<Rightarrow> s\<lparr>sm_SessionMs := n\<rparr>)"

section \<open>The report\<close>

text \<open>\<open>Duration.Round(time.Second)\<close>: half a second rounds away from zero; near the ends of the range the
  result saturates.\<close>

definition round_sec :: "duration \<Rightarrow> duration" where
  "round_sec d =
     (let r = quo d nanos * nanos; rest = \<bar>d - r\<bar>
      in if rest + rest < nanos then r
         else if d < 0 then (if r - nanos < min_int then min_int else r - nanos)
         else if r + nanos > max_int then max_int else r + nanos)"

definition minute :: duration where "minute = 60 * nanos"

definition Minutes :: "duration \<Rightarrow> float64" where
  "Minutes d = fl (of_int (quo d minute) + fl (of_int (d - quo d minute * minute) / of_int minute))"

definition fmtDuration :: "duration \<Rightarrow> string" where
  "fmtDuration d0 =
     (let d = round_sec d0
      in if d < minute then itoa (to_int64 (Seconds d)) @ ''s''
         else let m = to_int64 (Minutes d); s = to_int64 (Seconds d) - quo (to_int64 (Seconds d)) 60 * 60
              in if s = 0 then itoa m @ ''m'' else itoa m @ ''m '' @ itoa s @ ''s'')"

text \<open>The verb \<open>%.1f\<close>\<close>

definition fixed1 :: "rat \<Rightarrow> string" where
  "fixed1 x = (let n = round_even (\<bar>x\<bar> * 10) in
     (if x < 0 then ''-'' else '''') @ show_nat (nat n div 10) @ ''.'' @ show_nat (nat n mod 10))"

definition verdict_text :: "'a run_summary_scheme \<Rightarrow> string" where
  "verdict_text s = (if sm_Failing s > 0 then ''FAIL'' else ''PASS'')"

text \<open>The date and the time of day of an instant; local time is \<open>off\<close> nanoseconds east of UTC.\<close>

definition date_text :: "time \<Rightarrow> string" where
  "date_text t = (let (y, m, d) = civil (t div nanos div 86400 + epoch_days)
     in pad_min 4 y @ ''-'' @ pad 2 (nat m) @ ''-'' @ pad 2 (nat d))"

definition clock_text :: "time \<Rightarrow> string" where
  "clock_text t = (let (hh, mm, ss) = clock_of (t div nanos mod 86400)
     in pad 2 (nat hh) @ '':'' @ pad 2 (nat mm) @ '':'' @ pad 2 (nat ss))"

definition rule_line :: "nat \<Rightarrow> string" where
  "rule_line n = concat (replicate n (map char_of [0xE2 :: nat, 0x94, 0x80])) @ [nl]"

text \<open>An entry of the report, with the lines before and the text for a run without results.\<close>

definition report_entry :: "duration \<Rightarrow> string \<Rightarrow> string \<Rightarrow> 'a run_summary_scheme \<Rightarrow> string" where
  "report_entry off before crashed s =
     (let t = sm_FinishedAt s + off; total = totalDuration s
      in rule_line 60 @
         ''Time:    '' @ date_text t @ '' '' @ clock_text t @ [nl] @
         ''Device:  '' @ summary_label s @ [nl] @ before @
         (if \<not> sm_Found s then ''Tests:   no results ('' @ crashed @ '' crashed before tests ran)'' @ [nl]
          else ''Tests:   '' @ verdict_text s @ ''  |  passing: '' @ itoa (sm_Passing s) @ ''  failing: '' @
            itoa (sm_Failing s) @ ''  pending: '' @ itoa (sm_Pending s) @ [nl]) @
         (if total > 0 then ''Timing:  total: '' @ fmtDuration total @ ''  |  setup: '' @ fmtDuration (setupDuration s) @
            ''  |  tests: '' @ fixed1 (sm_TestSecs s) @ ''s'' @ [nl] else []) @
         ''Reboot:  pending...'' @ [nl] @ rule_line 60 @ [nl])"

definition report_text :: "duration \<Rightarrow> 'a run_summary_scheme \<Rightarrow> string" where
  "report_text off s = report_entry off
     (if sm_BatteryPct s \<ge> 0 then ''Battery: '' @ itoa (sm_BatteryPct s) @ ''%'' @ [nl] else []) ''container'' s"

definition report_file :: "duration \<Rightarrow> 'a run_summary_scheme \<Rightarrow> string" where
  "report_file off s = ''reports/'' @ date_text (sm_FinishedAt s + off) @ ''.log''"

section \<open>Reading back what the reporter prints\<close>

lemma takeWhile_digits: "list_all is_digit ds \<Longrightarrow> s = [] \<or> \<not> is_digit (hd s) \<Longrightarrow> takeWhile is_digit (ds @ s) = ds"
  and dropWhile_digits: "list_all is_digit ds \<Longrightarrow> s = [] \<or> \<not> is_digit (hd s) \<Longrightarrow> dropWhile is_digit (ds @ s) = s"
  by (induction ds) (auto simp: takeWhile_eq_Nil_iff dropWhile_id)

text \<open>A text without one of the letters of the word has no match.\<close>

lemma has_prefix_set: "has_prefix s kw \<Longrightarrow> set kw \<subseteq> set s"
  by (auto simp: has_prefix_iff)

lemma count_of_None: "c \<in> set kw \<Longrightarrow> c \<notin> set s \<Longrightarrow> count_of kw s = None"
  using has_prefix_set [of "dropWhile is_digit s" kw] set_dropWhileD [of _ is_digit s]
  by (auto simp: count_of_def Let_def)

lemma first_match_None: "(\<And>a b. s = a @ b \<Longrightarrow> f b = None) \<Longrightarrow> first_match f s = None"
proof (induction s)
  case (Cons c cs)
  have "f (c # cs) = None" using Cons.prems [of "[]"] by simp
  moreover have "first_match f cs = None"
    using Cons.prems [of "c # _"] by (intro Cons.IH) (metis append_Cons)
  ultimately show ?case by simp
qed (metis append_Nil first_match.simps(1))

lemma no_count: "c \<in> set kw \<Longrightarrow> c \<notin> set s \<Longrightarrow> first_match (\<lambda>s. map_option g (count_of kw s)) s = None"
  by (rule first_match_None) (use count_of_None in \<open>fastforce\<close>)

lemma no_apk: "CHR ''['' \<notin> set s \<Longrightarrow> reApkMs s = None"
  unfolding reApkMs_def
  by (rule first_match_None) (use has_prefix_set [of _ "''[setup] apk: ''"] in \<open>fastforce\<close>)

text \<open>The three lines of the spec reporter.\<close>

definition time_text :: "string \<Rightarrow> string \<Rightarrow> string" where
  "time_text mins secs = '' ('' @ (if mins = [] then [] else mins @ ''m '') @ secs @ ''s)''"

definition passing_line :: "nat \<Rightarrow> string \<Rightarrow> string" where
  "passing_line n t = ''  '' @ show_nat n @ '' passing'' @ t"

definition failing_line :: "nat \<Rightarrow> string" where
  "failing_line n = ''  '' @ show_nat n @ '' failing''"

definition pending_line :: "nat \<Rightarrow> string" where
  "pending_line n = ''  '' @ show_nat n @ '' pending''"

text \<open>Seconds are printed as digits, with or without a fraction.\<close>

definition secs_text :: "string \<Rightarrow> bool" where
  "secs_text s \<longleftrightarrow> all_digits s \<or> (\<exists>a b. all_digits a \<and> all_digits b \<and> s = a @ CHR ''.'' # b)"

lemma is_digit_simps: "\<not> is_digit (CHR ''.'')" "\<not> is_digit (CHR ''s'')" "\<not> is_digit (CHR ''m'')" "\<not> is_digit (CHR '' '')"
  by (simp_all add: is_digit_def code_def)

lemma secs_group_text: "secs_text s \<Longrightarrow> secs_group (s @ ''s)'') = Some s"
  by (auto simp: secs_text_def all_digits_def secs_group_def decimal_def takeWhile_digits dropWhile_digits
      is_digit_simps Let_def has_prefix_def)

lemma secs_text_start: "secs_text s \<Longrightarrow> \<exists>c cs. s = c # cs \<and> is_digit c"
  by (auto simp: secs_text_def all_digits_def neq_Nil_conv list_all_iff)

lemma digit_not_space: "is_digit c \<Longrightarrow> \<not> re_space c"
  by (auto simp: is_digit_def re_space_def code_def)

lemma time_group_text:
  assumes "mins = [] \<or> all_digits mins" and "secs_text secs"
  shows "time_group (time_text mins secs) = (mins, secs)"
proof (cases "mins = []")
  case True
  obtain c cs where c: "secs = c # cs" "is_digit c" using secs_text_start [OF assms(2)] by blast
  define q where "q = dropWhile is_digit (secs @ ''s)'')"
  have "q \<noteq> []" "hd q \<noteq> CHR ''m''"
    using assms(2) unfolding q_def secs_text_def
    by (auto simp: all_digits_def dropWhile_digits is_digit_simps)
  then show ?thesis
    using True secs_group_text [OF assms(2)]
    by (simp add: time_text_def time_group_def Let_def re_space_def q_def)
next
  case False
  with assms(1) have d: "list_all is_digit mins" by (simp add: all_digits_def)
  obtain c cs where c: "secs = c # cs" "is_digit c" using secs_text_start [OF assms(2)] by blast
  have "takeWhile is_digit (mins @ ''m '' @ secs @ ''s)'') = mins" "dropWhile is_digit (mins @ ''m '' @ secs @ ''s)'') = ''m '' @ secs @ ''s)''"
    using d by (simp_all add: takeWhile_digits dropWhile_digits is_digit_simps)
  moreover have "dropWhile re_space ('' '' @ secs @ ''s)'') = secs @ ''s)''"
    using c by (simp add: digit_not_space) (simp add: re_space_def)
  ultimately show ?thesis
    using False secs_group_text [OF assms(2)]
    by (simp add: time_text_def time_group_def Let_def re_space_def)
qed

lemma count_of_show: "count_of (CHR '' '' # kw) (show_nat n @ CHR '' '' # kw @ r) = Some (show_nat n, r)"
  using show_nat_digits [of n]
  by (simp add: count_of_def takeWhile_digits dropWhile_digits is_digit_simps has_prefix_def)

lemma first_match_line:
  assumes "f (show_nat n @ s) = Some r" and "\<And>t. f (CHR '' '' # t) = None"
  shows "first_match f (''  '' @ show_nat n @ s) = Some r"
proof -
  obtain c cs where "show_nat n @ s = c # cs" by (cases "show_nat n @ s") auto
  then have "first_match f (show_nat n @ s) = Some r" using assms(1) by simp
  then show ?thesis using assms(2) by simp
qed

lemma count_of_blank: "count_of kw (CHR '' '' # t) = None"
  by (simp add: count_of_def is_digit_simps)

lemma rePassing_line: "rePassing (passing_line n t) = Some (show_nat n, time_group t)"
  unfolding rePassing_def passing_line_def
  by (rule first_match_line) (use count_of_show [of "''passing''"] in \<open>simp_all add: count_of_blank\<close>)

lemma reFailing_line: "reFailing (failing_line n) = Some (show_nat n)"
  unfolding reFailing_def failing_line_def
  by (rule first_match_line) (use count_of_show [of "''failing''" n "[]"] in \<open>simp_all add: count_of_blank\<close>)

lemma rePending_line: "rePending (pending_line n) = Some (show_nat n)"
  unfolding rePending_def pending_line_def
  by (rule first_match_line) (use count_of_show [of "''pending''" n "[]"] in \<open>simp_all add: count_of_blank\<close>)

text \<open>A line that none of the four expressions matches.\<close>

definition quiet :: "string \<Rightarrow> bool" where
  "quiet l \<longleftrightarrow> rePassing l = None \<and> reFailing l = None \<and> rePending l = None \<and> reApkMs l = None"

lemma apply_quiet: "quiet l \<Longrightarrow> apply_line s l = s"
  by (simp add: quiet_def apply_line_def Let_def)

lemma foldl_quiet: "\<forall>l \<in> set ls. quiet l \<Longrightarrow> foldl apply_line s ls = s"
  by (induction ls) (simp_all add: apply_quiet)

lemma show_nat_set: "c \<in> set (show_nat n) \<Longrightarrow> is_digit c"
  using show_nat_digits [of n] by (simp add: list_all_iff)

lemma atoi_show: "int n \<le> max_int \<Longrightarrow> atoi (show_nat n) = (int n, True)"
  using atoi_itoa [of "int n"] by (simp add: itoa_def min_int_def)

definition secs_of :: "string \<Rightarrow> string \<Rightarrow> float64" where
  "secs_of mins secs =
     (if mins = [] then parse_decimal secs else fl (parse_decimal secs + fl (fl (of_int (fst (atoi mins))) * 60)))"

definition time_chars :: "string \<Rightarrow> bool" where
  "time_chars t \<longleftrightarrow> (\<forall>c \<in> set t. is_digit c \<or> c \<in> {CHR '' '', CHR ''('', CHR '')'', CHR ''m'', CHR ''s'', CHR ''.''})"

lemma time_chars_text: "mins = [] \<or> all_digits mins \<Longrightarrow> secs_text secs \<Longrightarrow> time_chars (time_text mins secs)"
  by (auto simp: time_chars_def time_text_def secs_text_def all_digits_def list_all_iff)

lemma not_in_show: "\<not> is_digit c \<Longrightarrow> c \<notin> set (show_nat n)"
  using show_nat_set by blast

lemma not_in_time:
  "time_chars t \<Longrightarrow> \<not> is_digit c \<Longrightarrow> c \<notin> {CHR '' '', CHR ''('', CHR '')'', CHR ''m'', CHR ''s'', CHR ''.''} \<Longrightarrow> c \<notin> set t"
  unfolding time_chars_def by blast

lemma not_digits:
  "\<not> is_digit (CHR ''f'')" "\<not> is_digit (CHR ''e'')" "\<not> is_digit (CHR ''['')" "\<not> is_digit (CHR ''p'')" "\<not> is_digit (CHR ''a'')"
  by (simp_all add: is_digit_def code_def)

lemma apply_passing:
  assumes "int n \<le> max_int" and "mins = [] \<or> all_digits mins" and "secs_text secs"
  shows "apply_line s (passing_line n (time_text mins secs)) =
    s\<lparr>sm_Passing := int n, sm_Found := True, sm_TestSecs := secs_of mins secs\<rparr>"
proof -
  let ?l = "passing_line n (time_text mins secs)"
  note t = not_in_time [OF time_chars_text [OF assms(2,3)]]
  have f: "CHR ''f'' \<notin> set ?l" and e: "CHR ''e'' \<notin> set ?l" and b: "CHR ''['' \<notin> set ?l"
    by (simp_all add: passing_line_def not_in_show not_digits t)
  have "reFailing ?l = None" unfolding reFailing_def by (rule no_count [OF _ f]) simp
  moreover have "rePending ?l = None" unfolding rePending_def by (rule no_count [OF _ e]) simp
  moreover have "reApkMs ?l = None" by (rule no_apk [OF b])
  moreover have "secs \<noteq> []" using secs_text_start [OF assms(3)] by auto
  ultimately show ?thesis
    by (simp add: apply_line_def Let_def rePassing_line time_group_text [OF assms(2,3)] atoi_show [OF assms(1)] secs_of_def)
qed

lemma apply_failing:
  assumes "int n \<le> max_int"
  shows "apply_line s (failing_line n) = s\<lparr>sm_Failing := int n, sm_Found := True\<rparr>"
proof -
  have p: "CHR ''p'' \<notin> set (failing_line n)" and b: "CHR ''['' \<notin> set (failing_line n)"
    by (simp_all add: failing_line_def not_in_show not_digits)
  have "rePassing (failing_line n) = None" unfolding rePassing_def by (rule no_count [OF _ p]) simp
  moreover have "rePending (failing_line n) = None" unfolding rePending_def by (rule no_count [OF _ p]) simp
  moreover have "reApkMs (failing_line n) = None" by (rule no_apk [OF b])
  ultimately show ?thesis by (simp add: apply_line_def Let_def reFailing_line atoi_show [OF assms])
qed

lemma apply_pending:
  assumes "int n \<le> max_int"
  shows "apply_line s (pending_line n) = s\<lparr>sm_Pending := int n\<rparr>"
proof -
  have a: "CHR ''a'' \<notin> set (pending_line n)" and b: "CHR ''['' \<notin> set (pending_line n)"
    by (simp_all add: pending_line_def not_in_show not_digits)
  have "rePassing (pending_line n) = None" unfolding rePassing_def by (rule no_count [OF _ a]) simp
  moreover have "reFailing (pending_line n) = None" unfolding reFailing_def by (rule no_count [OF _ a]) simp
  moreover have "reApkMs (pending_line n) = None" by (rule no_apk [OF b])
  ultimately show ?thesis by (simp add: apply_line_def Let_def rePending_line atoi_show [OF assms])
qed

text \<open>The line that the \<open>before\<close> hook of the tests prints.\<close>

definition apk_line :: "string \<Rightarrow> string" where
  "apk_line t = ''[setup] apk: '' @ t @ ''s''"

lemma secs_chars: "secs_text t \<Longrightarrow> c \<in> set t \<Longrightarrow> is_digit c \<or> c = CHR ''.''"
  by (auto simp: secs_text_def all_digits_def list_all_iff)

lemma reApkMs_line: "secs_text t \<Longrightarrow> reApkMs (apk_line t) = Some t"
proof -
  assume "secs_text t"
  then have "decimal (t @ ''s'') = Some (t, ''s'')"
    by (auto simp: secs_text_def all_digits_def decimal_def takeWhile_digits dropWhile_digits is_digit_simps Let_def)
  then show ?thesis by (simp add: reApkMs_def apk_line_def has_prefix_def)
qed

lemma apply_apk:
  assumes "secs_text t"
  shows "apply_line s (apk_line t) = s\<lparr>sm_ApkMs := to_int64 (fl (parse_decimal t * 1000))\<rparr>"
proof -
  have d: "\<not> is_digit (CHR ''i'')" "\<not> is_digit (CHR ''n'')" by (simp_all add: is_digit_def code_def)
  have i: "CHR ''i'' \<notin> set (apk_line t)" and n: "CHR ''n'' \<notin> set (apk_line t)"
    using secs_chars [OF assms] d by (auto simp: apk_line_def)
  have "rePassing (apk_line t) = None" unfolding rePassing_def by (rule no_count [OF _ i]) simp
  moreover have "reFailing (apk_line t) = None" unfolding reFailing_def by (rule no_count [OF _ i]) simp
  moreover have "rePending (apk_line t) = None" unfolding rePending_def by (rule no_count [OF _ n]) simp
  ultimately show ?thesis by (simp add: apply_line_def Let_def reApkMs_line [OF assms])
qed

text \<open>Lines that fit the scanner come out one by one.\<close>

lemma scan_lines_text:
  assumes "\<forall>l \<in> set ls. nl \<notin> set l \<and> length l < scan_limit"
  shows "scan_lines (concat (map (\<lambda>l. l @ [nl]) ls)) = map drop_cr ls"
  using assms split_on_lines [of ls nl] by (simp add: scan_lines_def Let_def takeWhile_eq_all_conv [THEN iffD2])

lemma show_nat_length: "n < 10 ^ k \<Longrightarrow> 0 < k \<Longrightarrow> length (show_nat n) \<le> k"
proof (induction k arbitrary: n)
  case (Suc k)
  show ?case
  proof (cases "n < 10")
    case True
    then show ?thesis by (simp add: show_nat.simps [of n])
  next
    case False
    then have "0 < k" using Suc.prems by (cases k) auto
    moreover have "n div 10 < 10 ^ k" using Suc.prems(1) by (simp add: div_less_iff_less_mult mult.commute)
    ultimately have "length (show_nat (n div 10)) \<le> k" by (intro Suc.IH)
    with False show ?thesis by (simp add: show_nat.simps [of n])
  qed
qed simp

lemma show_nat_short: "int n \<le> max_int \<Longrightarrow> length (show_nat n) \<le> 19"
  by (rule show_nat_length) (simp_all add: max_int_def)

lemma show_nat_plain: "nl \<notin> set (show_nat n)"
  using show_nat_set [of nl n] by (auto simp: nl_def is_digit_def code_def)

definition noise :: "string list \<Rightarrow> bool" where
  "noise ls \<longleftrightarrow> (\<forall>l \<in> set ls. nl \<notin> set l \<and> length l < scan_limit \<and> quiet (drop_cr l))"

text \<open>The log of a run: the hook's line, then the reporter's summary; it prints failing and pending tests only when
  there are any.\<close>

definition wdio_log ::
  "string list \<Rightarrow> string \<Rightarrow> string list \<Rightarrow> nat \<Rightarrow> string \<Rightarrow> string list \<Rightarrow> nat option \<Rightarrow> nat option \<Rightarrow> string list \<Rightarrow> string" where
  "wdio_log before apk between p t mid f q after = concat (map (\<lambda>l. l @ [nl])
     (before @ apk_line apk # between @ passing_line p t # mid @
      (case f of None \<Rightarrow> [] | Some n \<Rightarrow> [failing_line n]) @ (case q of None \<Rightarrow> [] | Some n \<Rightarrow> [pending_line n]) @ after))"

lemma line_ends [simp]:
  "drop_cr (failing_line n) = failing_line n" "drop_cr (pending_line n) = pending_line n" "drop_cr (apk_line t) = apk_line t"
  "drop_cr (passing_line n (time_text mins secs)) = passing_line n (time_text mins secs)"
  by (simp_all add: drop_cr_def failing_line_def pending_line_def apk_line_def passing_line_def time_text_def)

lemma nl_not_digit: "\<not> is_digit nl"
  by (simp add: nl_def is_digit_def code_def)


definition blank_summary :: summary where
  "blank_summary = \<lparr>sm_Serial = ''R58M'', sm_Model = ''SM-A52'', sm_StartedAt = 1700000000000000000,
     sm_FinishedAt = 1700000090000000000, sm_Passing = 0, sm_Failing = 0, sm_Pending = 0, sm_Found = False,
     sm_TestSecs = 0, sm_TestLog = '''', sm_AppiumLog = '''', sm_Screenshot = '''', sm_BatteryPct = 80,
     sm_RunID = 0, sm_SessionMs = 0, sm_ApkMs = 0, sm_UsbPath = ''''\<rparr>"


section \<open>The limit of the scanner\<close>

text \<open>C34: A log line of 64 KiB or more ends the reading: everything after it is lost, and a run whose
  summary follows such a line is recorded as one without results.\<close>

theorem long_line_hides_results:
  assumes "\<forall>l \<in> set ls. nl \<notin> set l \<and> length l < scan_limit" and "nl \<notin> set big" and "scan_limit \<le> length big"
  shows "parse_test_log (concat (map (\<lambda>l. l @ [nl]) ls) @ big @ nl # rest) s =
    parse_test_log (concat (map (\<lambda>l. l @ [nl]) ls)) s"
proof -
  have split: "split_on nl (concat (map (\<lambda>l. l @ [nl]) ls) @ t) = ls @ split_on nl t" for t
    using assms(1) by (induction ls) (simp_all add: split_on_append)
  obtain r rs where r: "split_on nl rest = r # rs" by (cases "split_on nl rest") auto
  have "scan_lines (concat (map (\<lambda>l. l @ [nl]) ls) @ big @ nl # rest) = map drop_cr ls"
    using assms split [of "big @ nl # rest"] split_on_append [OF assms(2), of rest] r
    by (auto simp: scan_lines_def Let_def takeWhile_append takeWhile_eq_all_conv [THEN iffD2] butlast_append)
  with scan_lines_text [OF assms(1)] show ?thesis by (simp add: parse_test_log_def)
qed

theorem long_line_hides_results_witness:
  "\<not> sm_Found (parse_test_log (replicate 70000 (CHR ''x'') @ nl # passing_line 4 (time_text [] ''13.8'')) blank_summary)"
  using long_line_hides_results [of "[]" "replicate 70000 (CHR ''x'')" "passing_line 4 (time_text [] ''13.8'')" blank_summary]
  by (simp add: nl_def scan_limit_def parse_test_log_def scan_lines_def blank_summary_def)

end
