(* ===== verification/Shared_Types.thy ===== *)
theory Shared_Types
  imports Go_Time
begin

text \<open>\<open>internal/types/types.go\<close>: what both managers show of a device with containers or a pod.\<close>

record running_device =
  rd_Serial :: string
  rd_AppiumPort :: int
  rd_AppiumStartedAt :: time
  rd_TestStartedAt :: time
  rd_HasTest :: bool

end
