(* ===== verification/Docker_Manager.thy ===== *)
theory Docker_Manager
  imports Adb_Client Run_Store Test_Report Shared_Types
begin

text \<open>
  \<open>internal/docker/manager.go\<close>: the manager that keeps, for every connected phone, an Appium container
  and a test container, collects the result of a finished test container and reboots the phone.

  The Docker client library, the SQLite driver, kubectl's answers and the file system are not code of
  the repository: their answers are fields of the record \<open>dworld\<close>, functions of everything the manager
  has called so far. The calls themselves are the trace of the manager, newest first; starting a
  goroutine is a call too (\<open>Go_wait\<close>, \<open>Go_reboot\<close>). \<open>sync.Map\<close>s that the code only looks up are
  partial maps and sets; maps that it ranges over are association lists, visited in an order the world
  chooses. Log lines are left out, except that \<open>outcome\<close> names the branch a device took in
  \<open>Reconcile\<close>. Slicing \<open>c.ID[:12]\<close> and \<open>Names[0][1:]\<close> cannot fail on what Docker documents (ids of 64
  digits, names that start with a slash). Time zones are UTC except for the daily report.
\<close>

section \<open>Data\<close>

definition labelManaged :: string where "labelManaged = ''hub-test.managed''"
definition labelDevice :: string where "labelDevice = ''hub-test.device''"
definition labelPort :: string where "labelPort = ''hub-test.port''"
definition labelRole :: string where "labelRole = ''hub-test.role''"
definition labelModel :: string where "labelModel = ''hub-test.model''"
definition labelStartedAt :: string where "labelStartedAt = ''hub-test.started_at''"
definition labelAppiumStartedAt :: string where "labelAppiumStartedAt = ''hub-test.appium_started_at''"
definition labelBattery :: string where "labelBattery = ''hub-test.battery''"
definition roleAppium :: string where "roleAppium = ''appium''"
definition roleTests :: string where "roleTests = ''tests''"
definition adbNetwork :: string where "adbNetwork = ''hub-test''"

record config =
  AppiumImage :: string
  TestImage :: string
  BasePort :: int
  c_ADBHost :: string
  c_ADBPort :: int
  APKServeURL :: string
  HubDNS :: string
  K8sNamespace :: string
  K8sConfig :: string

record containers =
  AppiumID :: string
  AppiumPort :: int
  AppiumName :: string
  AppiumStatus :: string
  AppiumStartedAt :: time
  TestID :: string
  TestStatus :: string
  TestStartedAt :: time
  DeviceModel :: string
  BatteryPct :: int

definition no_containers :: containers where
  "no_containers = \<lparr>AppiumID = '''', AppiumPort = 0, AppiumName = '''', AppiumStatus = '''',
     AppiumStartedAt = zero_time, TestID = '''', TestStatus = '''', TestStartedAt = zero_time,
     DeviceModel = '''', BatteryPct = 0\<rparr>"

text \<open>A container as \<open>ContainerList\<close> shows it, and a container to be created.\<close>

record container =
  ct_ID :: string
  ct_Names :: "string list"
  ct_State :: string
  ct_Labels :: "(string \<times> string) list"

record spec =
  sp_Image :: string
  sp_Env :: "string list"
  sp_Cmd :: "string list"
  sp_Labels :: "(string \<times> string) list"
  sp_NetworkMode :: string
  sp_DNS :: "string list"
  sp_ExtraHosts :: "string list"

text \<open>A pod as \<open>kubectl get -o json\<close> shows it; of a container's state the name and whether it is running
  and terminated.\<close>

record k8s_pod =
  kp_Name :: string
  kp_Created :: string
  kp_Labels :: "(string \<times> string) list"
  kp_Phase :: string
  kp_Statuses :: "(string \<times> bool \<times> bool) list"

text \<open>A missing key of a Go map of strings reads as the empty string.\<close>

definition val_of :: "(string \<times> string) list \<Rightarrow> string \<Rightarrow> string" where
  "val_of m k = (case map_of m k of None \<Rightarrow> '''' | Some v \<Rightarrow> v)"

section \<open>The world\<close>

datatype dcall =
    Network_list | Network_create
  | List_managed | List_named string
  | Create string spec | Start string | Remove string
  | Logs string "string option"
  | Image_pull string
  | Kubectl_apply "string list" string
  | Mkdir string | Write string string | Append string string
  | Sql
  | Notify | Signal_reconcile | Go_wait string | Go_reboot summary

type_synonym dtrace = "dcall call list"

record dworld = "dcall world" +
  networks :: "dtrace \<Rightarrow> string list res"
  network_error :: "dtrace \<Rightarrow> string option"
  managed_answer :: "dtrace \<Rightarrow> container list res"
  named_answer :: "dtrace \<Rightarrow> string \<Rightarrow> container list res"
  create_answer :: "dtrace \<Rightarrow> string \<Rightarrow> spec \<Rightarrow> string res"
  start_error :: "dtrace \<Rightarrow> string \<Rightarrow> string option"
  logs_answer :: "dtrace \<Rightarrow> string \<Rightarrow> string option \<Rightarrow> string res"
  pull_answer :: "dtrace \<Rightarrow> string \<Rightarrow> string option res"
  apply_answer :: "dtrace \<Rightarrow> string list \<Rightarrow> string \<Rightarrow> string \<times> string option"
  unmarshal_pods :: "string \<Rightarrow> k8s_pod list res"
  file_error :: "dtrace \<Rightarrow> string option"
  sql_error :: "dtrace \<Rightarrow> string option"
  sql_order :: "string list \<Rightarrow> nat list"
  range_existing :: "dtrace \<Rightarrow> (string \<times> containers) list \<Rightarrow> (string \<times> containers) list"
  range_ready :: "dtrace \<Rightarrow> (string \<times> device) list \<Rightarrow> (string \<times> device) list"
  local_offset :: duration
  poll_fuel :: nat

record manager =
  cfg :: config
  NotifyFn :: bool
  ReconcileFn :: bool
  usbCache :: "string \<rightharpoonup> string \<times> string \<times> string"
  adbEndpoints :: "string \<rightharpoonup> string"
  rebooting :: "string set"
  reported :: "string set"
  store :: "db option"
  trace :: dtrace

text \<open>A call of the machine, a call of another service, and a call of the database. The error of a
  removal is only logged.\<close>

definition host :: "(dtrace \<Rightarrow> 'a \<times> dtrace) \<Rightarrow> manager \<Rightarrow> 'a \<times> manager" where
  "host f m = (let (r, tr) = f (trace m) in (r, m\<lparr>trace := tr\<rparr>))"

definition emit :: "dcall \<Rightarrow> manager \<Rightarrow> manager" where
  "emit c m = m\<lparr>trace := Other c # trace m\<rparr>"

definition with_db :: "dworld \<Rightarrow> (string option \<Rightarrow> db \<Rightarrow> 'a res \<times> db) \<Rightarrow> db \<Rightarrow> manager \<Rightarrow> 'a res \<times> manager" where
  "with_db w f d m =
     (let (r, d') = f (sql_error w (trace m)) d in (r, emit Sql (m\<lparr>store := Some d'\<rparr>)))"

definition notify :: "manager \<Rightarrow> manager" where
  "notify m = (if NotifyFn m then emit Notify m else m)"

section \<open>Small parts\<close>

definition is_safe :: "char \<Rightarrow> bool" where
  "is_safe c \<longleftrightarrow> is_lower c \<or> is_upper c \<or> is_digit c \<or> c = CHR ''-'' \<or> c = CHR ''.''"

definition sanitize :: "string \<Rightarrow> string" where
  "sanitize s = map (\<lambda>c. if is_safe c then c else CHR ''-'') s"

definition isK8sMode :: "manager \<Rightarrow> bool" where
  "isK8sMode m \<longleftrightarrow> K8sNamespace (cfg m) \<noteq> []"

definition adbEndpoint :: "manager \<Rightarrow> string \<Rightarrow> string" where
  "adbEndpoint m serial = (case adbEndpoints m serial of Some e \<Rightarrow> e | None \<Rightarrow> '''')"

definition SetUSBInfo :: "string \<Rightarrow> string \<Rightarrow> string \<Rightarrow> string \<Rightarrow> manager \<Rightarrow> manager" where
  "SetUSBInfo serial path vid pid m =
     (if serial \<noteq> [] then m\<lparr>usbCache := (usbCache m)(serial \<mapsto> (path, vid, pid))\<rparr> else m)"

definition vidPidOK :: "manager \<Rightarrow> (string \<rightharpoonup> device_config) \<Rightarrow> string \<Rightarrow> bool" where
  "vidPidOK m confs serial =
     (case confs serial of
        None \<Rightarrow> True
      | Some c \<Rightarrow>
          if cfg_TestVID c = [] then True
          else case usbCache m serial of
                 None \<Rightarrow> False
               | Some (_, vid, pid) \<Rightarrow> equal_fold vid (cfg_TestVID c) \<and> equal_fold pid (cfg_TestPID c))"

definition NewManager :: "config \<Rightarrow> dworld \<Rightarrow> db option \<Rightarrow> manager" where
  "NewManager c w st =
     (let m = \<lparr>cfg = c, NotifyFn = False, ReconcileFn = False, usbCache = Map.empty, adbEndpoints = Map.empty,
               rebooting = {}, reported = {}, store = st, trace = []\<rparr>
      in case st of
           None \<Rightarrow> m
         | Some d \<Rightarrow>
             let m' = emit Sql m
             in case LatestUSBInfoPerDevice (sql_order w) (sql_error w []) d of
                  Inl _ \<Rightarrow> m'
                | Inr es \<Rightarrow> foldl (\<lambda>m e. m\<lparr>usbCache := (usbCache m)(ev_Serial e \<mapsto> (ev_USBPath e, ev_VID e, ev_PID e))\<rparr>) m' es)"

definition SetNotify :: "manager \<Rightarrow> manager" where "SetNotify m = m\<lparr>NotifyFn := True\<rparr>"
definition SetReconcile :: "manager \<Rightarrow> manager" where "SetReconcile m = m\<lparr>ReconcileFn := True\<rparr>"

text \<open>The lowest port from \<open>p\<close> on that is not used.\<close>

function next_free :: "int list \<Rightarrow> int \<Rightarrow> int" where
  "next_free used p = (if p \<in> set used then next_free used (p + 1) else p)"
  by pat_completeness auto
termination
proof (relation "measure (\<lambda>(used, p). card {x \<in> set used. p \<le> x})")
  fix used :: "int list" and p
  assume "p \<in> set used"
  then have "{x \<in> set used. p + 1 \<le> x} \<subset> {x \<in> set used. p \<le> x}" by force
  then show "((used, p + 1), (used, p)) \<in> measure (\<lambda>(used, p). card {x \<in> set used. p \<le> x})"
    by (simp add: psubset_card_mono)
qed simp

declare next_free.simps [simp del]

definition nextPort :: "manager \<Rightarrow> (string \<times> containers) list \<Rightarrow> int" where
  "nextPort m existing =
     next_free (filter (\<lambda>p. p > 0) (map (\<lambda>x. AppiumPort (snd x)) existing)) (BasePort (cfg m))"

section \<open>kubectl\<close>

definition kubectl :: "manager \<Rightarrow> string list \<Rightarrow> string list" where
  "kubectl m args = ''kubectl'' # (if K8sConfig (cfg m) \<noteq> [] then [''--kubeconfig'', K8sConfig (cfg m)] else []) @ args"

definition k8sPodName :: "string \<Rightarrow> string" where
  "k8sPodName serial = ''hub-test-'' @ sanitize serial"

definition removePodK8s :: "dworld \<Rightarrow> string \<Rightarrow> manager \<Rightarrow> unit res \<times> manager" where
  "removePodK8s w pod m =
     (let ((out, err), m1) = host (exec w (kubectl m [''delete'', ''pod'', pod, ''-n'', K8sNamespace (cfg m), ''--ignore-not-found''])) m
      in (case err of Some e \<Rightarrow> Inl (''kubectl delete pod '' @ pod @ '': '' @ e @ nl # out) | None \<Rightarrow> Inr (), m1))"

definition podLogsK8s :: "dworld \<Rightarrow> string \<Rightarrow> string \<Rightarrow> manager \<Rightarrow> string res \<times> manager" where
  "podLogsK8s w pod ct m =
     (let ((out, err), m1) = host (exec w (kubectl m [''logs'', pod, ''-c'', ct, ''-n'', K8sNamespace (cfg m)])) m
      in (case err of Some e \<Rightarrow> Inl (''kubectl logs '' @ pod @ ''/'' @ ct @ '': '' @ e) | None \<Rightarrow> Inr out, m1))"

text \<open>The status of the test and the Appium container of a pod, container by container.\<close>

definition pod_status :: "string \<times> string \<Rightarrow> string \<times> bool \<times> bool \<Rightarrow> string \<times> string" where
  "pod_status st cs =
     (case (st, cs) of ((test, appium), (name, running, terminated)) \<Rightarrow>
        if name = ''tests'' then ((if terminated then ''exited'' else if running then ''running'' else test), appium)
        else if name = ''appium'' then (test, if terminated then ''exited'' else appium)
        else (test, appium))"

definition pod_containers :: "k8s_pod \<Rightarrow> containers" where
  "pod_containers p =
     (let bp = val_of (kp_Labels p) labelBattery; ts = val_of (kp_Labels p) labelStartedAt;
          started = (if ts \<noteq> [] then parse_or_zero ts
                     else if kp_Created p \<noteq> [] then parse_or_zero (kp_Created p) else zero_time);
          (test, appium) = (if kp_Phase p = ''Failed'' \<or> kp_Phase p = ''Succeeded'' then (''exited'', ''exited'')
                            else foldl pod_status (''running'', ''running'') (kp_Statuses p))
      in \<lparr>AppiumID = kp_Name p, AppiumPort = 4723, AppiumName = kp_Name p, AppiumStatus = appium,
          AppiumStartedAt = started, TestID = kp_Name p, TestStatus = test, TestStartedAt = started,
          DeviceModel = val_of (kp_Labels p) labelModel,
          BatteryPct = (if bp \<noteq> [] then fst (atoi bp) else -1)\<rparr>)"

definition listManagedK8s :: "dworld \<Rightarrow> manager \<Rightarrow> (string \<times> containers) list res \<times> manager" where
  "listManagedK8s w m =
     (let ((out, err), m1) = host (exec w (kubectl m
            [''get'', ''pods'', ''-n'', K8sNamespace (cfg m), ''-l'', labelManaged @ ''=true'', ''-o'', ''json''])) m
      in (case err of
            Some e \<Rightarrow> Inl (''kubectl get pods: '' @ e)
          | None \<Rightarrow>
              (case unmarshal_pods w out of
                 Inl e \<Rightarrow> Inl (''kubectl parse pods: '' @ e)
               | Inr pods \<Rightarrow> Inr (foldl (\<lambda>m p. let serial = val_of (kp_Labels p) labelDevice
                    in if serial = [] then m else AList.update serial (pod_containers p) m) [] pods)), m1))"

text \<open>The pod of a device: its manifest, which \<open>kubectl apply\<close> reads from standard input.\<close>

definition json_env :: "string \<Rightarrow> string \<Rightarrow> string" where
  "json_env name val = CHR ''{'' # quoted ''name'' @ '':'' @ quoted name @ '','' @ quoted ''value'' @ '':'' @ quoted val @ ''}''"

definition appium_cmd :: "int \<Rightarrow> string" where
  "appium_cmd port = ''appium --log /var/log/appium.log --log-timestamp --log-no-colors --port '' @ itoa port @
     '' --address 0.0.0.0 --allow-insecure=uiautomator2:adb_shell''"

definition pod_test_env :: "config \<Rightarrow> string \<Rightarrow> string list" where
  "pod_test_env c serial =
     [json_env ''ANDROID_SERIAL'' serial, json_env ''APPIUM_HOST'' ''localhost'', json_env ''APPIUM_PORT'' ''4723''] @
     (if APKServeURL c \<noteq> [] then [json_env ''APIDEMOS_APK_URL'' (APKServeURL c)] else [])"

text \<open>The lines of the manifest; each pair is an indentation and a text.\<close>

definition pod_json :: "config \<Rightarrow> device \<Rightarrow> string \<Rightarrow> int \<Rightarrow> string" where
  "pod_json c dev started batt =
     (let q = quoted; field = (\<lambda>k v. q k @ '': '' @ v);
          lines =
            [(0, ''{''),
             (2, field ''apiVersion'' (q ''v1'') @ '',''), (2, field ''kind'' (q ''Pod'') @ '',''),
             (2, field ''metadata'' ''{''),
             (4, field ''name'' (q (k8sPodName (Serial dev))) @ '',''),
             (4, field ''namespace'' (q (K8sNamespace c)) @ '',''),
             (4, field ''labels'' ''{''),
             (6, field labelManaged (q ''true'') @ '',''), (6, field labelDevice (q (Serial dev)) @ '',''),
             (6, field labelRole (q ''combined'') @ '',''), (6, field labelModel (q (Model dev)) @ '',''),
             (6, field labelStartedAt (q started) @ '',''), (6, field labelBattery (q (itoa batt))),
             (4, ''}''), (2, ''},''),
             (2, field ''spec'' ''{''),
             (4, field ''restartPolicy'' (q ''Never'') @ '',''),
             (4, field ''initContainers'' ''[''), (6, ''{''),
             (8, field ''name'' (q ''appium'') @ '',''), (8, field ''image'' (q (AppiumImage c)) @ '',''),
             (8, field ''restartPolicy'' (q ''Always'') @ '',''),
             (8, field ''env'' ''[''),
             (10, json_env ''ANDROID_SERIAL'' (Serial dev) @ '',''),
             (10, json_env ''ANDROID_ADB_SERVER_ADDRESS'' (ADBHost dev) @ '',''),
             (10, json_env ''ANDROID_ADB_SERVER_PORT'' (itoa (ADBPort dev))),
             (8, ''],''),
             (8, field ''command'' (CHR ''['' # join '','' [q ''sh'', q ''-c'', q (appium_cmd 4723)] @ '']'')),
             (6, ''}''), (4, ''],''),
             (4, field ''containers'' ''[''), (6, ''{''),
             (8, field ''name'' (q ''tests'') @ '',''), (8, field ''image'' (q (TestImage c)) @ '',''),
             (8, field ''env'' (CHR ''['' # join '','' (pod_test_env c (Serial dev)) @ '']'')),
             (6, ''}''), (4, '']''), (2, ''}''), (0 :: nat, ''}'')]
      in join [nl] (map (\<lambda>(n, t). replicate n (CHR '' '') @ t) lines))"

text \<open>The battery gate: the level to note, or the error that stops the test.\<close>

definition min_battery :: int where "min_battery = 29"

definition battery_gate :: "dworld \<Rightarrow> string \<Rightarrow> manager \<Rightarrow> int res \<times> manager" where
  "battery_gate w serial m =
     (let ((level, err), m1) = host (BatteryLevel w serial (adbEndpoint m serial)) m
      in (case err of
            Some _ \<Rightarrow> Inr (-1)
          | None \<Rightarrow> if level < min_battery
                    then Inl (''battery too low: '' @ itoa level @ ''% (minimum 29%)'') else Inr level, m1))"

definition createPodK8s :: "dworld \<Rightarrow> device \<Rightarrow> manager \<Rightarrow> containers res \<times> manager" where
  "createPodK8s w dev m =
     (let ns = K8sNamespace (cfg m); pod = k8sPodName (Serial dev);
          (t, m1) = host (now w) m;
          (gate, m2) = battery_gate w (Serial dev) m1
      in case gate of
           Inl e \<Rightarrow> (Inl e, m2)
         | Inr batt \<Rightarrow>
             let m3 = snd (host (\<lambda>tr. ((), GrantAppiumPermissions w (Serial dev) (adbEndpoint m2 (Serial dev)) tr)) m2);
                 args = kubectl m3 [''apply'', ''-f'', ''-'', ''-n'', ns];
                 input = pod_json (cfg m3) dev (fmt_rfc3339 t) batt;
                 (out, err) = apply_answer w (trace m3) args input;
                 m4 = emit (Kubectl_apply args input) m3
             in (case err of
                   Some e \<Rightarrow> Inl (''kubectl apply pod: '' @ e @ nl # out)
                 | None \<Rightarrow> Inr \<lparr>AppiumID = pod, AppiumPort = 4723, AppiumName = pod, AppiumStatus = ''running'',
                     AppiumStartedAt = t, TestID = pod, TestStatus = ''running'', TestStartedAt = t,
                     DeviceModel = Model dev, BatteryPct = batt\<rparr>, m4))"

section \<open>Listing\<close>

definition add_container :: "(string \<times> containers) list \<Rightarrow> container \<Rightarrow> (string \<times> containers) list" where
  "add_container result c =
     (let label = val_of (ct_Labels c);
          serial = label labelDevice;
          dc0 = (case map_of result serial of None \<Rightarrow> no_containers | Some d \<Rightarrow> d);
          dc1 = (if label labelModel \<noteq> [] then dc0\<lparr>DeviceModel := label labelModel\<rparr> else dc0);
          dc2 = (if label labelRole = roleAppium then
                   let d = dc1\<lparr>AppiumID := ct_ID c, AppiumPort := fst (atoi (label labelPort)),
                               AppiumName := (case ct_Names c of [] \<Rightarrow> '''' | n # _ \<Rightarrow> drop 1 n),
                               AppiumStatus := ct_State c\<rparr>;
                       ts = label labelAppiumStartedAt
                   in if ts \<noteq> [] then d\<lparr>AppiumStartedAt := parse_or_zero ts\<rparr> else d
                 else if label labelRole = roleTests then
                   let d = dc1\<lparr>TestID := ct_ID c, TestStatus := ct_State c\<rparr>;
                       ts = label labelStartedAt; bp = label labelBattery;
                       d' = (if ts \<noteq> [] then d\<lparr>TestStartedAt := parse_or_zero ts\<rparr> else d)
                   in d'\<lparr>BatteryPct := (if bp \<noteq> [] then fst (atoi bp) else -1)\<rparr>
                 else dc1)
      in AList.update serial dc2 result)"

definition listManaged :: "dworld \<Rightarrow> manager \<Rightarrow> (string \<times> containers) list res \<times> manager" where
  "listManaged w m =
     (if isK8sMode m then listManagedK8s w m
      else (case managed_answer w (trace m) of Inl e \<Rightarrow> Inl e | Inr cs \<Rightarrow> Inr (foldl add_container [] cs),
            emit List_managed m))"

definition RunningDevices :: "dworld \<Rightarrow> manager \<Rightarrow> running_device list \<times> manager" where
  "RunningDevices w m =
     (let (r, m1) = listManaged w m
      in (case r of
            Inl _ \<Rightarrow> []
          | Inr managed \<Rightarrow>
              map (\<lambda>(serial, dc). \<lparr>rd_Serial = serial, rd_AppiumPort = AppiumPort dc,
                     rd_AppiumStartedAt = AppiumStartedAt dc, rd_TestStartedAt = TestStartedAt dc,
                     rd_HasTest = (TestStatus dc = ''running'')\<rparr>)
                (filter (\<lambda>(serial, dc). AppiumStatus dc = ''running'') (range_existing w (trace m1) managed)), m1))"

definition ensureNetwork :: "dworld \<Rightarrow> manager \<Rightarrow> unit res \<times> manager" where
  "ensureNetwork w m =
     (if isK8sMode m then (Inr (), m)
      else case networks w (trace m) of
             Inl e \<Rightarrow> (Inl e, emit Network_list m)
           | Inr nets \<Rightarrow>
               let m1 = emit Network_list m
               in if adbNetwork \<in> set nets then (Inr (), m1)
                  else (case network_error w (trace m1) of Some e \<Rightarrow> Inl e | None \<Rightarrow> Inr (), emit Network_create m1))"

section \<open>Events\<close>

definition logEvent :: "dworld \<Rightarrow> string \<Rightarrow> string \<Rightarrow> string \<Rightarrow> manager \<Rightarrow> manager" where
  "logEvent w serial model event m =
     (let ((path, vid, pid), m1) =
            (if event = ''connected'' then
               let (info, m') = host (USBInfo w serial) m in (info, m'\<lparr>usbCache := (usbCache m')(serial \<mapsto> info)\<rparr>)
             else (case usbCache m serial of Some info \<Rightarrow> info | None \<Rightarrow> ('''', '''', ''''), m))
      in case store m1 of
           None \<Rightarrow> m1
         | Some d \<Rightarrow>
             let (t, m2) = host (now w) m1;
                 e = \<lparr>ev_ID = 0, ev_Serial = serial, ev_Model = model, ev_Event = event, ev_TS = t,
                      ev_USBPath = path, ev_VID = vid, ev_PID = pid\<rparr>
             in snd (with_db w (\<lambda>err. InsertEvent err e) d m2))"

definition recordContainerEvent :: "dworld \<Rightarrow> string \<Rightarrow> string \<Rightarrow> string \<Rightarrow> manager \<Rightarrow> manager" where
  "recordContainerEvent w serial event detail m =
     (case store m of
        None \<Rightarrow> m
      | Some d \<Rightarrow>
          let (t, m1) = host (now w) m;
              e = \<lparr>ue_ID = 0, ue_TS = t, ue_Event = event, ue_Path = '''', ue_VID = '''', ue_PID = '''',
                   ue_Serial = serial, ue_Product = '''', ue_Vendor = '''', ue_InADB = False, ue_Detail = detail\<rparr>
          in notify (snd (with_db w (\<lambda>err. InsertUSBEvent err e) d m1)))"

section \<open>Creating and removing containers\<close>

definition remove_container :: "string \<Rightarrow> manager \<Rightarrow> manager" where
  "remove_container c m = emit (Remove c) m"

definition killPortHolder :: "dworld \<Rightarrow> int \<Rightarrow> manager \<Rightarrow> manager" where
  "killPortHolder w port m = snd (host (exec w [''sh'', ''-c'',
     ''ss -Htlnp '' @ CHR 0x27 # ''sport = :'' @ itoa port @ CHR 0x27 # '' | grep -oP '' @ CHR 0x27 # ''pid='' @
     CHR 0x5C # ''K[0-9]+'' @ CHR 0x27 # '' | xargs -r kill -9'']) m)"

definition appium_spec :: "config \<Rightarrow> device \<Rightarrow> int \<Rightarrow> string \<Rightarrow> spec" where
  "appium_spec c dev port started =
     (let address = (if ADBHost dev \<noteq> [] then ADBHost dev
                     else if c_ADBHost c \<noteq> [] then c_ADBHost c else ''localhost'');
          adb_port = (if ADBPort dev \<noteq> 0 then ADBPort dev else c_ADBPort c)
      in \<lparr>sp_Image = AppiumImage c,
          sp_Env = [''ANDROID_SERIAL='' @ Serial dev, ''ANDROID_ADB_SERVER_ADDRESS='' @ address,
                    ''ANDROID_ADB_SERVER_PORT='' @ itoa adb_port],
          sp_Cmd = [appium_cmd port],
          sp_Labels = [(labelManaged, ''true''), (labelDevice, Serial dev), (labelRole, roleAppium),
                       (labelPort, itoa port), (labelModel, Model dev), (labelAppiumStartedAt, started)],
          sp_NetworkMode = ''host'',
          sp_DNS = (if HubDNS c \<noteq> [] then [HubDNS c] else []),
          sp_ExtraHosts = []\<rparr>)"

definition createAppium :: "dworld \<Rightarrow> device \<Rightarrow> int \<Rightarrow> manager \<Rightarrow> containers res \<times> manager" where
  "createAppium w dev port m =
     (if isK8sMode m then createPodK8s w dev m
      else
        let name = ''appium-'' @ sanitize (Serial dev);
            m1 = killPortHolder w port m;
            (t, m2) = host (now w) m1;
            sp = appium_spec (cfg m2) dev port (fmt_rfc3339 t);
            answer = create_answer w (trace m2) name sp;
            m3 = emit (Create name sp) m2
        in case answer of
             Inl e \<Rightarrow>
               if contains e ''Conflict'' then
                 (let found = named_answer w (trace m3) (CHR ''/'' # name); m4 = emit (List_named (CHR ''/'' # name)) m3
                  in case found of
                       Inr (c # _) \<Rightarrow>
                         (let (p, ok) = atoi (val_of (ct_Labels c) labelPort)
                          in (Inr (no_containers\<lparr>AppiumID := ct_ID c, AppiumPort := (if ok then p else port),
                                AppiumName := name, AppiumStatus := ct_State c, DeviceModel := Model dev\<rparr>), m4))
                     | _ \<Rightarrow> (Inl (''create: '' @ e), m4))
               else (Inl (''create: '' @ e), m3)
           | Inr cid \<Rightarrow>
               let started = start_error w (trace m3) cid; m4 = emit (Start cid) m3
               in case started of
                    Some e \<Rightarrow> (Inl (''start: '' @ e), remove_container cid m4)
                  | None \<Rightarrow>
                      let (t', m5) = host (now w) m4
                      in (Inr (no_containers\<lparr>AppiumID := cid, AppiumPort := port, AppiumName := name,
                            AppiumStatus := ''running'', AppiumStartedAt := t', DeviceModel := Model dev\<rparr>), m5))"

definition test_spec :: "config \<Rightarrow> device \<Rightarrow> int \<Rightarrow> string \<Rightarrow> int \<Rightarrow> spec" where
  "test_spec c dev appium_port started batt =
     \<lparr>sp_Image = TestImage c,
      sp_Env = [''ANDROID_SERIAL='' @ Serial dev, ''APPIUM_HOST=host.docker.internal'',
                ''APPIUM_PORT='' @ itoa appium_port] @
               (if APKServeURL c \<noteq> [] then [''APIDEMOS_APK_URL='' @ APKServeURL c] else []),
      sp_Cmd = [],
      sp_Labels = [(labelManaged, ''true''), (labelDevice, Serial dev), (labelRole, roleTests),
                   (labelModel, Model dev), (labelStartedAt, started), (labelBattery, itoa batt)],
      sp_NetworkMode = '''', sp_DNS = [], sp_ExtraHosts = [''host.docker.internal:host-gateway'']\<rparr>"

text \<open>The last part of \<open>createTest\<close>: the container is created and started, and a goroutine waits for its
  end.\<close>

definition launch_test :: "dworld \<Rightarrow> string \<Rightarrow> spec \<Rightarrow> manager \<Rightarrow> unit res \<times> manager" where
  "launch_test w name sp m =
     (let m1 = emit (Create name sp) m
      in case create_answer w (trace m) name sp of
           Inl e \<Rightarrow> (Inl (''create: '' @ e), m1)
         | Inr cid \<Rightarrow>
             let m2 = emit (Start cid) m1
             in case start_error w (trace m1) cid of
                  Some e \<Rightarrow> (Inl (''start: '' @ e), remove_container cid m2)
                | None \<Rightarrow> (Inr (), if ReconcileFn m2 then emit (Go_wait cid) m2 else m2))"

definition createTest :: "dworld \<Rightarrow> device \<Rightarrow> int \<Rightarrow> manager \<Rightarrow> unit res \<times> manager" where
  "createTest w dev appium_port m =
     (if isK8sMode m then (Inr (), m)
      else
        let name = ''tests-'' @ sanitize (Serial dev);
            (t, m1) = host (now w) m;
            m2 = remove_container name m1;
            m3 = snd (host (\<lambda>tr. ((), GrantAppiumPermissions w (Serial dev) (adbEndpoint m2 (Serial dev)) tr)) m2);
            (gate, m4) = battery_gate w (Serial dev) m3
        in case gate of
             Inl e \<Rightarrow> (Inl e, m4)
           | Inr batt \<Rightarrow> launch_test w name (test_spec (cfg m4) dev appium_port (fmt_rfc3339 t) batt) m4)"

definition removeDevice :: "dworld \<Rightarrow> string \<Rightarrow> containers \<Rightarrow> manager \<Rightarrow> manager" where
  "removeDevice w serial dc m =
     (let m1 = (if isK8sMode m then (if TestID dc \<noteq> [] then snd (removePodK8s w (TestID dc) m) else m)
                else foldl (\<lambda>m c. if c = [] then m else remove_container c m) m [TestID dc, AppiumID dc])
      in if serial \<noteq> [] then recordContainerEvent w serial ''container_remove'' (AppiumName dc) m1 else m1)"

text \<open>Removing the pod or the container of a test that has ended.\<close>

definition remove_test :: "dworld \<Rightarrow> string \<Rightarrow> manager \<Rightarrow> manager" where
  "remove_test w c m = (if isK8sMode m then snd (removePodK8s w c m) else remove_container c m)"

section \<open>The result of a test\<close>

definition fresh_summary :: "string \<Rightarrow> containers \<Rightarrow> time \<Rightarrow> string \<Rightarrow> summary" where
  "fresh_summary serial dc t path =
     \<lparr>sm_Serial = serial, sm_Model = DeviceModel dc, sm_StartedAt = TestStartedAt dc, sm_FinishedAt = t,
      sm_Passing = 0, sm_Failing = 0, sm_Pending = 0, sm_Found = False, sm_TestSecs = 0, sm_TestLog = '''',
      sm_AppiumLog = '''', sm_Screenshot = '''', sm_BatteryPct = BatteryPct dc,
      sm_RunID = 0, sm_SessionMs = 0, sm_ApkMs = 0, sm_UsbPath = path\<rparr>"

text \<open>The logs of both containers; in Docker mode a test log that cannot be read ends the report at once
  (\<open>None\<close>).\<close>

definition docker_logs :: "dworld \<Rightarrow> string \<Rightarrow> string option \<Rightarrow> manager \<Rightarrow> string res \<times> manager" where
  "docker_logs w c tail m = (logs_answer w (trace m) c tail, emit (Logs c tail) m)"

definition collect_logs :: "dworld \<Rightarrow> containers \<Rightarrow> manager \<Rightarrow> (string \<times> string) option \<times> manager" where
  "collect_logs w dc m =
     (if isK8sMode m then
        let (t, m1) = podLogsK8s w (TestID dc) ''tests'' m; (a, m2) = podLogsK8s w (TestID dc) ''appium'' m1
        in (Some (case_sum (\<lambda>_. '''') id t, case_sum (\<lambda>_. '''') id a), m2)
      else
        let (t, m1) = docker_logs w (TestID dc) None m
        in case t of
             Inl _ \<Rightarrow> (None, m1)
           | Inr tlog \<Rightarrow>
               if AppiumID dc = [] then (Some (tlog, ''''), m1)
               else let (a, m2) = docker_logs w (AppiumID dc) (Some ''2000'') m1
                    in (Some (tlog, case_sum (\<lambda>_. '''') id a), m2))"

definition reportTestResult :: "dworld \<Rightarrow> string \<Rightarrow> containers \<Rightarrow> manager \<Rightarrow> summary \<times> manager" where
  "reportTestResult w serial dc m =
     (let path = (case usbCache m serial of Some (p, _) \<Rightarrow> p | None \<Rightarrow> '''');
          (t, m1) = host (now w) m;
          s0 = fresh_summary serial dc t path;
          (logs, m2) = collect_logs w dc m1
      in case logs of
           None \<Rightarrow> (s0, m2)
         | Some (tlog, alog) \<Rightarrow>
             let s1 = parse_appium_log (parse_test_log tlog (s0\<lparr>sm_TestLog := tlog, sm_AppiumLog := alog\<rparr>))
             in if \<not> sm_Found s1 \<or> sm_Failing s1 > 0 then
                  let (shot, m3) = host (TakeScreenshot w serial (adbEndpoint m2 serial)) m2
                  in (case shot of Inr png \<Rightarrow> if png \<noteq> [] then s1\<lparr>sm_Screenshot := png\<rparr> else s1 | Inl _ \<Rightarrow> s1, m3)
                else (s1, m2))"

section \<open>Saving it\<close>

definition file_call :: "dworld \<Rightarrow> dcall \<Rightarrow> manager \<Rightarrow> bool \<times> manager" where
  "file_call w c m = (file_error w (trace m) = None, emit c m)"

definition write_log :: "dworld \<Rightarrow> string \<Rightarrow> string \<Rightarrow> manager \<Rightarrow> bool \<times> manager" where
  "write_log w f data m = (if data \<noteq> [] then file_call w (Write f data) m else (False, m))"

text \<open>A call of the database when there is one; its error is only logged.\<close>

definition run_sql :: "dworld \<Rightarrow> (string option \<Rightarrow> db \<Rightarrow> 'a res \<times> db) \<Rightarrow> manager \<Rightarrow> manager" where
  "run_sql w f m = (case store m of None \<Rightarrow> m | Some d \<Rightarrow> snd (with_db w f d m))"

definition saveLogs :: "dworld \<Rightarrow> int \<Rightarrow> summary \<Rightarrow> manager \<Rightarrow> manager" where
  "saveLogs w run_id s m =
     (let dir = ''reports/logs/'' @ itoa run_id;
          (ok, m1) = file_call w (Mkdir dir) m
      in if \<not> ok then m1
         else let (t, m2) = write_log w (dir @ ''/test.log'') (sm_TestLog s) m1;
                  (a, m3) = write_log w (dir @ ''/appium.log'') (sm_AppiumLog s) m2;
                  (p, m4) = write_log w (dir @ ''/screen.png'') (sm_Screenshot s) m3;
                  m5 = (if p then run_sql w (\<lambda>e. SetHasScreenshot e run_id) m4 else m4)
              in if t \<or> a then run_sql w (\<lambda>e. SetHasLogs e run_id) m5 else m5)"

definition writeFileReport :: "dworld \<Rightarrow> summary \<Rightarrow> manager \<Rightarrow> manager" where
  "writeFileReport w s m =
     (let (ok, m1) = file_call w (Mkdir ''reports'') m
      in if \<not> ok then m1
         else snd (file_call w (Append (report_file (local_offset w) s) (report_text (local_offset w) s)) m1))"

definition run_of_summary :: "summary \<Rightarrow> run" where
  "run_of_summary s =
     \<lparr>run_ID = 0, run_Serial = sm_Serial s, run_Model = sm_Model s, run_FinishedAt = sm_FinishedAt s,
      run_Passing = sm_Passing s, run_Failing = sm_Failing s, run_Pending = sm_Pending s, run_Found = sm_Found s,
      run_BootOK = False, run_BootSeconds = 0, run_TotalSeconds = Seconds (totalDuration s),
      run_TestSeconds = sm_TestSecs s, run_HasLogs = False, run_HasScreenshot = False,
      run_BatteryPct = sm_BatteryPct s, run_BatteryTemp = 0, run_UsbPath = sm_UsbPath s,
      run_SessionMs = sm_SessionMs s, run_ApkMs = sm_ApkMs s\<rparr>"

definition saveTestResult :: "dworld \<Rightarrow> summary \<Rightarrow> manager \<Rightarrow> summary \<times> manager" where
  "saveTestResult w s m =
     (let (s', m') =
            (case store m of
               None \<Rightarrow> (s, m)
             | Some d \<Rightarrow>
                 let (r, m1) = with_db w (\<lambda>e. Insert e (run_of_summary s)) d m
                 in case r of
                      Inl _ \<Rightarrow> (s, m1)
                    | Inr i \<Rightarrow> let s1 = s\<lparr>sm_RunID := i\<rparr> in (s1, notify (saveLogs w i s1 m1)))
      in (s', writeFileReport w s' m'))"

definition updateBootResult :: "dworld \<Rightarrow> int \<Rightarrow> duration \<Rightarrow> bool \<Rightarrow> manager \<Rightarrow> manager" where
  "updateBootResult w run_id boot ok m =
     (case store m of
        None \<Rightarrow> m
      | Some d \<Rightarrow>
          if run_id = 0 then m
          else let (r, m1) = with_db w (\<lambda>e. UpdateBoot e run_id (Seconds boot) ok) d m
               in if is_ok r then notify m1 else m1)"

text \<open>\<open>rebootAndReport\<close>, which runs in a goroutine of its own; \<open>None\<close> is a wait that has not ended within
  the fuel.\<close>

definition clear_rebooting :: "string \<Rightarrow> manager \<Rightarrow> manager" where
  "clear_rebooting serial m = m\<lparr>rebooting := rebooting m - {serial}\<rparr>"

definition rebootAndReport :: "dworld \<Rightarrow> summary \<Rightarrow> manager \<Rightarrow> manager option" where
  "rebootAndReport w s m =
     (let serial = sm_Serial s; endpoint = adbEndpoint m serial; (r, m1) = host (Reboot w serial endpoint) m
      in case r of
           Inl _ \<Rightarrow> Some (updateBootResult w (sm_RunID s) 0 False (clear_rebooting serial m1))
         | Inr _ \<Rightarrow>
             (case WaitForReady (poll_fuel w) w serial (seconds 300) endpoint (trace m1) of
                None \<Rightarrow> None
              | Some ((boot, Some _), tr) \<Rightarrow>
                  Some (updateBootResult w (sm_RunID s) boot False (clear_rebooting serial (m1\<lparr>trace := tr\<rparr>)))
              | Some ((boot, None), tr) \<Rightarrow>
                  let m2 = m1\<lparr>trace := sleep (seconds 15) (GrantAppiumPermissions w serial endpoint tr)\<rparr>;
                      m3 = clear_rebooting serial (updateBootResult w (sm_RunID s) boot True m2)
                  in Some (if ReconcileFn m3 then emit Signal_reconcile m3 else m3)))"

definition PullImage :: "dworld \<Rightarrow> string \<Rightarrow> manager \<Rightarrow> unit res \<times> manager" where
  "PullImage w img m =
     ((case pull_answer w (trace m) img of
         Inl e \<Rightarrow> Inl (''image pull '' @ img @ '': '' @ e)
       | Inr (Some e) \<Rightarrow> Inl e
       | Inr None \<Rightarrow> Inr ()), emit (Image_pull img) m)"

definition BuildTestImage :: "dworld \<Rightarrow> string \<Rightarrow> string \<Rightarrow> manager \<Rightarrow> unit res \<times> manager" where
  "BuildTestImage w dir tag m =
     (let args = [''build'', ''-t'', tag, dir]; ((out, err), m1) = host (exec w (''docker'' # args)) m
      in (case err of None \<Rightarrow> Inr ()
          | Some e \<Rightarrow> Inl (''docker ['' @ join '' '' args @ '']: '' @ e), m1))"

section \<open>Reconcile\<close>

text \<open>The branch a connected device takes in one cycle.\<close>

datatype outcome =
    Wrong_mode | Appium_failed string | Tests_disabled | Tests_running
  | Stale_removed string | Test_reported string summary | Still_rebooting
  | Test_failed string | Test_started

definition load_configs :: "dworld \<Rightarrow> manager \<Rightarrow> (string \<rightharpoonup> device_config) \<times> manager" where
  "load_configs w m =
     (case store m of
        None \<Rightarrow> (Map.empty, m)
      | Some d \<Rightarrow>
          (case AllDeviceConfigs (sql_error w (trace m)) d of Inl _ \<Rightarrow> Map.empty | Inr c \<Rightarrow> c, emit Sql m))"

text \<open>The endpoint of every device, and the ready ones by serial.\<close>

definition register_device :: "manager \<times> (string \<times> device) list \<Rightarrow> device \<Rightarrow> manager \<times> (string \<times> device) list" where
  "register_device st d =
     (case st of (m, ready) \<Rightarrow>
        (m\<lparr>adbEndpoints := (adbEndpoints m)(Serial d :=
              if ADBHost d \<noteq> [] then Some (ADBHost d @ '':'' @ itoa (ADBPort d)) else None)\<rparr>,
         if IsReady d then AList.update (Serial d) d ready else ready))"

definition drop_device ::
  "dworld \<Rightarrow> (string \<rightharpoonup> device_config) \<Rightarrow> (string \<times> device) list \<Rightarrow> manager \<Rightarrow> string \<times> containers \<Rightarrow> manager" where
  "drop_device w confs ready m x =
     (case x of (serial, dc) \<Rightarrow>
        if map_of ready serial \<noteq> None \<or> \<not> vidPidOK m confs serial then m
        else removeDevice w serial dc (logEvent w serial (DeviceModel dc) ''disconnected'' m))"

text \<open>The Appium part of a device: \<open>Inl\<close> when the code goes on with the next device, else its containers.
  \<open>clear_exited\<close> removes an Appium that has exited, \<open>adopt\<close> takes over the fields of a new one.\<close>

definition exited_appium :: "containers \<Rightarrow> bool" where
  "exited_appium dc \<longleftrightarrow> AppiumID dc \<noteq> [] \<and> AppiumStatus dc \<noteq> ''running''"

definition clear_exited :: "dworld \<Rightarrow> containers \<Rightarrow> manager \<Rightarrow> containers \<times> manager" where
  "clear_exited w dc m =
     (if \<not> exited_appium dc then (dc, m)
      else if isK8sMode m then
        (dc\<lparr>TestID := '''', TestStatus := '''', AppiumID := '''', AppiumStatus := ''''\<rparr>, snd (removePodK8s w (TestID dc) m))
      else (dc\<lparr>AppiumID := '''', AppiumStatus := ''''\<rparr>, remove_container (AppiumID dc) m))"

definition adopt :: "bool \<Rightarrow> containers \<Rightarrow> containers \<Rightarrow> containers" where
  "adopt k8s dc new =
     (let d = dc\<lparr>AppiumID := AppiumID new, AppiumPort := AppiumPort new, AppiumName := AppiumName new,
                AppiumStatus := AppiumStatus new, DeviceModel := DeviceModel new\<rparr>
      in if k8s then d\<lparr>TestID := TestID new, TestStatus := TestStatus new,
                       TestStartedAt := TestStartedAt new, BatteryPct := BatteryPct new\<rparr> else d)"

definition found :: "(string \<times> containers) list \<Rightarrow> string \<Rightarrow> containers" where
  "found existing serial = (case map_of existing serial of None \<Rightarrow> no_containers | Some d \<Rightarrow> d)"

definition ensure_appium ::
  "dworld \<Rightarrow> (string \<rightharpoonup> device_config) \<Rightarrow> string \<Rightarrow> device \<Rightarrow> (string \<times> containers) list \<Rightarrow> manager
   \<Rightarrow> (outcome + containers) \<times> (string \<times> containers) list \<times> manager" where
  "ensure_appium w confs serial dev existing m =
     (let running = (map_of existing serial \<noteq> None); dc = found existing serial
      in if running \<and> AppiumID dc \<noteq> [] \<and> \<not> exited_appium dc then (Inr dc, existing, m)
         else if \<not> vidPidOK m confs serial then (Inl Wrong_mode, existing, m)
         else
           let (dc1, m1) = clear_exited w dc m;
               port = (if AppiumPort dc1 = 0 then nextPort m1 existing else AppiumPort dc1);
               (r, m2) = createAppium w dev port m1
           in case r of
                Inl e \<Rightarrow> (Inl (Appium_failed e), existing, m2)
              | Inr new \<Rightarrow>
                  let m3 = recordContainerEvent w serial ''appium_create'' (AppiumName new) m2;
                      dc2 = adopt (isK8sMode m3) dc1 new;
                      m4 = (if running then m3 else logEvent w serial (Model dev) ''connected'' m3)
                  in (Inr dc2, AList.update serial dc2 existing, m4))"

text \<open>The test part.\<close>

definition ensure_test :: "dworld \<Rightarrow> string \<Rightarrow> device \<Rightarrow> containers \<Rightarrow> manager \<Rightarrow> outcome \<times> manager" where
  "ensure_test w serial dev dc m =
     (if TestImage (cfg m) = [] then (Tests_disabled, m)
      else if TestID dc \<noteq> [] \<and> TestStatus dc = ''running'' then (Tests_running, m)
      else if TestID dc \<noteq> [] then
        (if TestID dc \<in> reported m then (Stale_removed (TestID dc), remove_test w (TestID dc) m)
         else let m1 = m\<lparr>reported := insert (TestID dc) (reported m)\<rparr>;
                  (s, m2) = reportTestResult w serial dc m1;
                  m3 = remove_test w (TestID dc) m2;
                  (s', m4) = saveTestResult w s m3;
                  m5 = m4\<lparr>rebooting := insert serial (rebooting m4)\<rparr>
              in (Test_reported (TestID dc) s', emit (Go_reboot s') m5))
      else if serial \<in> rebooting m then (Still_rebooting, m)
      else let (r, m1) = createTest w dev (AppiumPort dc) m
           in case r of
                Inl e \<Rightarrow> (Test_failed e, m1)
              | Inr _ \<Rightarrow> (Test_started, recordContainerEvent w serial ''test_create'' (''tests-'' @ serial) m1))"

definition reconcile_device ::
  "dworld \<Rightarrow> (string \<rightharpoonup> device_config) \<Rightarrow> string \<times> device \<Rightarrow> (string \<times> containers) list \<Rightarrow> manager
   \<Rightarrow> outcome \<times> (string \<times> containers) list \<times> manager" where
  "reconcile_device w confs x existing m =
     (case x of (serial, dev) \<Rightarrow>
        let (r, existing', m1) = ensure_appium w confs serial dev existing m
        in case r of
             Inl out \<Rightarrow> (out, existing', m1)
           | Inr dc \<Rightarrow> let (out, m2) = ensure_test w serial dev dc m1 in (out, existing', m2))"

fun reconcile_devices ::
  "dworld \<Rightarrow> (string \<rightharpoonup> device_config) \<Rightarrow> (string \<times> device) list \<Rightarrow> (string \<times> containers) list \<Rightarrow> manager
   \<Rightarrow> (string \<times> outcome) list \<times> manager" where
  "reconcile_devices w confs [] existing m = ([], m)"
| "reconcile_devices w confs (x # xs) existing m =
     (let (out, existing', m1) = reconcile_device w confs x existing m;
          (outs, m2) = reconcile_devices w confs xs existing' m1
      in ((fst x, out) # outs, m2))"

definition Reconcile :: "dworld \<Rightarrow> device list \<Rightarrow> manager \<Rightarrow> (unit res \<times> (string \<times> outcome) list) \<times> manager" where
  "Reconcile w devices m =
     (let (net, m1) = ensureNetwork w m
      in case net of
           Inl e \<Rightarrow> ((Inl (''ensure network: '' @ e), []), m1)
         | Inr _ \<Rightarrow>
             let (listed, m2) = listManaged w m1
             in case listed of
                  Inl e \<Rightarrow> ((Inl (''list managed containers: '' @ e), []), m2)
                | Inr existing \<Rightarrow>
                    let (confs, m3) = load_configs w m2;
                        (m4, ready) = foldl register_device (m3, []) devices;
                        m5 = foldl (drop_device w confs ready) m4 (range_existing w (trace m4) existing);
                        (outs, m6) = reconcile_devices w confs (range_ready w (trace m5) ready) existing m5
                    in ((Inr (), outs), m6))"

definition CheckPods :: "manager \<Rightarrow> manager" where
  "CheckPods m = m"

end
