(* ===== verification/Docker_Facts.thy ===== *)
theory Docker_Facts
  imports Docker_Manager
begin

text \<open>
  What holds of the Docker manager of \<open>Docker_Manager\<close>: which operations leave which parts of its state
  alone (the collection \<open>frame\<close>), the exactly-once contract of the reports (\<open>once\<close>), the safety of test
  starts, and the properties of the manager.
\<close>

section \<open>What the operations leave alone\<close>

text \<open>\<open>core\<close> is what only \<open>ensure_test\<close> and \<open>rebootAndReport\<close> change.\<close>

definition core :: "manager \<Rightarrow> config \<times> bool \<times> bool \<times> string set \<times> string set" where
  "core m = (cfg m, NotifyFn m, ReconcileFn m, rebooting m, reported m)"

lemma core_eqD:
  assumes "core m' = core m"
  shows "cfg m' = cfg m" "NotifyFn m' = NotifyFn m" "ReconcileFn m' = ReconcileFn m"
    "rebooting m' = rebooting m" "reported m' = reported m" "isK8sMode m' = isK8sMode m"
  using assms by (auto simp: core_def isK8sMode_def)

lemma core_basic [frame]:
  "core (snd (host f m)) = core m" "core (emit c m) = core m" "core (notify m) = core m"
  "core (m\<lparr>trace := tr\<rparr>) = core m" "core (m\<lparr>store := st\<rparr>) = core m" "core (m\<lparr>usbCache := u\<rparr>) = core m"
  "core (m\<lparr>adbEndpoints := e\<rparr>) = core m"
  by (simp_all add: core_def host_def emit_def notify_def case_prod_beta)

lemma core_with_db [frame]: "core (snd (with_db w f d m)) = core m"
  by (simp add: with_db_def case_prod_beta frame)

lemma core_run_sql [frame]: "core (run_sql w f m) = core m"
  by (simp add: run_sql_def frame split: option.splits)

lemma core_removePod [frame]: "core (snd (removePodK8s w p m)) = core m"
  by (simp add: removePodK8s_def case_prod_beta frame)

lemma core_remove [frame]: "core (remove_container c m) = core m" "core (remove_test w c m) = core m"
  by (simp_all add: remove_container_def remove_test_def frame)

lemma core_battery [frame]: "core (snd (battery_gate w s m)) = core m"
  by (simp add: battery_gate_def case_prod_beta frame)

lemma core_createPod [frame]: "core (snd (createPodK8s w dev m)) = core m"
  by (simp add: createPodK8s_def Let_def case_prod_beta frame split: sum.splits)

lemma core_createAppium [frame]: "core (snd (createAppium w dev p m)) = core m"
  by (simp add: createAppium_def killPortHolder_def Let_def case_prod_beta frame
      split: sum.splits option.splits list.splits)

lemma core_launch [frame]: "core (snd (launch_test w n sp m)) = core m"
  by (simp add: launch_test_def Let_def frame split: sum.splits option.splits)

lemma core_createTest [frame]: "core (snd (createTest w dev p m)) = core m"
  by (simp add: createTest_def Let_def case_prod_beta frame split: sum.splits)

lemma core_logEvent [frame]: "core (logEvent w s md e m) = core m"
  by (simp add: logEvent_def Let_def case_prod_beta frame split: option.splits)

lemma core_recordEvent [frame]: "core (recordContainerEvent w s e d m) = core m"
  by (simp add: recordContainerEvent_def Let_def case_prod_beta frame split: option.splits)

lemma core_removeDevice [frame]: "core (removeDevice w s dc m) = core m"
  by (simp add: removeDevice_def Let_def frame)

lemma core_collect [frame]: "core (snd (collect_logs w dc m)) = core m"
  by (simp add: collect_logs_def podLogsK8s_def docker_logs_def Let_def case_prod_beta frame split: sum.splits)

lemma core_report [frame]: "core (snd (reportTestResult w s dc m)) = core m"
  by (simp add: reportTestResult_def Let_def case_prod_beta frame split: option.splits)

lemma core_files [frame]: "core (snd (file_call w c m)) = core m" "core (snd (write_log w f x m)) = core m"
  by (simp_all add: file_call_def write_log_def frame)

lemma core_saveLogs [frame]: "core (saveLogs w i s m) = core m"
  by (simp add: saveLogs_def Let_def case_prod_beta frame)

lemma core_writeFileReport [frame]: "core (writeFileReport w s m) = core m"
  by (simp add: writeFileReport_def Let_def case_prod_beta frame)

lemma core_saveTestResult [frame]: "core (snd (saveTestResult w s m)) = core m"
  by (simp add: saveTestResult_def Let_def case_prod_beta frame split: option.splits sum.splits)

lemma core_updateBoot [frame]: "core (updateBootResult w i b ok m) = core m"
  by (simp add: updateBootResult_def Let_def case_prod_beta frame split: option.splits)

lemma core_listing [frame]:
  "core (snd (listManaged w m)) = core m" "core (snd (ensureNetwork w m)) = core m" "core (snd (load_configs w m)) = core m"
  by (simp_all add: listManaged_def listManagedK8s_def ensureNetwork_def load_configs_def Let_def case_prod_beta frame
      split: sum.splits option.splits)

lemma core_register [frame]: "core (fst (foldl register_device (m, ready) ds)) = core m"
proof (induction ds arbitrary: m ready)
  case (Cons d ds)
  then show ?case by (simp add: register_device_def frame)
qed simp

lemma core_drop [frame]: "core (foldl (drop_device w confs ready) m xs) = core m"
proof (induction xs arbitrary: m)
  case (Cons x xs)
  then show ?case by (simp add: drop_device_def case_prod_beta frame)
qed simp

lemma core_clear_exited [frame]: "core (snd (clear_exited w dc m)) = core m"
  by (simp add: clear_exited_def frame)

text \<open>The cases of \<open>ensure_appium\<close>, with the intermediate states named.\<close>

lemma ensure_appium_cases:
  obtains (kept) "map_of existing serial = Some (found existing serial)" "AppiumID (found existing serial) \<noteq> []"
      "AppiumStatus (found existing serial) = ''running''"
      "ensure_appium w confs serial dev existing m = (Inr (found existing serial), existing, m)"
  | (wrong) "\<not> vidPidOK m confs serial"
      "ensure_appium w confs serial dev existing m = (Inl Wrong_mode, existing, m)"
  | (failed) dc1 m1 port e m2 where "clear_exited w (found existing serial) m = (dc1, m1)"
      "createAppium w dev port m1 = (Inl e, m2)"
      "ensure_appium w confs serial dev existing m = (Inl (Appium_failed e), existing, m2)"
  | (created) dc1 m1 port new m2 m3 where "clear_exited w (found existing serial) m = (dc1, m1)"
      "port = (if AppiumPort dc1 = 0 then nextPort m1 existing else AppiumPort dc1)"
      "createAppium w dev port m1 = (Inr new, m2)"
      "m3 = recordContainerEvent w serial ''appium_create'' (AppiumName new) m2"
      "ensure_appium w confs serial dev existing m =
        (Inr (adopt (isK8sMode m3) dc1 new), AList.update serial (adopt (isK8sMode m3) dc1 new) existing,
         if map_of existing serial \<noteq> None then m3 else logEvent w serial (Model dev) ''connected'' m3)"
proof -
  obtain dc1 m1 where c: "clear_exited w (found existing serial) m = (dc1, m1)"
    by (cases "clear_exited w (found existing serial) m")
  let ?port = "if AppiumPort dc1 = 0 then nextPort m1 existing else AppiumPort dc1"
  obtain r m2 where a: "createAppium w dev ?port m1 = (r, m2)" by (cases "createAppium w dev ?port m1")
  consider (1) "map_of existing serial \<noteq> None \<and> AppiumID (found existing serial) \<noteq> [] \<and> \<not> exited_appium (found existing serial)"
    | (2) "\<not> (map_of existing serial \<noteq> None \<and> AppiumID (found existing serial) \<noteq> [] \<and> \<not> exited_appium (found existing serial))"
        "\<not> vidPidOK m confs serial"
    | (3) "\<not> (map_of existing serial \<noteq> None \<and> AppiumID (found existing serial) \<noteq> [] \<and> \<not> exited_appium (found existing serial))"
        "vidPidOK m confs serial" by blast
  then show thesis
  proof cases
    case 1
    then show thesis by (intro kept) (auto simp: found_def exited_appium_def ensure_appium_def Let_def)
  next
    case 2
    from 2(2) show thesis by (rule wrong) (use 2 in \<open>simp only: ensure_appium_def Let_def if_False if_True simp_thms\<close>)
  next
    case 3
    then have e: "ensure_appium w confs serial dev existing m =
      (case r of Inl e \<Rightarrow> (Inl (Appium_failed e), existing, m2)
       | Inr new \<Rightarrow> let m3 = recordContainerEvent w serial ''appium_create'' (AppiumName new) m2;
            dc2 = adopt (isK8sMode m3) dc1 new
         in (Inr dc2, AList.update serial dc2 existing,
             if map_of existing serial \<noteq> None then m3 else logEvent w serial (Model dev) ''connected'' m3))"
      by (simp only: ensure_appium_def Let_def c a if_False simp_thms case_prod_conv split: sum.splits)
    show thesis
    proof (cases r)
      case (Inl x)
      with a e show thesis by (intro failed [OF c]) (simp_all only: sum.case)
    next
      case (Inr new)
      with a e show thesis by (intro created [OF c refl]) (simp_all only: sum.case Let_def)
    qed
  qed
qed

lemma core_ensure_appium [frame]: "core (snd (snd (ensure_appium w confs s dev ex m))) = core m"
proof (cases rule: ensure_appium_cases [of ex s w confs dev m])
  case (failed dc1 m1 port e m2)
  then show ?thesis using core_clear_exited [of w "found ex s" m] core_createAppium [of w dev port m1] by simp
next
  case (created dc1 m1 port new m2 m3)
  have "core m3 = core m"
    using created core_clear_exited [of w "found ex s" m] core_createAppium [of w dev port m1] by (simp add: frame)
  then show ?thesis unfolding created(5) by (simp add: frame)
qed simp_all

section \<open>Which operations start tests and reboots\<close>

text \<open>The calls that create a test container or start a reboot.\<close>

definition special :: "dcall \<Rightarrow> bool" where
  "special c = (case c of Go_reboot s \<Rightarrow> True
     | Create n sp \<Rightarrow> val_of (sp_Labels sp) labelRole = roleTests | _ \<Rightarrow> False)"

definition specials :: "manager \<Rightarrow> dcall list" where
  "specials m = filter special (others (trace m))"

lemma special_simps [simp]:
  "\<not> special Network_list" "\<not> special Network_create" "\<not> special List_managed" "\<not> special (List_named n)"
  "\<not> special (Start c)" "\<not> special (Remove c)" "\<not> special (Logs c tail)" "\<not> special (Image_pull i)"
  "\<not> special (Kubectl_apply a inp)" "\<not> special (Mkdir f)" "\<not> special (Write f x)" "\<not> special (Append f x)"
  "\<not> special Sql" "\<not> special Notify" "\<not> special Signal_reconcile" "\<not> special (Go_wait c)" "special (Go_reboot s)"
  "\<not> special (Create n (appium_spec cf dev p t))" "special (Create n (test_spec cf dev p t b))"
  by (simp_all add: special_def appium_spec_def test_spec_def val_of_def labelRole_def labelManaged_def
      labelDevice_def roleAppium_def roleTests_def Let_def)

text \<open>The same calls with the history before each, and the endpoints of the devices.\<close>

definition noted_calls :: "manager \<Rightarrow> (dcall \<times> dtrace) list \<times> (string \<rightharpoonup> string)" where
  "noted_calls m = (filter (\<lambda>x. special (fst x)) (other_calls (trace m)), adbEndpoints m)"

lemma noted_calls_host [frame]:
  "(\<And>tr. other_calls (snd (f tr)) = other_calls tr) \<Longrightarrow> noted_calls (snd (host f m)) = noted_calls m"
  by (simp add: noted_calls_def host_def case_prod_beta)

lemma noted_calls_basic [frame]:
  "noted_calls (emit c m) = (if special c then ((c, trace m) # fst (noted_calls m), snd (noted_calls m)) else noted_calls m)"
  "noted_calls (m\<lparr>store := st\<rparr>) = noted_calls m" "noted_calls (m\<lparr>usbCache := u\<rparr>) = noted_calls m"
  "noted_calls (m\<lparr>reported := r\<rparr>) = noted_calls m" "noted_calls (m\<lparr>rebooting := b\<rparr>) = noted_calls m" "noted_calls (notify m) = noted_calls m"
  by (simp_all add: noted_calls_def emit_def notify_def)

lemma noted_calls_with_db [frame]: "noted_calls (snd (with_db w f d m)) = noted_calls m"
  by (simp add: with_db_def case_prod_beta frame)

lemma noted_calls_run_sql [frame]: "noted_calls (run_sql w f m) = noted_calls m"
  by (simp add: run_sql_def frame split: option.splits)

lemma noted_calls_removePod [frame]: "noted_calls (snd (removePodK8s w p m)) = noted_calls m"
  by (simp add: removePodK8s_def case_prod_beta frame)

lemma noted_calls_remove [frame]: "noted_calls (remove_container c m) = noted_calls m" "noted_calls (remove_test w c m) = noted_calls m"
  by (simp_all add: remove_container_def remove_test_def frame)

lemma noted_calls_battery [frame]: "noted_calls (snd (battery_gate w s m)) = noted_calls m"
  by (simp add: battery_gate_def case_prod_beta frame)

lemma noted_calls_createPod [frame]: "noted_calls (snd (createPodK8s w dev m)) = noted_calls m"
  by (simp add: createPodK8s_def Let_def case_prod_beta frame split: sum.splits)

lemma noted_calls_createAppium [frame]: "noted_calls (snd (createAppium w dev p m)) = noted_calls m"
  by (simp add: createAppium_def killPortHolder_def Let_def case_prod_beta frame
      split: sum.splits option.splits list.splits)

lemma noted_calls_logEvent [frame]: "noted_calls (logEvent w s md e m) = noted_calls m"
  by (simp add: logEvent_def Let_def case_prod_beta frame split: option.splits)

lemma noted_calls_recordEvent [frame]: "noted_calls (recordContainerEvent w s e d m) = noted_calls m"
  by (simp add: recordContainerEvent_def Let_def case_prod_beta frame split: option.splits)

lemma noted_calls_removeDevice [frame]: "noted_calls (removeDevice w s dc m) = noted_calls m"
  by (simp add: removeDevice_def Let_def frame)

lemma noted_calls_collect [frame]: "noted_calls (snd (collect_logs w dc m)) = noted_calls m"
  by (simp add: collect_logs_def podLogsK8s_def docker_logs_def Let_def case_prod_beta frame split: sum.splits)

lemma noted_calls_report [frame]: "noted_calls (snd (reportTestResult w s dc m)) = noted_calls m"
  by (simp add: reportTestResult_def Let_def case_prod_beta frame split: option.splits)

lemma noted_calls_files [frame]:
  "\<not> special c \<Longrightarrow> noted_calls (snd (file_call w c m)) = noted_calls m" "noted_calls (snd (write_log w f x m)) = noted_calls m"
  by (simp_all add: file_call_def write_log_def frame)

lemma noted_calls_saveLogs [frame]: "noted_calls (saveLogs w i s m) = noted_calls m"
  by (simp add: saveLogs_def Let_def case_prod_beta frame)

lemma noted_calls_writeFileReport [frame]: "noted_calls (writeFileReport w s m) = noted_calls m"
  by (simp add: writeFileReport_def Let_def case_prod_beta frame)

lemma noted_calls_saveTestResult [frame]: "noted_calls (snd (saveTestResult w s m)) = noted_calls m"
  by (simp add: saveTestResult_def Let_def case_prod_beta frame split: option.splits sum.splits)

lemma noted_calls_updateBoot [frame]: "noted_calls (updateBootResult w i b ok m) = noted_calls m"
  by (simp add: updateBootResult_def Let_def case_prod_beta frame split: option.splits)

lemma noted_calls_listing [frame]:
  "noted_calls (snd (listManaged w m)) = noted_calls m" "noted_calls (snd (ensureNetwork w m)) = noted_calls m"
  "noted_calls (snd (load_configs w m)) = noted_calls m"
  by (simp_all add: listManaged_def listManagedK8s_def ensureNetwork_def load_configs_def Let_def case_prod_beta frame
      split: sum.splits option.splits)

lemma noted_calls_register: "fst (noted_calls (fst (foldl register_device (m, ready) ds))) = fst (noted_calls m)"
proof (induction ds arbitrary: m ready)
  case (Cons d ds)
  then show ?case by (simp add: register_device_def noted_calls_def)
qed simp

lemma noted_calls_drop [frame]: "noted_calls (foldl (drop_device w confs ready) m xs) = noted_calls m"
proof (induction xs arbitrary: m)
  case (Cons x xs)
  then show ?case by (simp add: drop_device_def case_prod_beta frame)
qed simp

lemma noted_calls_clear_exited [frame]: "noted_calls (snd (clear_exited w dc m)) = noted_calls m"
  by (simp add: clear_exited_def frame)

lemma noted_calls_ensure_appium [frame]: "noted_calls (snd (snd (ensure_appium w confs s dev ex m))) = noted_calls m"
proof (cases rule: ensure_appium_cases [of ex s w confs dev m])
  case (failed dc1 m1 port e m2)
  then show ?thesis using noted_calls_clear_exited [of w "found ex s" m] noted_calls_createAppium [of w dev port m1] by simp
next
  case (created dc1 m1 port new m2 m3)
  have "noted_calls m3 = noted_calls m"
    using created noted_calls_clear_exited [of w "found ex s" m] noted_calls_createAppium [of w dev port m1] by (simp add: frame)
  then show ?thesis unfolding created(5) by (simp add: frame)
qed simp_all

lemma noted_calls_launch:
  "noted_calls (snd (launch_test w n sp m)) =
    (if special (Create n sp) then ((Create n sp, trace m) # fst (noted_calls m), snd (noted_calls m)) else noted_calls m)"
  by (simp add: launch_test_def Let_def frame split: sum.splits option.splits)

text \<open>The calls alone.\<close>

lemma specials_noted_calls: "specials m = map fst (fst (noted_calls m))"
  by (simp add: specials_def noted_calls_def others_calls filter_map comp_def case_prod_beta)

lemma specials_eq: "noted_calls m' = noted_calls m \<Longrightarrow> specials m' = specials m"
  by (simp add: specials_noted_calls)

lemma specials_basic [frame]:
  "specials (emit c m) = (if special c then c # specials m else specials m)"
  "specials (m\<lparr>store := st\<rparr>) = specials m" "specials (m\<lparr>usbCache := u\<rparr>) = specials m"
  "specials (m\<lparr>adbEndpoints := e\<rparr>) = specials m" "specials (m\<lparr>reported := r\<rparr>) = specials m"
  "specials (m\<lparr>rebooting := b\<rparr>) = specials m" "specials (notify m) = specials m"
  by (simp_all add: specials_def emit_def notify_def)

lemma specials_register [frame]: "specials (fst (foldl register_device (m, ready) ds)) = specials m"
  by (simp add: specials_noted_calls noted_calls_register)

lemma specials_launch [frame]:
  "specials (snd (launch_test w n sp m)) = (if special (Create n sp) then Create n sp # specials m else specials m)"
  by (simp add: specials_noted_calls noted_calls_launch)

lemmas specials_host [frame] = noted_calls_host [THEN specials_eq]
lemmas specials_with_db [frame] = noted_calls_with_db [THEN specials_eq]
lemmas specials_run_sql [frame] = noted_calls_run_sql [THEN specials_eq]
lemmas specials_removePod [frame] = noted_calls_removePod [THEN specials_eq]
lemmas specials_remove [frame] = noted_calls_remove [THEN specials_eq]
lemmas specials_battery [frame] = noted_calls_battery [THEN specials_eq]
lemmas specials_createPod [frame] = noted_calls_createPod [THEN specials_eq]
lemmas specials_createAppium [frame] = noted_calls_createAppium [THEN specials_eq]
lemmas specials_logEvent [frame] = noted_calls_logEvent [THEN specials_eq]
lemmas specials_recordEvent [frame] = noted_calls_recordEvent [THEN specials_eq]
lemmas specials_removeDevice [frame] = noted_calls_removeDevice [THEN specials_eq]
lemmas specials_collect [frame] = noted_calls_collect [THEN specials_eq]
lemmas specials_report [frame] = noted_calls_report [THEN specials_eq]
lemmas specials_files [frame] = noted_calls_files [THEN specials_eq]
lemmas specials_saveLogs [frame] = noted_calls_saveLogs [THEN specials_eq]
lemmas specials_writeFileReport [frame] = noted_calls_writeFileReport [THEN specials_eq]
lemmas specials_saveTestResult [frame] = noted_calls_saveTestResult [THEN specials_eq]
lemmas specials_updateBoot [frame] = noted_calls_updateBoot [THEN specials_eq]
lemmas specials_listing [frame] = noted_calls_listing [THEN specials_eq]
lemmas specials_drop [frame] = noted_calls_drop [THEN specials_eq]
lemmas specials_clear_exited [frame] = noted_calls_clear_exited [THEN specials_eq]
lemmas specials_ensure_appium [frame] = noted_calls_ensure_appium [THEN specials_eq]

section \<open>Each container is reported once\<close>

text \<open>The ids that a list of outcomes reports.\<close>

fun reported_id :: "string \<times> outcome \<Rightarrow> string list" where
  "reported_id (serial, Test_reported c s) = [c]"
| "reported_id _ = []"

definition reported_ids :: "(string \<times> outcome) list \<Rightarrow> string list" where
  "reported_ids outs = concat (map reported_id outs)"

lemma reported_ids_Cons: "reported_ids (x # outs) = reported_id x @ reported_ids outs"
  by (simp add: reported_ids_def)

text \<open>The cases of \<open>ensure_test\<close> in the same way.\<close>

lemma ensure_test_cases:
  obtains (disabled) "TestImage (cfg m) = []" "ensure_test w s dev dc m = (Tests_disabled, m)"
  | (running) "TestID dc \<noteq> []" "TestStatus dc = ''running''" "ensure_test w s dev dc m = (Tests_running, m)"
  | (stale) "TestID dc \<in> reported m" "ensure_test w s dev dc m = (Stale_removed (TestID dc), remove_test w (TestID dc) m)"
  | (ended) r m2 s' m4 where "TestID dc \<noteq> []" "TestID dc \<notin> reported m"
      "reportTestResult w s dc (m\<lparr>reported := insert (TestID dc) (reported m)\<rparr>) = (r, m2)"
      "saveTestResult w r (remove_test w (TestID dc) m2) = (s', m4)"
      "ensure_test w s dev dc m =
        (Test_reported (TestID dc) s', emit (Go_reboot s') (m4\<lparr>rebooting := insert s (rebooting m4)\<rparr>))"
  | (waiting) "TestID dc = []" "s \<in> rebooting m" "ensure_test w s dev dc m = (Still_rebooting, m)"
  | (failed) e m1 where "TestID dc = []" "s \<notin> rebooting m" "createTest w dev (AppiumPort dc) m = (Inl e, m1)"
      "ensure_test w s dev dc m = (Test_failed e, m1)"
  | (started) m1 where "TestID dc = []" "s \<notin> rebooting m" "createTest w dev (AppiumPort dc) m = (Inr (), m1)"
      "ensure_test w s dev dc m = (Test_started, recordContainerEvent w s ''test_create'' (''tests-'' @ s) m1)"
proof -
  obtain r m2 where r: "reportTestResult w s dc (m\<lparr>reported := insert (TestID dc) (reported m)\<rparr>) = (r, m2)"
    by (cases "reportTestResult w s dc (m\<lparr>reported := insert (TestID dc) (reported m)\<rparr>)")
  obtain s' m4 where s': "saveTestResult w r (remove_test w (TestID dc) m2) = (s', m4)"
    by (cases "saveTestResult w r (remove_test w (TestID dc) m2)")
  obtain x m1 where x: "createTest w dev (AppiumPort dc) m = (x, m1)" by (cases "createTest w dev (AppiumPort dc) m")
  note def = ensure_test_def [of w s dev dc m, unfolded r s' x Let_def case_prod_conv]
  consider "TestImage (cfg m) = []" | "TestImage (cfg m) \<noteq> []" "TestID dc \<noteq> [] \<and> TestStatus dc = ''running''"
    | "TestImage (cfg m) \<noteq> []" "TestID dc \<noteq> []" "TestStatus dc \<noteq> ''running''" "TestID dc \<in> reported m"
    | "TestImage (cfg m) \<noteq> []" "TestID dc \<noteq> []" "TestStatus dc \<noteq> ''running''" "TestID dc \<notin> reported m"
    | "TestImage (cfg m) \<noteq> []" "TestID dc = []" "s \<in> rebooting m"
    | "TestImage (cfg m) \<noteq> []" "TestID dc = []" "s \<notin> rebooting m" by blast
  then show thesis
  proof cases
    case 1 then show thesis by (intro disabled) (simp_all add: def)
  next
    case 2 then show thesis by (intro running) (simp_all add: def)
  next
    case 3 then show thesis by (intro stale) (simp_all add: def)
  next
    case 4 then show thesis by (intro ended [OF _ _ r s']) (simp_all add: def)
  next
    case 5 then show thesis by (intro waiting) (simp_all add: def)
  next
    case 6
    show thesis
    proof (cases x)
      case (Inl e)
      with 6 x show thesis by (intro failed) (simp_all add: def)
    next
      case (Inr u)
      with 6 x show thesis by (intro started) (simp_all add: def)
    qed
  qed
qed

lemma ensure_test_reports:
  "reported (snd (ensure_test w s dev dc m)) = reported m \<union> set (reported_id (s, fst (ensure_test w s dev dc m))) \<and>
   set (reported_id (s, fst (ensure_test w s dev dc m))) \<inter> reported m = {} \<and>
   distinct (reported_id (s, fst (ensure_test w s dev dc m)))"
proof (cases rule: ensure_test_cases [of m w s dev dc])
  case stale
  then show ?thesis using core_eqD(5) [OF core_remove(2)] by simp
next
  case (ended r m2 s' m4)
  let ?m1 = "m\<lparr>reported := insert (TestID dc) (reported m)\<rparr>"
  have "core m2 = core ?m1" using core_report [of w s dc ?m1] ended(3) by simp
  moreover have "core m4 = core (remove_test w (TestID dc) m2)"
    using core_saveTestResult [of w r "remove_test w (TestID dc) m2"] ended(4) by simp
  ultimately have "reported m4 = insert (TestID dc) (reported m)"
    using core_eqD(5) [of m2 ?m1] core_eqD(5) [of m4 "remove_test w (TestID dc) m2"] core_eqD(5) [OF core_remove(2), of w "TestID dc" m2]
    by simp
  then show ?thesis unfolding ended(5) using ended(2) by (simp add: emit_def)
next
  case (failed e m1)
  then show ?thesis using core_eqD(5) [OF core_createTest [of w dev "AppiumPort dc" m]] by simp
next
  case (started m1)
  then show ?thesis
    using core_eqD(5) [OF core_createTest [of w dev "AppiumPort dc" m]] core_eqD(5) [OF core_recordEvent [of w s _ _ m1]] by simp
qed simp_all

lemma reconcile_devices_reports:
  "reconcile_devices w confs xs ex m = (outs, m') \<Longrightarrow>
     distinct (reported_ids outs) \<and> set (reported_ids outs) \<inter> reported m = {} \<and>
     reported m' = reported m \<union> set (reported_ids outs)"
proof (induction xs arbitrary: ex m outs m')
  case Nil
  then show ?case by (simp add: reported_ids_def)
next
  case (Cons x xs)
  obtain s dev where x: "x = (s, dev)" by (cases x)
  obtain out ex1 m1 where 1: "reconcile_device w confs x ex m = (out, ex1, m1)"
    by (metis prod_cases3)
  obtain outs2 m2 where 2: "reconcile_devices w confs xs ex1 m1 = (outs2, m2)"
    by (cases "reconcile_devices w confs xs ex1 m1")
  have o: "outs = (s, out) # outs2" "m' = m2" using Cons.prems 1 2 by (simp_all add: x)
  obtain r ex' ma where a: "ensure_appium w confs s dev ex m = (r, ex', ma)" by (metis prod_cases3)
  have "core ma = core m" using core_ensure_appium [of w confs s dev ex m] a by simp
  then have ra: "reported ma = reported m" by (rule core_eqD)
  have "reported m1 = reported m \<union> set (reported_id (s, out)) \<and> set (reported_id (s, out)) \<inter> reported m = {} \<and>
    distinct (reported_id (s, out))"
  proof (cases r)
    case (Inl e)
    have "reported_id (s, e) = []"
      using a Inl by (cases rule: ensure_appium_cases [of ex s w confs dev m]) auto
    with 1 Inl ra show ?thesis by (simp add: reconcile_device_def x a)
  next
    case (Inr dc)
    then have "ensure_test w s dev dc ma = (out, m1)"
      using 1 by (auto simp: reconcile_device_def x a split: prod.splits)
    with ensure_test_reports [of w s dev dc ma] ra show ?thesis by simp
  qed
  with Cons.IH [OF 2] show ?case unfolding o reported_ids_Cons by auto
qed

text \<open>A cycle that fails early reports nothing.\<close>

lemma Reconcile_cases:
  assumes m': "snd (Reconcile w ds m) = m'"
  obtains (early) e where "Reconcile w ds m = ((Inl e, []), m')" "core m' = core m" "specials m' = specials m"
  | (cycle) confs ready xs ex m5 outs where "core m5 = core m" "specials m5 = specials m" "ready = snd (foldl register_device (m, []) ds)"
      "xs = range_ready w (trace m5) ready"
      "reconcile_devices w confs xs ex m5 = (outs, m')" "Reconcile w ds m = ((Inr (), outs), m')"
proof -
  obtain net m1 where n: "ensureNetwork w m = (net, m1)" by (cases "ensureNetwork w m")
  obtain listed m2 where l: "listManaged w m1 = (listed, m2)" by (cases "listManaged w m1")
  obtain confs m3 where c: "load_configs w m2 = (confs, m3)" by (cases "load_configs w m2")
  obtain m4 ready where r: "foldl register_device (m3, []) ds = (m4, ready)" by (cases "foldl register_device (m3, []) ds")
  have k1: "core m1 = core m" and k2: "core m2 = core m1" and k3: "core m3 = core m2"
    using core_listing [of w m] core_listing [of w m1] core_listing [of w m2] n l c by simp_all
  have p1: "specials m1 = specials m" and p2: "specials m2 = specials m1" and p3: "specials m3 = specials m2"
    using specials_listing [of w m] specials_listing [of w m1] specials_listing [of w m2] n l c by simp_all
  have p4: "specials m4 = specials m3" using specials_register [of m3 "[]" ds] r by simp
  have k4: "core m4 = core m3" using core_register [of m3 "[]" ds] r by simp
  have ready: "snd (foldl register_device (a, rs) ds) = snd (foldl register_device (b, rs) ds)" for a b rs
  proof (induction ds arbitrary: a b rs)
    case (Cons d ds)
    then show ?case by (simp add: register_device_def)
  qed simp
  show thesis
  proof (cases net)
    case (Inl e)
    then have "Reconcile w ds m = ((Inl (''ensure network: '' @ e), []), m1)" by (simp add: Reconcile_def n)
    with m' k1 p1 show thesis by (intro early) auto
  next
    case net: (Inr u)
    show thesis
    proof (cases listed)
      case (Inl e)
      then have "Reconcile w ds m = ((Inl (''list managed containers: '' @ e), []), m2)"
        by (simp add: Reconcile_def n l net)
      with m' k1 k2 p1 p2 show thesis by (intro early) auto
    next
      case (Inr ex)
      let ?m5 = "foldl (drop_device w confs ready) m4 (range_existing w (trace m4) ex)"
      obtain outs m6 where o: "reconcile_devices w confs (range_ready w (trace ?m5) ready) ex ?m5 = (outs, m6)"
        by (cases "reconcile_devices w confs (range_ready w (trace ?m5) ready) ex ?m5")
      have e: "Reconcile w ds m = ((Inr (), outs), m6)"
        by (simp add: Reconcile_def n net l Inr c r o)
      show thesis
      proof (rule cycle [OF _ _ _ refl])
        show "core ?m5 = core m" using k1 k2 k3 k4 by (simp add: frame)
        show "specials ?m5 = specials m" using p1 p2 p3 p4 by (simp add: frame)
        show "ready = snd (foldl register_device (m, []) ds)" using ready [of m "[]" m3] r by simp
        show "reconcile_devices w confs (range_ready w (trace ?m5) ready) ex ?m5 = (outs, m')" using o e m' by simp
        show "Reconcile w ds m = ((Inr (), outs), m')" using e m' by simp
      qed
    qed
  qed
qed

text \<open>The operations that other goroutines run on the manager, in any order, each in any world.\<close>

datatype op =
    Op_reconcile dworld "device list"
  | Op_reboot dworld summary
  | Op_usb_info string string string string
  | Op_running dworld

fun run_op :: "op \<Rightarrow> manager \<Rightarrow> string list \<times> manager" where
  "run_op (Op_reconcile w ds) m = (let ((r, outs), m') = Reconcile w ds m in (reported_ids outs, m'))"
| "run_op (Op_reboot w s) m = ([], case rebootAndReport w s m of None \<Rightarrow> m | Some m' \<Rightarrow> m')"
| "run_op (Op_usb_info s p v i) m = ([], SetUSBInfo s p v i m)"
| "run_op (Op_running w) m = ([], snd (RunningDevices w m))"

fun run_ops :: "op list \<Rightarrow> manager \<Rightarrow> string list \<times> manager" where
  "run_ops [] m = ([], m)"
| "run_ops (i # is) m = (let (ids, m1) = run_op i m; (ids', m2) = run_ops is m1 in (ids @ ids', m2))"

lemma reported_reboot: "rebootAndReport w s m = Some m' \<Longrightarrow> reported m' = reported m"
proof -
  have u: "reported (updateBootResult w i b ok m) = reported m" for w i b ok m
    by (rule core_eqD(5)) (rule core_updateBoot)
  have h: "reported (snd (host f m)) = reported m" for f :: "dtrace \<Rightarrow> 'a \<times> dtrace" and m
    by (rule core_eqD(5)) (rule core_basic(1))
  assume "rebootAndReport w s m = Some m'"
  then show ?thesis
    by (auto simp: rebootAndReport_def Let_def case_prod_beta u h clear_rebooting_def emit_def
        split: sum.splits option.splits if_splits)
qed

interpretation dk: once reported run_op
proof
  fix i m ks m'
  assume *: "run_op i m = (ks, m')"
  show "distinct ks \<and> set ks \<inter> reported m = {} \<and> reported m' = reported m \<union> set ks"
  proof (cases i)
    case (Op_reconcile w ds)
    obtain r outs where r: "Reconcile w ds m = ((r, outs), m')" "ks = reported_ids outs"
      using * Op_reconcile by (auto split: prod.splits)
    then have "snd (Reconcile w ds m) = m'" by simp
    then show ?thesis
    proof (cases rule: Reconcile_cases)
      case (early e)
      then show ?thesis using r core_eqD(5) [of m' m] by (simp add: reported_ids_def)
    next
      case (cycle confs ready xs ex m5 outs')
      then show ?thesis using r core_eqD(5) [of m5 m] reconcile_devices_reports [OF cycle(5)] by simp
    qed
  next
    case (Op_reboot w s)
    then show ?thesis using * reported_reboot [of w s m] by (auto split: option.splits)
  next
    case (Op_usb_info s p v c)
    then show ?thesis using * by (cases "s = []") (auto simp: SetUSBInfo_def)
  next
    case (Op_running w)
    have "core (snd (RunningDevices w m)) = core m"
      using core_listing(1) [of w m] by (simp add: RunningDevices_def case_prod_beta)
    from core_eqD(5) [OF this] show ?thesis using * Op_running by auto
  qed
qed

lemma run_ops_steps: "run_ops is m = dk.steps is m"
  by (induction "is" arbitrary: m) simp_all

section \<open>Tests and reboots\<close>

text \<open>\<open>createTest\<close> creates at most one container, right after the battery was read. \<open>battery_noted\<close>: with the history \<open>h\<close>
  that a reading has just been added to, \<open>b\<close> is the level that the device gave, which is high enough, or -1 when it gave none.\<close>

definition battery_noted :: "dworld \<Rightarrow> string \<Rightarrow> string \<Rightarrow> int \<Rightarrow> dtrace \<Rightarrow> bool" where
  "battery_noted w serial endpoint b h \<longleftrightarrow>
     (\<exists>h0. h = snd (BatteryLevel w serial endpoint h0) \<and>
        (case fst (BatteryLevel w serial endpoint h0) of
           (level, None) \<Rightarrow> 29 \<le> level \<and> b = level
         | (_, Some _) \<Rightarrow> b = -1))"

lemma battery_gate_noted:
  assumes "battery_gate w serial m = (Inr b, m')"
  shows "battery_noted w serial (adbEndpoint m serial) b (trace m')"
proof -
  obtain level err h where r: "BatteryLevel w serial (adbEndpoint m serial) (trace m) = ((level, err), h)" by (metis prod.exhaust)
  with assms have "trace m' = h" "case err of None \<Rightarrow> 29 \<le> level \<and> b = level | Some _ \<Rightarrow> b = -1"
    by (auto simp: battery_gate_def host_def min_battery_def split: option.splits if_splits)
  then show ?thesis unfolding battery_noted_def by (intro exI [of _ "trace m"]) (simp add: r split: option.splits)
qed

lemma createTest_noted_calls:
  "noted_calls (snd (createTest w dev p m)) = noted_calls m \<or>
   (\<exists>t b h. battery_noted w (Serial dev) (adbEndpoint m (Serial dev)) b h \<and> \<not> isK8sMode m \<and>
      noted_calls (snd (createTest w dev p m)) =
        ((Create (''tests-'' @ sanitize (Serial dev)) (test_spec (cfg m) dev p t b), h) # fst (noted_calls m), snd (noted_calls m)))"
proof (cases "isK8sMode m")
  case True
  then show ?thesis by (simp add: createTest_def)
next
  case False
  obtain t m1 where t: "host (now w) m = (t, m1)" by (cases "host (now w) m")
  define m3 where "m3 = snd (host (\<lambda>tr. ((), GrantAppiumPermissions w (Serial dev)
      (adbEndpoint (remove_container (''tests-'' @ sanitize (Serial dev)) m1) (Serial dev)) tr))
      (remove_container (''tests-'' @ sanitize (Serial dev)) m1))"
  obtain g m4 where g: "battery_gate w (Serial dev) m3 = (g, m4)" by (cases "battery_gate w (Serial dev) m3")
  have s1: "noted_calls m1 = noted_calls m" and c1: "core m1 = core m"
    using noted_calls_host [of "now w" m] core_basic(1) [of "now w" m] t by simp_all
  have m3: "noted_calls m3 = noted_calls m" "core m3 = core m" using s1 c1 by (simp_all add: m3_def frame)
  moreover have "noted_calls m4 = noted_calls m3" "core m4 = core m3"
    using noted_calls_battery [of w "Serial dev" m3] core_battery [of w "Serial dev" m3] g by simp_all
  ultimately have m4: "noted_calls m4 = noted_calls m" and c4: "core m4 = core m" by simp_all
  note m4 = m4 core_eqD(1) [OF c4]
  note def = createTest_def [of w dev p m, unfolded Let_def t case_prod_conv m3_def [symmetric] g]
  show ?thesis
  proof (cases g)
    case (Inl e)
    then show ?thesis using False m4 by (simp add: def)
  next
    case (Inr b)
    have "adbEndpoint m3 (Serial dev) = adbEndpoint m (Serial dev)" using m3(1) by (simp add: adbEndpoint_def noted_calls_def)
    with battery_gate_noted [of w "Serial dev" m3 b m4] g Inr
    have "battery_noted w (Serial dev) (adbEndpoint m (Serial dev)) b (trace m4)" by simp
    moreover have "noted_calls (snd (createTest w dev p m)) =
        ((Create (''tests-'' @ sanitize (Serial dev)) (test_spec (cfg m) dev p (fmt_rfc3339 t) b), trace m4) # fst (noted_calls m), snd (noted_calls m))"
      using False m4 by (simp add: def Inr noted_calls_launch)
    ultimately show ?thesis using False by blast
  qed
qed

text \<open>The serial of a summary is the one it was made for.\<close>

lemma apply_line_serial [simp]: "sm_Serial (apply_line s l) = sm_Serial s"
  by (simp add: apply_line_def Let_def split: option.splits prod.splits)

lemma parse_serial [simp]: "sm_Serial (parse_test_log l s) = sm_Serial s" "sm_Serial (parse_appium_log s) = sm_Serial s"
proof -
  have "sm_Serial (foldl apply_line s ls) = sm_Serial s" for ls
    by (induction ls arbitrary: s) simp_all
  then show "sm_Serial (parse_test_log l s) = sm_Serial s" by (simp add: parse_test_log_def)
  show "sm_Serial (parse_appium_log s) = sm_Serial s" by (simp add: parse_appium_log_def split: option.splits)
qed

lemma report_serial: "sm_Serial (fst (reportTestResult w s dc m)) = s"
  by (simp add: reportTestResult_def Let_def case_prod_beta fresh_summary_def split: option.splits sum.splits)

lemma save_serial: "sm_Serial (fst (saveTestResult w s m)) = sm_Serial s"
  by (simp add: saveTestResult_def Let_def case_prod_beta split: option.splits sum.splits)

text \<open>A test container for \<open>dev\<close>, made right after its battery was read and with what was read on its label.\<close>

definition start_ok :: "dworld \<Rightarrow> manager \<Rightarrow> device \<Rightarrow> dcall \<times> dtrace \<Rightarrow> bool" where
  "start_ok w m dev x \<longleftrightarrow> (\<exists>p t b. fst x = Create (''tests-'' @ sanitize (Serial dev)) (test_spec (cfg m) dev p t b) \<and>
     battery_noted w (Serial dev) (adbEndpoint m (Serial dev)) b (snd x))"

text \<open>What one device may add to the special calls, and to the flags.\<close>

definition device_step_ok :: "dworld \<Rightarrow> string \<Rightarrow> device \<Rightarrow> manager \<Rightarrow> manager \<Rightarrow> bool" where
  "device_step_ok w s dev m m' \<longleftrightarrow> cfg m' = cfg m \<and> adbEndpoints m' = adbEndpoints m \<and>
     ((fst (noted_calls m') = fst (noted_calls m) \<and> rebooting m' = rebooting m) \<or>
      (\<exists>x. start_ok w m dev x \<and> fst (noted_calls m') = x # fst (noted_calls m) \<and> s \<notin> rebooting m \<and> rebooting m' = rebooting m) \<or>
      (\<exists>r h. sm_Serial r = s \<and> fst (noted_calls m') = (Go_reboot r, h) # fst (noted_calls m) \<and> rebooting m' = insert s (rebooting m)))"

lemma noted_calls_eqD: "noted_calls m' = noted_calls m \<Longrightarrow> adbEndpoints m' = adbEndpoints m"
  by (simp add: noted_calls_def)

lemma device_step_okI: "core m' = core m \<Longrightarrow> noted_calls m' = noted_calls m \<Longrightarrow> device_step_ok w s dev m m'"
  using core_eqD [of m' m] noted_calls_eqD [of m' m] by (simp add: device_step_ok_def)

lemma createTest_step_ok:
  assumes "s \<notin> rebooting m" and "core m' = core (snd (createTest w dev p m))"
    and "noted_calls m' = noted_calls (snd (createTest w dev p m))"
  shows "device_step_ok w s dev m m'"
proof -
  have "core m' = core m" using assms(2) by (simp add: frame)
  then have c: "cfg m' = cfg m" "rebooting m' = rebooting m" by (rule core_eqD)+
  consider "noted_calls m' = noted_calls m"
    | t b h where "battery_noted w (Serial dev) (adbEndpoint m (Serial dev)) b h"
      "noted_calls m' = ((Create (''tests-'' @ sanitize (Serial dev)) (test_spec (cfg m) dev p t b), h) # fst (noted_calls m), snd (noted_calls m))"
    using createTest_noted_calls [of w dev p m] unfolding assms(3) by blast
  then show ?thesis
  proof cases
    case 1
    with c show ?thesis using noted_calls_eqD [OF 1] by (simp add: device_step_ok_def)
  next
    case (2 t b h)
    let ?x = "(Create (''tests-'' @ sanitize (Serial dev)) (test_spec (cfg m) dev p t b), h)"
    have "start_ok w m dev ?x" using 2(1) by (auto simp: start_ok_def)
    moreover have "fst (noted_calls m') = ?x # fst (noted_calls m)" "adbEndpoints m' = adbEndpoints m"
      using arg_cong [OF 2(2), of fst] arg_cong [OF 2(2), of snd] by (simp, simp add: noted_calls_def)
    ultimately show ?thesis using c assms(1) unfolding device_step_ok_def by blast
  qed
qed

lemma ensure_test_step_ok: "device_step_ok w s dev m (snd (ensure_test w s dev dc m))"
proof (cases rule: ensure_test_cases [of m w s dev dc])
  case stale
  then show ?thesis by (simp add: device_step_okI frame)
next
  case (ended r m2 s' m4)
  let ?m1 = "m\<lparr>reported := insert (TestID dc) (reported m)\<rparr>"
  have r: "sm_Serial r = s" using report_serial [of w s dc ?m1] ended(3) by simp
  then have s': "sm_Serial s' = s" using save_serial [of w r "remove_test w (TestID dc) m2"] ended(4) by simp
  have "core m2 = core ?m1" using core_report [of w s dc ?m1] ended(3) by simp
  moreover have "core m4 = core (remove_test w (TestID dc) m2)"
    using core_saveTestResult [of w r "remove_test w (TestID dc) m2"] ended(4) by simp
  ultimately have c: "core m4 = core ?m1" by (simp add: frame)
  have sp: "noted_calls m4 = noted_calls m"
    using noted_calls_report [of w s dc ?m1] ended(3) noted_calls_saveTestResult [of w r "remove_test w (TestID dc) m2"] ended(4)
    by (simp add: frame)
  have "cfg m4 = cfg m" "rebooting m4 = rebooting m" using core_eqD(1,4) [OF c] by simp_all
  moreover define m5 where "m5 = emit (Go_reboot s') (m4\<lparr>rebooting := insert s (rebooting m4)\<rparr>)"
  moreover have "cfg m5 = cfg m4" "rebooting m5 = insert s (rebooting m4)" "adbEndpoints m5 = adbEndpoints m4"
    by (simp_all add: m5_def emit_def)
  moreover have "fst (noted_calls m5) = (Go_reboot s', trace m4) # fst (noted_calls m)" using sp by (simp add: m5_def frame)
  moreover have "adbEndpoints m4 = adbEndpoints m" by (rule noted_calls_eqD [OF sp])
  ultimately show ?thesis using s' unfolding ended(5) device_step_ok_def by simp
next
  case (failed e m1)
  then show ?thesis by (intro createTest_step_ok [where w = w and p = "AppiumPort dc"]) simp_all
next
  case (started m1)
  then show ?thesis
    by (intro createTest_step_ok [where w = w and p = "AppiumPort dc"]) (simp_all add: frame)
qed (simp_all add: device_step_okI)

lemma reconcile_device_step_ok:
  assumes "reconcile_device w confs (s, dev) ex m = (out, ex', m')"
  shows "device_step_ok w s dev m m'"
proof -
  obtain r ex1 ma where a: "ensure_appium w confs s dev ex m = (r, ex1, ma)" by (metis prod_cases3)
  have k: "core ma = core m" "noted_calls ma = noted_calls m"
    using core_ensure_appium [of w confs s dev ex m] noted_calls_ensure_appium [of w confs s dev ex m] a by simp_all
  show ?thesis
  proof (cases r)
    case (Inl e)
    with assms a k show ?thesis by (auto simp: reconcile_device_def intro: device_step_okI)
  next
    case (Inr dc)
    then have "m' = snd (ensure_test w s dev dc ma)"
      using assms a by (auto simp: reconcile_device_def split: prod.splits)
    moreover have "cfg ma = cfg m" "rebooting ma = rebooting m" "adbEndpoints ma = adbEndpoints m" "fst (noted_calls ma) = fst (noted_calls m)"
      using core_eqD(1,4) [OF k(1)] noted_calls_eqD [OF k(2)] k(2) by simp_all
    ultimately show ?thesis
      using ensure_test_step_ok [of w s dev ma dc] by (auto simp: device_step_ok_def start_ok_def adbEndpoint_def)
  qed
qed

text \<open>All devices of a cycle.\<close>

definition cycle_ok :: "dworld \<Rightarrow> (string \<times> device) set \<Rightarrow> manager \<Rightarrow> manager \<Rightarrow> bool" where
  "cycle_ok w D m m' \<longleftrightarrow> cfg m' = cfg m \<and> adbEndpoints m' = adbEndpoints m \<and>
     (\<exists>new. fst (noted_calls m') = new @ fst (noted_calls m) \<and>
        (\<forall>x \<in> set new. (\<exists>(s, dev) \<in> D. s \<notin> rebooting m \<and> start_ok w m dev x) \<or> (\<exists>r. fst x = Go_reboot r)) \<and>
        rebooting m' = rebooting m \<union> {sm_Serial r | r. Go_reboot r \<in> fst ` set new})"

lemma start_not_reboot: "start_ok w m dev x \<Longrightarrow> fst x \<noteq> Go_reboot r"
  by (auto simp: start_ok_def)

lemma cycle_ok_step:
  assumes "device_step_ok w s dev m m1" and "cycle_ok w D m1 m2"
  shows "cycle_ok w (insert (s, dev) D) m m2"
proof -
  obtain new where n: "fst (noted_calls m2) = new @ fst (noted_calls m1)"
    "\<forall>x \<in> set new. (\<exists>(s, dev) \<in> D. s \<notin> rebooting m1 \<and> start_ok w m1 dev x) \<or> (\<exists>r. fst x = Go_reboot r)"
    "rebooting m2 = rebooting m1 \<union> {sm_Serial r | r. Go_reboot r \<in> fst ` set new}" "cfg m2 = cfg m1" "adbEndpoints m2 = adbEndpoints m1"
    using assms(2) by (auto simp: cycle_ok_def)
  have c: "cfg m1 = cfg m" "adbEndpoints m1 = adbEndpoints m" and sub: "rebooting m \<subseteq> rebooting m1"
    using assms(1) by (auto simp: device_step_ok_def)
  have same: "start_ok w m1 d x = start_ok w m d x" for d x using c by (simp add: start_ok_def adbEndpoint_def)
  obtain first where f: "fst (noted_calls m1) = first @ fst (noted_calls m)"
    "\<forall>x \<in> set first. (s \<notin> rebooting m \<and> start_ok w m dev x) \<or> (\<exists>r. fst x = Go_reboot r)"
    "rebooting m1 = rebooting m \<union> {sm_Serial r | r. Go_reboot r \<in> fst ` set first}"
  proof -
    consider "fst (noted_calls m1) = fst (noted_calls m)" "rebooting m1 = rebooting m"
      | x where "start_ok w m dev x" "fst (noted_calls m1) = x # fst (noted_calls m)" "s \<notin> rebooting m" "rebooting m1 = rebooting m"
      | r h where "sm_Serial r = s" "fst (noted_calls m1) = (Go_reboot r, h) # fst (noted_calls m)" "rebooting m1 = insert s (rebooting m)"
      using assms(1) by (auto simp: device_step_ok_def)
    then show thesis
    proof cases
      case 1
      then show thesis by (intro that [of "[]"]) auto
    next
      case (2 x)
      then show thesis using start_not_reboot [OF 2(1), THEN not_sym] by (intro that [of "[x]"]) auto
    next
      case (3 r h)
      then show thesis by (intro that [of "[(Go_reboot r, h)]"]) auto
    qed
  qed
  have "fst (noted_calls m2) = (new @ first) @ fst (noted_calls m)" using n(1) f(1) by simp
  moreover have "(\<exists>(s', d) \<in> insert (s, dev) D. s' \<notin> rebooting m \<and> start_ok w m d x) \<or> (\<exists>r. fst x = Go_reboot r)"
    if "x \<in> set (new @ first)" for x
  proof (cases "x \<in> set new")
    case True
    with n(2) sub show ?thesis unfolding same by blast
  next
    case False
    with that have "x \<in> set first" by simp
    with f(2) show ?thesis by blast
  qed
  moreover have "rebooting m2 = rebooting m \<union> {sm_Serial r | r. Go_reboot r \<in> fst ` set (new @ first)}"
    using n(3) f(3) by auto
  ultimately show ?thesis
    using n(4,5) c unfolding cycle_ok_def by (intro conjI exI [of _ "new @ first"] ballI) simp_all
qed

lemma cycle_ok_refl: "cycle_ok w D m m"
  by (auto simp: cycle_ok_def intro: exI [of _ "[]"])

lemma reconcile_devices_ok:
  "reconcile_devices w confs xs ex m = (outs, m') \<Longrightarrow> cycle_ok w (set xs) m m'"
proof (induction xs arbitrary: ex m outs)
  case Nil
  then show ?case by (simp add: cycle_ok_refl)
next
  case (Cons x xs)
  obtain s dev where x: "x = (s, dev)" by (cases x)
  obtain out ex1 m1 where 1: "reconcile_device w confs x ex m = (out, ex1, m1)" by (metis prod_cases3)
  obtain outs2 m2 where 2: "reconcile_devices w confs xs ex1 m1 = (outs2, m2)"
    by (cases "reconcile_devices w confs xs ex1 m1")
  have "m' = m2" using Cons.prems 1 2 by simp
  then show ?case
    using cycle_ok_step [OF reconcile_device_step_ok [OF 1 [unfolded x]]] Cons.IH [of ex1 m1 outs2] 2 by (simp add: x)
qed

lemma cycle_ok_specials:
  assumes "cycle_ok w D m m'"
  obtains new where "specials m' = new @ specials m" "rebooting m' = rebooting m \<union> {sm_Serial r | r. Go_reboot r \<in> set new}"
proof -
  obtain new where "fst (noted_calls m') = new @ fst (noted_calls m)" "rebooting m' = rebooting m \<union> {sm_Serial r | r. Go_reboot r \<in> fst ` set new}"
    using assms by (auto simp: cycle_ok_def)
  then show thesis by (intro that [of "map fst new"]) (simp_all add: specials_noted_calls)
qed

section \<open>Properties: reports and test starts\<close>

text \<open>The order in which a map is visited is some order of its entries.\<close>

definition fair_ranges :: "dworld \<Rightarrow> bool" where
  "fair_ranges w \<longleftrightarrow> (\<forall>tr xs. mset (range_ready w tr xs) = mset xs) \<and> (\<forall>tr xs. mset (range_existing w tr xs) = mset xs)"

lemma fair_ranges_set: "fair_ranges w \<Longrightarrow> set (range_ready w tr xs) = set xs \<and> set (range_existing w tr ys) = set ys"
  unfolding fair_ranges_def by (metis set_mset_mset)

lemma ready_entries:
  "(s, d) \<in> set (snd (foldl register_device (m, rs) ds)) \<Longrightarrow>
     (s, d) \<in> set rs \<or> (d \<in> set ds \<and> IsReady d \<and> s = Serial d)"
proof (induction ds arbitrary: m rs)
  case (Cons a ds)
  have "set (AList.update (Serial a) a rs) \<subseteq> insert (Serial a, a) (set rs)" by (induction rs) auto
  moreover obtain m2 where "register_device (m, rs) a = (m2, if IsReady a then AList.update (Serial a) a rs else rs)"
    by (simp add: register_device_def)
  ultimately show ?case
    using Cons.prems Cons.IH [of m2 "if IsReady a then AList.update (Serial a) a rs else rs"] by (auto split: if_splits)
qed simp

text \<open>A host for the examples: two containers of the phone \<open>R58M\<close> are listed, its Appium running and its
  test exited with the reporter's summary in the log; every call succeeds and the battery is at 80.\<close>

definition demo_labels :: "string \<Rightarrow> (string \<times> string) list" where
  "demo_labels role = [(labelManaged, ''true''), (labelDevice, ''R58M''), (labelRole, role), (labelPort, ''4723'')]"

definition demo_world :: dworld where
  "demo_world = \<lparr>exec_answer = (\<lambda>_ args. (''  level: 80'', None)), dir_answer = (\<lambda>_ _. Inr []),
     file_answer = (\<lambda>_ _. Inl ''none''), clock = slept,
     networks = (\<lambda>_. Inr [adbNetwork]), network_error = (\<lambda>_. None),
     managed_answer = (\<lambda>_. Inr [\<lparr>ct_ID = ''a1'', ct_Names = [''/appium-R58M''], ct_State = ''running'', ct_Labels = demo_labels roleAppium\<rparr>,
       \<lparr>ct_ID = ''t1'', ct_Names = [''/tests-R58M''], ct_State = ''exited'', ct_Labels = demo_labels roleTests\<rparr>]),
     named_answer = (\<lambda>_ _. Inr []), create_answer = (\<lambda>_ _ _. Inr ''c1''), start_error = (\<lambda>_ _. None),
     logs_answer = (\<lambda>_ _ _. Inr ''  4 passing (13s)''), pull_answer = (\<lambda>_ _. Inr None),
     apply_answer = (\<lambda>_ _ _. ('''', None)), unmarshal_pods = (\<lambda>_. Inr []), file_error = (\<lambda>_. None),
     sql_error = (\<lambda>_. None), sql_order = stable_desc, range_existing = (\<lambda>_ xs. xs), range_ready = (\<lambda>_ xs. xs),
     local_offset = 0, poll_fuel = 102\<rparr>"

definition demo_config :: config where
  "demo_config = \<lparr>AppiumImage = ''appium:1'', TestImage = ''tests:1'', BasePort = 4723, c_ADBHost = '''', c_ADBPort = 5037,
     APKServeURL = '''', HubDNS = '''', K8sNamespace = '''', K8sConfig = ''''\<rparr>"

definition demo_manager :: manager where
  "demo_manager = SetReconcile (NewManager demo_config demo_world (Some empty_db))"

definition demo_device :: device where
  "demo_device = zero_device\<lparr>Serial := ''R58M'', State := ''device''\<rparr>"

lemma fair_demo: "fair_ranges demo_world"
  by (simp add: fair_ranges_def demo_world_def)

text \<open>A cycle of the example: the ended test of the phone is reported and its reboot started.\<close>

definition demo_containers :: containers where
  "demo_containers = no_containers\<lparr>AppiumID := ''a1'', AppiumPort := 4723, AppiumName := ''appium-R58M'',
     AppiumStatus := ''running'', TestID := ''t1'', TestStatus := ''exited'', BatteryPct := -1\<rparr>"

lemma demo_labels_at:
  "val_of (demo_labels r) labelDevice = ''R58M''" "val_of (demo_labels r) labelRole = r"
  "val_of (demo_labels r) labelPort = ''4723''" "val_of (demo_labels r) labelModel = ''''"
  "val_of (demo_labels r) labelStartedAt = ''''" "val_of (demo_labels r) labelAppiumStartedAt = ''''"
  "val_of (demo_labels r) labelBattery = ''''"
  by (simp_all add: val_of_def demo_labels_def labelManaged_def labelDevice_def labelRole_def labelPort_def
      labelModel_def labelStartedAt_def labelAppiumStartedAt_def labelBattery_def)

lemma demo_listed:
  assumes "\<not> isK8sMode m"
  shows "listManaged demo_world m = (Inr [(''R58M'', demo_containers)], emit List_managed m)"
proof -
  have "atoi ''4723'' = (4723, True)"
    by (simp add: atoi_def all_digits_def is_digit_def digits_val_def digit_val_def code_def max_int_def min_int_def)
  moreover have "roleAppium \<noteq> roleTests" by (simp add: roleAppium_def roleTests_def)
  ultimately show ?thesis
    using assms
    by (simp add: listManaged_def demo_world_def add_container_def demo_labels_at Let_def demo_containers_def no_containers_def)
qed

lemma ensure_test_reporting:
  assumes "TestImage (cfg m) \<noteq> []" "TestID dc \<noteq> []" "TestStatus dc \<noteq> ''running''" "TestID dc \<notin> reported m"
  shows "\<exists>s'. fst (ensure_test w s dev dc m) = Test_reported (TestID dc) s' \<and> s \<in> rebooting (snd (ensure_test w s dev dc m))"
  using assms by (cases rule: ensure_test_cases [of m w s dev dc]) (auto simp: emit_def)

lemma demo_store: "store demo_manager = Some empty_db"
  by (simp add: demo_manager_def SetReconcile_def NewManager_def Let_def LatestUSBInfoPerDevice_def demo_world_def
      empty_db_def emit_def)

lemma demo_core: "core demo_manager = (demo_config, False, True, {}, {})"
  by (simp add: demo_manager_def SetReconcile_def NewManager_def Let_def LatestUSBInfoPerDevice_def demo_world_def
      empty_db_def emit_def core_def)

lemma demo_cycle:
  "\<exists>s' m'. Reconcile demo_world [demo_device] demo_manager = ((Inr (), [(''R58M'', Test_reported ''t1'' s')]), m') \<and>
     ''R58M'' \<in> rebooting m'"
proof -
  have cfg: "cfg demo_manager = demo_config" "reported demo_manager = {}" using demo_core by (simp_all add: core_def)
  have k8s: "\<not> isK8sMode m" if "core m = core demo_manager" for m
    using core_eqD(1) [OF that] cfg by (simp add: isK8sMode_def demo_config_def)
  obtain m1 where n: "ensureNetwork demo_world demo_manager = (Inr (), m1)" "core m1 = core demo_manager"
    using core_listing(2) [of demo_world demo_manager] k8s [OF refl]
    by (simp add: ensureNetwork_def demo_world_def adbNetwork_def)
  define m2 where "m2 = emit List_managed m1"
  have m2: "core m2 = core demo_manager" by (simp add: m2_def frame n(2))
  obtain confs m3 where c: "load_configs demo_world m2 = (confs, m3)" by (cases "load_configs demo_world m2")
  obtain m4 where r: "foldl register_device (m3, []) [demo_device] = (m4, [(''R58M'', demo_device)])"
    by (simp add: register_device_def demo_device_def IsReady_def zero_device_def)
  have m4: "core m4 = core demo_manager"
    using core_listing(3) [of demo_world m2] c core_register [of m3 "[]" "[demo_device]"] r m2 by simp
  have drop: "drop_device demo_world confs [(''R58M'', demo_device)] m4 (''R58M'', demo_containers) = m4"
    by (simp add: drop_device_def)
  have appium: "ensure_appium demo_world confs ''R58M'' demo_device [(''R58M'', demo_containers)] m4 =
      (Inr demo_containers, [(''R58M'', demo_containers)], m4)"
    by (simp add: ensure_appium_def found_def exited_appium_def demo_containers_def Let_def)
  have "TestImage (cfg m4) \<noteq> []" "''t1'' \<notin> reported m4"
    using core_eqD(1,5) [OF m4] cfg by (simp_all add: demo_config_def)
  then obtain s' where t: "fst (ensure_test demo_world ''R58M'' demo_device demo_containers m4) = Test_reported ''t1'' s'"
    "''R58M'' \<in> rebooting (snd (ensure_test demo_world ''R58M'' demo_device demo_containers m4))"
    using ensure_test_reporting [of m4 demo_containers demo_world "''R58M''" demo_device] by (auto simp: demo_containers_def)
  have "reconcile_devices demo_world confs [(''R58M'', demo_device)] [(''R58M'', demo_containers)] m4 =
      ([(''R58M'', Test_reported ''t1'' s')], snd (ensure_test demo_world ''R58M'' demo_device demo_containers m4))"
    using t(1) by (simp add: reconcile_device_def appium case_prod_beta)
  moreover have "listManaged demo_world m1 = (Inr [(''R58M'', demo_containers)], m2)"
    unfolding m2_def by (rule demo_listed [OF k8s [OF n(2)]])
  moreover have "range_existing demo_world tr xs = xs" "range_ready demo_world tr ys = ys" for tr xs ys
    by (simp_all add: demo_world_def)
  ultimately show ?thesis using t(2) by (simp add: Reconcile_def n(1) c r [simplified] drop)
qed

text \<open>C1: However the reconcile cycles, the reboots and the other operations follow each other, and whatever
  Docker, the phones and the database answer, no container's result is reported twice, and none that was
  reported before.\<close>

theorem reported_at_most_once:
  assumes "run_ops ops m = (ids, m')"
  shows "distinct ids \<and> set ids \<inter> reported m = {} \<and> reported m' = reported m \<union> set ids"
  using dk.steps_once [of ops m ids m'] assms by (simp add: run_ops_steps)

theorem reported_at_most_once_witness:
  "\<exists>ids m'. run_ops [Op_usb_info ''R58M'' ''1-3'' ''04e8'' ''6860'', Op_reconcile demo_world [demo_device],
      Op_reconcile demo_world [demo_device]] demo_manager = (ids, m') \<and> distinct ids"
  using reported_at_most_once by (metis prod.exhaust)

text \<open>C3: In one reconcile cycle a test container is created only for a ready device of the list that was not
  rebooting, under its name and with its serial as label; right before, the battery of that device was read over the
  manager's connection to it, and a level that it gave is at least 29 percent and is the one on the label, which else is
  -1; and exactly the devices for which a reboot is started become rebooting.\<close>

theorem test_start_safe:
  assumes "fair_ranges w" and "Reconcile w ds m = ((r, outs), m')"
  shows "\<exists>new. specials m' = new @ specials m \<and>
    (\<forall>n sp. Create n sp \<in> set new \<longrightarrow> (\<exists>dev \<in> set ds. IsReady dev \<and> Serial dev \<notin> rebooting m \<and>
       n = ''tests-'' @ sanitize (Serial dev) \<and> val_of (sp_Labels sp) labelDevice = Serial dev \<and>
       (\<exists>later h. trace m' = later @ Other (Create n sp) # snd (BatteryLevel w (Serial dev) (adbEndpoint m' (Serial dev)) h) \<and>
          (case fst (BatteryLevel w (Serial dev) (adbEndpoint m' (Serial dev)) h) of
             (level, None) \<Rightarrow> 29 \<le> level \<and> val_of (sp_Labels sp) labelBattery = itoa level
           | (_, Some _) \<Rightarrow> val_of (sp_Labels sp) labelBattery = ''-1'')))) \<and>
    rebooting m' = rebooting m \<union> {sm_Serial s | s. Go_reboot s \<in> set new}"
proof -
  have "snd (Reconcile w ds m) = m'" using assms(2) by simp
  then show ?thesis
  proof (cases rule: Reconcile_cases)
    case (early e)
    then show ?thesis using core_eqD(4) [OF early(2)] by (intro exI [of _ "[]"]) simp
  next
    case (cycle confs ready xs ex m5 outs')
    have "cycle_ok w (set xs) m5 m'" by (rule reconcile_devices_ok [OF cycle(5)])
    then obtain new where n: "fst (noted_calls m') = new @ fst (noted_calls m5)"
      "\<forall>x \<in> set new. (\<exists>(s, dev) \<in> set xs. s \<notin> rebooting m5 \<and> start_ok w m5 dev x) \<or> (\<exists>r. fst x = Go_reboot r)"
      "rebooting m' = rebooting m5 \<union> {sm_Serial s | s. Go_reboot s \<in> fst ` set new}" "adbEndpoints m' = adbEndpoints m5"
      by (auto simp: cycle_ok_def)
    have m5: "rebooting m5 = rebooting m" by (rule core_eqD(4) [OF cycle(1)])
    have ep: "adbEndpoint m5 = adbEndpoint m'" using n(4) by (simp add: adbEndpoint_def fun_eq_iff)
    have xs: "d \<in> set ds \<and> IsReady d \<and> s = Serial d" if "(s, d) \<in> set xs" for s d
      using ready_entries [of s d m "[]" ds] that cycle(3,4) fair_ranges_set [OF assms(1)] by auto
    have start: "\<exists>dev \<in> set ds. IsReady dev \<and> Serial dev \<notin> rebooting m \<and> n = ''tests-'' @ sanitize (Serial dev) \<and>
       val_of (sp_Labels sp) labelDevice = Serial dev \<and>
       (\<exists>later h. trace m' = later @ Other (Create n sp) # snd (BatteryLevel w (Serial dev) (adbEndpoint m' (Serial dev)) h) \<and>
          (case fst (BatteryLevel w (Serial dev) (adbEndpoint m' (Serial dev)) h) of
             (level, None) \<Rightarrow> 29 \<le> level \<and> val_of (sp_Labels sp) labelBattery = itoa level
           | (_, Some _) \<Rightarrow> val_of (sp_Labels sp) labelBattery = ''-1''))"
      if c: "(Create n sp, tr) \<in> set new" for n sp tr
    proof -
      obtain s dev where d: "(s, dev) \<in> set xs" "s \<notin> rebooting m" "start_ok w m5 dev (Create n sp, tr)"
        using n(2) c m5 by fastforce
      then obtain p t b where b: "n = ''tests-'' @ sanitize (Serial dev)" "sp = test_spec (cfg m5) dev p t b"
        "battery_noted w (Serial dev) (adbEndpoint m' (Serial dev)) b tr" by (auto simp: start_ok_def ep)
      moreover have l: "val_of (sp_Labels (test_spec (cfg m5) dev p t b)) labelDevice = Serial dev"
        "val_of (sp_Labels (test_spec (cfg m5) dev p t b)) labelBattery = itoa b"
        by (simp_all add: test_spec_def val_of_def labelManaged_def labelDevice_def labelRole_def labelModel_def
            labelStartedAt_def labelBattery_def)
      obtain h where h: "tr = snd (BatteryLevel w (Serial dev) (adbEndpoint m' (Serial dev)) h)"
        "case fst (BatteryLevel w (Serial dev) (adbEndpoint m' (Serial dev)) h) of (level, None) \<Rightarrow> 29 \<le> level \<and> b = level | (_, Some _) \<Rightarrow> b = -1"
        using b(3) by (auto simp: battery_noted_def)
      have "(Create n sp, tr) \<in> set (fst (noted_calls m'))" using c n(1) by simp
      then obtain later where "trace m' = later @ Other (Create n sp) # tr" using calls_split by (fastforce simp: noted_calls_def)
      moreover have "itoa (- 1) = ''-1''" by code_simp
      ultimately show ?thesis using xs [OF d(1)] d(2) b(1,2) l h
        by (intro bexI [of _ dev] conjI exI [of _ later] exI [of _ h]) (auto split: option.splits)
    qed
    have "specials m' = map fst new @ specials m" using n(1) cycle(2) by (simp add: specials_noted_calls)
    moreover have "rebooting m' = rebooting m \<union> {sm_Serial s | s. Go_reboot s \<in> set (map fst new)}" using n(3) m5 by simp
    moreover have "\<exists>tr. (c, tr) \<in> set new" if "c \<in> set (map fst new)" for c using that by auto
    ultimately show ?thesis using start by (intro exI [of _ "map fst new"]) blast
  qed
qed

theorem test_start_safe_witness:
  "\<exists>r outs m' new. Reconcile demo_world [demo_device] demo_manager = ((r, outs), m') \<and>
     specials m' = new @ specials demo_manager \<and>
     rebooting m' = rebooting demo_manager \<union> {sm_Serial s | s. Go_reboot s \<in> set new}"
proof -
  obtain r outs m' where r: "Reconcile demo_world [demo_device] demo_manager = ((r, outs), m')"
    by (metis prod.exhaust)
  from test_start_safe [OF fair_demo r] r show ?thesis by blast
qed

section \<open>Properties: a reboot ends and its run is recorded\<close>

lemma store_basic:
  "store (snd (host f m)) = store m" "store (emit c m) = store m" "store (notify m) = store m"
  "store (snd (file_call w c m)) = store m" "store (snd (write_log w fn x m)) = store m"
  "store (writeFileReport w s m) = store m" "store (clear_rebooting x m) = store m"
  by (simp_all add: host_def emit_def notify_def file_call_def write_log_def writeFileReport_def clear_rebooting_def
      Let_def case_prod_beta)

text \<open>A world in which the database and the files take every write.\<close>

definition calm :: "dworld \<Rightarrow> bool" where
  "calm w \<longleftrightarrow> (\<forall>tr. sql_error w tr = None) \<and> (\<forall>tr. file_error w tr = None)"

lemma store_run_sql: "calm w \<Longrightarrow> store m = Some d \<Longrightarrow> store (run_sql w f m) = Some (snd (f None d))"
  by (simp add: run_sql_def with_db_def calm_def case_prod_beta emit_def)

lemma write_log_done: "calm w \<Longrightarrow> fst (write_log w f x m) \<longleftrightarrow> x \<noteq> []"
  by (simp add: write_log_def file_call_def calm_def)

lemma store_saveLogs:
  assumes "calm w" and "store m = Some d"
  shows "store (saveLogs w i s m) = Some
    (let d2 = (if sm_Screenshot s \<noteq> [] then snd (SetHasScreenshot None i d) else d)
     in if sm_TestLog s \<noteq> [] \<or> sm_AppiumLog s \<noteq> [] then snd (SetHasLogs None i d2) else d2)"
proof -
  have "fst (file_call w c m) = True" for c m using assms(1) by (simp add: file_call_def calm_def)
  then show ?thesis
    using assms by (simp add: saveLogs_def Let_def case_prod_beta write_log_done store_basic store_run_sql)
qed

lemma saveTestResult_store:
  assumes "calm w" and "store m = Some d" and "saveTestResult w s m = (s', m')"
  shows "\<exists>i d'. rl.save (sm_TestLog s \<noteq> [] \<or> sm_AppiumLog s \<noteq> []) (sm_Screenshot s \<noteq> []) (run_of_summary s) d = (i, d') \<and>
    s' = s\<lparr>sm_RunID := i\<rparr> \<and> store m' = Some d'"
proof -
  have n: "sql_error w tr = None" for tr using assms(1) by (simp add: calm_def)
  obtain i d1 where ins: "Insert None (run_of_summary s) d = (Inr i, d1)"
    by (auto simp: Insert_def Let_def)
  let ?m1 = "emit Sql (m\<lparr>store := Some d1\<rparr>)"
  have w: "with_db w (\<lambda>e. Insert e (run_of_summary s)) d m = (Inr i, ?m1)"
    by (simp add: with_db_def n ins)
  have st: "store ?m1 = Some d1" by (simp add: emit_def)
  have s': "s' = s\<lparr>sm_RunID := i\<rparr>" "m' = writeFileReport w s' (notify (saveLogs w i (s\<lparr>sm_RunID := i\<rparr>) ?m1))"
    using assms(2,3) w by (auto simp: saveTestResult_def Let_def)
  have "store m' = store (saveLogs w i (s\<lparr>sm_RunID := i\<rparr>) ?m1)" by (simp add: s'(2) store_basic)
  with store_saveLogs [OF assms(1) st, of i "s\<lparr>sm_RunID := i\<rparr>"] s'(1) show ?thesis
    by (simp add: rl.save_def ins Let_def)
qed

text \<open>A reboot always ends, takes the device out of \<open>rebooting\<close> and leaves its result in the row of the run.\<close>

lemma updateBoot_rebooting: "rebooting (updateBootResult w i b ok m) = rebooting m"
  by (rule core_eqD(4)) (rule core_updateBoot)

lemma updateBoot_store:
  "calm w \<Longrightarrow> store m = Some d \<Longrightarrow> i \<noteq> 0 \<Longrightarrow>
     store (updateBootResult w i b ok m) = Some (snd (UpdateBoot None i (Seconds b) ok d))"
  by (simp add: updateBootResult_def with_db_def calm_def emit_def notify_def UpdateBoot_def case_prod_beta)

text \<open>What \<open>boot\<close> and \<open>ok\<close> of a reboot say: the command failed; or the device was seen online and booted after
  \<open>boot\<close>; or five minutes went by without that.\<close>

definition boot_seen :: "dworld \<Rightarrow> string \<Rightarrow> string \<Rightarrow> dtrace \<Rightarrow> duration \<Rightarrow> bool \<Rightarrow> bool" where
  "boot_seen w serial ep h boot ok \<longleftrightarrow>
     (case Reboot w serial ep h of
        (Inl _, _) \<Rightarrow> boot = 0 \<and> \<not> ok
      | (Inr _, h1) \<Rightarrow> 0 \<le> boot \<and> (\<exists>err h2.
          WaitForReady (poll_fuel w) w serial (seconds 300) ep h1 = Some ((boot, err), Now # h2) \<and>
          (if ok then err = None \<and> seen_ready w serial ep h2 else err \<noteq> None \<and> seconds 300 \<le> boot)))"

lemma rebootAndReport_ends:
  assumes "ticking w" and "102 \<le> poll_fuel w"
  shows "\<exists>m' boot ok. rebootAndReport w s m = Some m' \<and> rebooting m' = rebooting m - {sm_Serial s} \<and>
    boot_seen w (sm_Serial s) (adbEndpoint m (sm_Serial s)) (trace m) boot ok \<and>
    (calm w \<longrightarrow> sm_RunID s \<noteq> 0 \<longrightarrow> store m = Some d \<longrightarrow>
       store m' = Some (snd (UpdateBoot None (sm_RunID s) (Seconds boot) ok d)))"
proof -
  let ?ep = "adbEndpoint m (sm_Serial s)"
  obtain r h1 where rb: "Reboot w (sm_Serial s) ?ep (trace m) = (r, h1)" by fastforce
  let ?m1 = "m\<lparr>trace := h1\<rparr>"
  have r: "host (Reboot w (sm_Serial s) ?ep) m = (r, ?m1)" by (simp add: host_def rb)
  have m1: "rebooting ?m1 = rebooting m" "store ?m1 = store m" "trace ?m1 = h1" by simp_all
  have clear: "rebooting (clear_rebooting x m) = rebooting m - {x}" for x m by (simp add: clear_rebooting_def)
  note step = updateBoot_store [of w _ d "sm_RunID s"]
  show ?thesis
  proof (cases r)
    case (Inl e)
    then have "rebootAndReport w s m = Some (updateBootResult w (sm_RunID s) 0 False (clear_rebooting (sm_Serial s) ?m1))"
      by (simp add: rebootAndReport_def r Let_def)
    moreover have "boot_seen w (sm_Serial s) ?ep (trace m) 0 False" by (simp add: boot_seen_def rb Inl)
    ultimately show ?thesis using m1 step [of "clear_rebooting (sm_Serial s) ?m1" 0 False]
      by (intro exI [of _ "updateBootResult w (sm_RunID s) 0 False (clear_rebooting (sm_Serial s) ?m1)"] exI [of _ 0] exI [of _ False])
        (simp add: updateBoot_rebooting clear store_basic)
  next
    case (Inr u)
    have "nat (seconds 300 div seconds 3) + 2 \<le> poll_fuel w" using assms(2) by (simp add: seconds_def nanos_def)
    moreover have "16 \<le> poll_fuel w" using assms(2) by simp
    moreover have "0 \<le> seconds 300" "seconds 300 \<le> max_int" by (simp_all add: seconds_def nanos_def max_int_def)
    ultimately obtain boot err tr where
      wt: "WaitForReady (poll_fuel w) w (sm_Serial s) (seconds 300) ?ep h1 = Some ((boot, err), Now # tr)"
        "0 \<le> boot" "err = None \<longrightarrow> seen_ready w (sm_Serial s) ?ep tr" "err \<noteq> None \<longrightarrow> seconds 300 \<le> boot"
      using WaitForReady_ends [OF assms(1), of "seconds 300" "poll_fuel w" "sm_Serial s" ?ep h1] by blast
    have seen: "boot_seen w (sm_Serial s) ?ep (trace m) boot (err = None)"
      using wt by (cases err) (simp_all add: boot_seen_def rb Inr)
    show ?thesis
    proof (cases err)
      case (Some e)
      let ?m2 = "clear_rebooting (sm_Serial s) (?m1\<lparr>trace := Now # tr\<rparr>)"
      have "rebootAndReport w s m = Some (updateBootResult w (sm_RunID s) boot False ?m2)"
        using Some by (simp add: rebootAndReport_def r Inr wt(1) Let_def)
      then show ?thesis using m1 step [of ?m2 boot False] seen Some
        by (intro exI [of _ "updateBootResult w (sm_RunID s) boot False ?m2"] exI [of _ boot] exI [of _ False])
          (simp add: updateBoot_rebooting clear store_basic)
    next
      case None
      define m2 where "m2 = ?m1\<lparr>trace := sleep (seconds 15) (GrantAppiumPermissions w (sm_Serial s) ?ep (Now # tr))\<rparr>"
      define m3 where "m3 = clear_rebooting (sm_Serial s) (updateBootResult w (sm_RunID s) boot True m2)"
      have "rebootAndReport w s m = Some (if ReconcileFn m3 then emit Signal_reconcile m3 else m3)"
        using None by (simp add: rebootAndReport_def r Inr wt(1) Let_def m2_def m3_def)
      moreover have "rebooting m3 = rebooting m - {sm_Serial s}" using m1 by (simp add: m3_def m2_def clear updateBoot_rebooting)
      moreover have "store m3 = store (updateBootResult w (sm_RunID s) boot True m2)" "store m2 = store m"
        using m1 by (simp_all add: m3_def m2_def store_basic)
      ultimately show ?thesis using step [of m2 boot True] seen None
        by (intro exI [of _ "if ReconcileFn m3 then emit Signal_reconcile m3 else m3"] exI [of _ boot] exI [of _ True])
          (simp add: emit_def)
    qed
  qed
qed

lemma run_of_summary_values:
  "(run_of_summary s)\<lparr>run_ID := i, run_FinishedAt := t, run_HasLogs := l, run_HasScreenshot := p\<rparr> =
     \<lparr>run_ID = i, run_Serial = sm_Serial s, run_Model = sm_Model s, run_FinishedAt = t,
      run_Passing = sm_Passing s, run_Failing = sm_Failing s, run_Pending = sm_Pending s, run_Found = sm_Found s,
      run_BootOK = False, run_BootSeconds = 0, run_TotalSeconds =
        Seconds (if is_zero (sm_StartedAt s) then 0 else time_sub (sm_FinishedAt s) (sm_StartedAt s)),
      run_TestSeconds = sm_TestSecs s, run_HasLogs = l, run_HasScreenshot = p,
      run_BatteryPct = sm_BatteryPct s, run_BatteryTemp = 0, run_UsbPath = sm_UsbPath s,
      run_SessionMs = sm_SessionMs s, run_ApkMs = sm_ApkMs s\<rparr>"
  by (simp add: run_of_summary_def totalDuration_def)

text \<open>C4: The result of a test is in the database at once and complete after the reboot: saving a summary adds
  exactly one run, under a fresh id, with the summary's values one by one, no boot result yet, and the flags of the
  logs and the screenshot that were written; the reboot that follows always ends and adds only its boot result to
  that run: failed with 0 seconds when the reboot command failed, else the seconds the device was waited for, a success
  exactly when it was seen online and booted, a failure only after five minutes.\<close>

theorem run_recorded:
  assumes "calm w" and "ticking w'" and "102 \<le> poll_fuel w'" and "calm w'"
    and "store m = Some d" and "wf_db d" and "year4 (sm_FinishedAt s)" and "saveTestResult w s m = (s', m1)"
  shows "\<exists>d1 d2 m2 boot ok run. store m1 = Some d1 \<and> fetch_run d (sm_RunID s') = None \<and>
    run = \<lparr>run_ID = sm_RunID s', run_Serial = sm_Serial s, run_Model = sm_Model s, run_FinishedAt = floor_sec (sm_FinishedAt s),
      run_Passing = sm_Passing s, run_Failing = sm_Failing s, run_Pending = sm_Pending s, run_Found = sm_Found s,
      run_BootOK = False, run_BootSeconds = 0, run_TotalSeconds =
        Seconds (if is_zero (sm_StartedAt s) then 0 else time_sub (sm_FinishedAt s) (sm_StartedAt s)),
      run_TestSeconds = sm_TestSecs s, run_HasLogs = (sm_TestLog s \<noteq> [] \<or> sm_AppiumLog s \<noteq> []),
      run_HasScreenshot = (sm_Screenshot s \<noteq> []), run_BatteryPct = sm_BatteryPct s, run_BatteryTemp = 0,
      run_UsbPath = sm_UsbPath s, run_SessionMs = sm_SessionMs s, run_ApkMs = sm_ApkMs s\<rparr> \<and>
    fetch_run d1 = (fetch_run d)(sm_RunID s' \<mapsto> run) \<and>
    rebootAndReport w' s' m1 = Some m2 \<and> store m2 = Some d2 \<and> wf_db d2 \<and> sm_Serial s \<notin> rebooting m2 \<and>
    fetch_run d2 = (fetch_run d)(sm_RunID s' \<mapsto> run\<lparr>run_BootOK := ok, run_BootSeconds := Seconds boot\<rparr>) \<and>
    boot_seen w' (sm_Serial s) (adbEndpoint m1 (sm_Serial s)) (trace m1) boot ok"
proof -
  let ?l = "sm_TestLog s \<noteq> [] \<or> sm_AppiumLog s \<noteq> []" and ?p = "sm_Screenshot s \<noteq> []"
  obtain i d1 where sv: "rl.save ?l ?p (run_of_summary s) d = (i, d1)" "s' = s\<lparr>sm_RunID := i\<rparr>" "store m1 = Some d1"
    using saveTestResult_store [OF assms(1,5,8)] by blast
  have y: "year4 (run_FinishedAt (run_of_summary s))" using assms(7) by (simp add: run_of_summary_def)
  note f1 = rl.fetch_save [OF assms(6) y sv(1)]
  have id: "sm_RunID s' = i" "sm_Serial s' = sm_Serial s" "i \<noteq> 0" using sv(2) f1 by auto
  obtain m2 boot ok where m2: "rebootAndReport w' s' m1 = Some m2" "rebooting m2 = rebooting m1 - {sm_Serial s'}"
    "store m2 = Some (snd (UpdateBoot None i (Seconds boot) ok d1))"
    "boot_seen w' (sm_Serial s) (adbEndpoint m1 (sm_Serial s)) (trace m1) boot ok"
    using rebootAndReport_ends [OF assms(2,3), of s' m1 d1] assms(4) sv(3) id by auto
  note f2 = rl.fetch_save_boot [OF assms(6) y sv(1), of "Seconds boot" ok]
  have "wf_db (snd (UpdateBoot None i (Seconds boot) ok d1))"
    using rl.ok_boot [OF rl.ok_save [OF assms(6), of ?l ?p "run_of_summary s"]] sv(1) by simp
  moreover have F1: "fetch_run d i = None" "fetch_run d1 = (fetch_run d)(i \<mapsto> (run_of_summary s)\<lparr>run_ID := i,
      run_FinishedAt := floor_sec (sm_FinishedAt s), run_HasLogs := ?l, run_HasScreenshot := ?p\<rparr>)"
    using f1 by (simp_all add: run_of_summary_def)
  moreover have "fetch_run (snd (UpdateBoot None i (Seconds boot) ok d1)) = (fetch_run d)(i \<mapsto> (run_of_summary s)\<lparr>run_ID := i,
      run_FinishedAt := floor_sec (sm_FinishedAt s), run_HasLogs := ?l, run_HasScreenshot := ?p\<rparr>\<lparr>run_BootOK := ok, run_BootSeconds := Seconds boot\<rparr>)"
    using f2 by (simp add: run_of_summary_def)
  moreover have "sm_Serial s \<notin> rebooting m2" using m2(2) id(2) by simp
  ultimately show ?thesis
    unfolding id(1) run_of_summary_values
    by (intro exI conjI) (rule sv(3), assumption, rule refl, assumption, rule m2(1), rule m2(3), assumption+, rule m2(4))
qed

lemma calm_demo: "calm demo_world" and ticking_demo: "ticking demo_world" and fuel_demo: "102 \<le> poll_fuel demo_world"
  by (simp_all add: calm_def demo_world_def ticking_slept)

theorem run_recorded_witness:
  "\<exists>s' m1 d1 m2. saveTestResult demo_world blank_summary demo_manager = (s', m1) \<and> store m1 = Some d1 \<and>
     rebootAndReport demo_world s' m1 = Some m2 \<and> ''R58M'' \<notin> rebooting m2"
proof -
  obtain s' m1 where s: "saveTestResult demo_world blank_summary demo_manager = (s', m1)"
    by (cases "saveTestResult demo_world blank_summary demo_manager")
  have y: "year4 (sm_FinishedAt blank_summary)" by (simp add: blank_summary_def year4_def nanos_def)
  have wf: "wf_db empty_db" by (simp add: wf_empty_db)
  from run_recorded [OF calm_demo ticking_demo fuel_demo calm_demo demo_store wf y s]
  obtain d1 m2 where "store m1 = Some d1" "rebootAndReport demo_world s' m1 = Some m2"
    "sm_Serial blank_summary \<notin> rebooting m2" by (elim exE conjE) (rule that)
  moreover have "sm_Serial blank_summary = ''R58M''" by (simp add: blank_summary_def)
  ultimately show ?thesis using s by (intro exI conjI) simp_all
qed

section \<open>Properties: no device is left rebooting\<close>

text \<open>
  The manager with the reboots that are under way. A cycle starts some, in the order of its calls; any of
  them may end next. A reboot touches the fields of the manager only at its end, so it is one step here.
\<close>

definition new_reboots :: "manager \<Rightarrow> manager \<Rightarrow> summary list" where
  "new_reboots m m' = concat (map (\<lambda>c. case c of Go_reboot s \<Rightarrow> [s] | _ \<Rightarrow> [])
     (take (length (specials m') - length (specials m)) (specials m')))"

inductive running_system :: "manager \<Rightarrow> summary list \<Rightarrow> bool" where
  started: "rebooting m = {} \<Longrightarrow> running_system m []"
| cycle: "running_system m T \<Longrightarrow> Reconcile w ds m = (r, m') \<Longrightarrow> running_system m' (new_reboots m m' @ T)"
| ended: "running_system m (T1 @ s # T2) \<Longrightarrow> rebootAndReport w s m = Some m' \<Longrightarrow> running_system m' (T1 @ T2)"
| usb: "running_system m T \<Longrightarrow> running_system (SetUSBInfo s p v i m) T"

inductive_cases running_systemE: "running_system m T"

lemma set_new_reboots: "specials m' = new @ specials m \<Longrightarrow> set (new_reboots m m') = {s. Go_reboot s \<in> set new}"
  by (force simp: new_reboots_def split: dcall.splits)

lemma reconcile_rebooting:
  assumes "Reconcile w ds m = (r, m')"
  shows "rebooting m' = rebooting m \<union> sm_Serial ` set (new_reboots m m')"
proof -
  have "snd (Reconcile w ds m) = m'" using assms by simp
  then show ?thesis
  proof (cases rule: Reconcile_cases)
    case (early e)
    then show ?thesis using core_eqD(4) [OF early(2)] set_new_reboots [of m' "[]" m] by simp
  next
    case (cycle confs ready xs ex m5 outs)
    obtain new where n: "specials m' = new @ specials m5"
      "rebooting m' = rebooting m5 \<union> {sm_Serial s | s. Go_reboot s \<in> set new}"
      by (rule cycle_ok_specials [OF reconcile_devices_ok [OF cycle(5)]])
    then show ?thesis
      using core_eqD(4) [OF cycle(1)] cycle(2) set_new_reboots [of m' new m] by auto
  qed
qed

lemma reboot_rebooting: "rebootAndReport w s m = Some m' \<Longrightarrow> rebooting m' = rebooting m - {sm_Serial s}"
proof -
  have h: "rebooting (snd (host f m)) = rebooting m" for f :: "dtrace \<Rightarrow> 'a \<times> dtrace" and m
    by (rule core_eqD(4)) (rule core_basic(1))
  assume "rebootAndReport w s m = Some m'"
  then show ?thesis
    by (auto simp: rebootAndReport_def Let_def case_prod_beta updateBoot_rebooting h clear_rebooting_def emit_def
        split: sum.splits option.splits if_splits)
qed

lemma running_system_inv: "running_system m T \<Longrightarrow> rebooting m \<subseteq> sm_Serial ` set T"
proof (induction rule: running_system.induct)
  case (cycle m T w ds r m')
  then show ?case using reconcile_rebooting [OF cycle(2)] by auto
next
  case (ended m T1 s T2 w m')
  then show ?case using reboot_rebooting [OF ended(2)] by auto
next
  case (usb m T s p v i)
  then show ?case by (cases "s = []") (simp_all add: SetUSBInfo_def)
qed simp

text \<open>C9: No device is left in \<open>rebooting\<close>: in every state the manager can reach, a device that is marked has
  a reboot under way, and that reboot ends in every world whose clock ticks, with the mark taken away.\<close>

theorem rebooting_ends:
  assumes "running_system m T" and "x \<in> rebooting m" and "ticking w" and "102 \<le> poll_fuel w"
  shows "\<exists>T1 s T2 m'. T = T1 @ s # T2 \<and> sm_Serial s = x \<and> rebootAndReport w s m = Some m' \<and>
    x \<notin> rebooting m' \<and> running_system m' (T1 @ T2)"
proof -
  obtain s where s: "s \<in> set T" "sm_Serial s = x" using running_system_inv [OF assms(1)] assms(2) by auto
  then obtain T1 T2 where T: "T = T1 @ s # T2" by (meson split_list)
  obtain m' where m': "rebootAndReport w s m = Some m'" "rebooting m' = rebooting m - {sm_Serial s}"
    using rebootAndReport_ends [OF assms(3,4), of s m] by blast
  have "running_system m' (T1 @ T2)" using assms(1) m'(1) unfolding T by (rule running_system.ended)
  with T s(2) m' show ?thesis by blast
qed

theorem rebooting_ends_witness:
  "\<exists>m T T1 s T2 m'. ''R58M'' \<in> rebooting m \<and> running_system m T \<and> T = T1 @ s # T2 \<and> sm_Serial s = ''R58M'' \<and>
     rebootAndReport demo_world s m = Some m' \<and> ''R58M'' \<notin> rebooting m'"
proof -
  obtain s' m' where m': "Reconcile demo_world [demo_device] demo_manager = ((Inr (), [(''R58M'', Test_reported ''t1'' s')]), m')"
    "''R58M'' \<in> rebooting m'" using demo_cycle by blast
  have "rebooting demo_manager = {}" using demo_core by (simp add: core_def)
  from running_system.cycle [OF running_system.started [OF this] m'(1)]
  have sys: "running_system m' (new_reboots demo_manager m' @ [])" .
  from rebooting_ends [OF sys m'(2) ticking_demo fuel_demo] sys m'(2) show ?thesis by blast
qed

section \<open>Properties: ports and labels\<close>

lemma next_free_props: "next_free used p \<notin> set used \<and> p \<le> next_free used p \<and> (\<forall>q. p \<le> q \<and> q < next_free used p \<longrightarrow> q \<in> set used)"
proof (induction used p rule: next_free.induct)
  case (1 used p)
  show ?case
  proof (cases "p \<in> set used")
    case True
    then have "next_free used p = next_free used (p + 1)" by (simp add: next_free.simps [of used p])
    with 1 [OF True] True show ?thesis by (metis add1_zle_eq dual_order.order_iff_strict order_trans zle_add1_eq_le)
  next
    case False
    then have "next_free used p = p" by (simp add: next_free.simps [of used p])
    with False show ?thesis by auto
  qed
qed

text \<open>\<open>nextPort\<close> ends with a port that no listed container has, not below the base port, and every
  port between the two is taken.\<close>

theorem nextPort_least:
  assumes "0 < BasePort (cfg m)"
  shows "BasePort (cfg m) \<le> nextPort m existing \<and> (\<forall>x \<in> set existing. AppiumPort (snd x) \<noteq> nextPort m existing) \<and>
    (\<forall>q. BasePort (cfg m) \<le> q \<and> q < nextPort m existing \<longrightarrow> (\<exists>x \<in> set existing. AppiumPort (snd x) = q))"
proof -
  define n where "n = nextPort m existing"
  define used where "used = filter (\<lambda>p. p > 0) (map (\<lambda>x. AppiumPort (snd x)) existing)"
  have n: "n \<notin> set used" "BasePort (cfg m) \<le> n" "\<And>q. BasePort (cfg m) \<le> q \<Longrightarrow> q < n \<Longrightarrow> q \<in> set used"
    using next_free_props [of used "BasePort (cfg m)"] unfolding n_def used_def nextPort_def by blast+
  have u: "set used = {q. 0 < q \<and> (\<exists>x \<in> set existing. AppiumPort (snd x) = q)}" by (auto simp: used_def)
  have "\<forall>x \<in> set existing. AppiumPort (snd x) \<noteq> n" using n(1,2) assms unfolding u by auto
  moreover have "\<forall>q. BasePort (cfg m) \<le> q \<and> q < n \<longrightarrow> (\<exists>x \<in> set existing. AppiumPort (snd x) = q)"
    using n(3) unfolding u by auto
  ultimately show ?thesis using n(2) unfolding n_def by blast
qed

theorem nextPort_least_witness: "nextPort demo_manager [(''R58M'', demo_containers)] = 4724"
proof -
  have c: "cfg demo_manager = demo_config" using demo_core by (simp add: core_def)
  then have b: "0 < BasePort (cfg demo_manager)" "BasePort (cfg demo_manager) = 4723" by (simp_all add: demo_config_def)
  have p: "AppiumPort demo_containers = 4723" by (simp add: demo_containers_def no_containers_def)
  define n where "n = nextPort demo_manager [(''R58M'', demo_containers)]"
  have "4723 \<le> n" "n \<noteq> 4723" "\<forall>q. 4723 \<le> q \<and> q < n \<longrightarrow> q = 4723"
    using nextPort_least [OF b(1), of "[(''R58M'', demo_containers)]"] unfolding n_def [symmetric] b(2) by (auto simp: p)
  moreover have "\<not> 4724 < n" using spec [OF calculation(3), of 4724] by simp
  ultimately show ?thesis unfolding n_def by simp
qed

lemma label_simps:
  "val_of (sp_Labels (appium_spec c dev p t)) labelDevice = Serial dev"
  "val_of (sp_Labels (appium_spec c dev p t)) labelModel = Model dev"
  "val_of (sp_Labels (appium_spec c dev p t)) labelRole = roleAppium"
  "val_of (sp_Labels (appium_spec c dev p t)) labelPort = itoa p"
  "val_of (sp_Labels (appium_spec c dev p t)) labelAppiumStartedAt = t"
  "val_of (sp_Labels (test_spec c dev p t b)) labelDevice = Serial dev"
  "val_of (sp_Labels (test_spec c dev p t b)) labelModel = Model dev"
  "val_of (sp_Labels (test_spec c dev p t b)) labelRole = roleTests"
  "val_of (sp_Labels (test_spec c dev p t b)) labelStartedAt = t"
  "val_of (sp_Labels (test_spec c dev p t b)) labelBattery = itoa b"
  by (simp_all add: appium_spec_def test_spec_def val_of_def labelManaged_def labelDevice_def labelRole_def labelModel_def
      labelStartedAt_def labelBattery_def labelPort_def labelAppiumStartedAt_def Let_def)

lemma itoa_not_empty [simp]: "itoa i \<noteq> []"
  by (simp add: itoa_def)

lemma fmt_not_empty: "year4 t \<Longrightarrow> fmt_rfc3339 t \<noteq> []"
  by (simp add: fmt_rfc3339_def Let_def case_prod_beta)

text \<open>The manager's knowledge survives a restart: listing the two containers it created for a device gives
  back, from their labels, the device, its model, the port, the start times (to the second) and the battery
  level they were created with, and their ids, names and states.\<close>

theorem labels_roundtrip:
  assumes "year4 t" and "year4 t'" and "min_int \<le> port" "port \<le> max_int" and "min_int \<le> b" "b \<le> max_int"
    and "existing = foldl add_container []
      [\<lparr>ct_ID = a, ct_Names = [CHR ''/'' # n], ct_State = st, ct_Labels = sp_Labels (appium_spec c dev port (fmt_rfc3339 t))\<rparr>,
       \<lparr>ct_ID = a', ct_Names = [CHR ''/'' # n'], ct_State = st', ct_Labels = sp_Labels (test_spec c dev port (fmt_rfc3339 t') b)\<rparr>]"
  shows "existing = [(Serial dev, \<lparr>AppiumID = a, AppiumPort = port, AppiumName = n, AppiumStatus = st,
    AppiumStartedAt = floor_sec t, TestID = a', TestStatus = st', TestStartedAt = floor_sec t',
    DeviceModel = Model dev, BatteryPct = b\<rparr>)]"
proof -
  have "roleAppium \<noteq> roleTests" by (simp add: roleAppium_def roleTests_def)
  then show ?thesis
    unfolding assms(7) using assms(1-6)
    by (simp add: add_container_def label_simps Let_def fmt_not_empty parse_or_zero_fmt atoi_itoa no_containers_def)
qed

theorem labels_roundtrip_witness:
  "foldl add_container []
      [\<lparr>ct_ID = ''a1'', ct_Names = [''/appium-R58M''], ct_State = ''running'',
        ct_Labels = sp_Labels (appium_spec demo_config demo_device 4724 (fmt_rfc3339 1700000000000000000))\<rparr>,
       \<lparr>ct_ID = ''t1'', ct_Names = [''/tests-R58M''], ct_State = ''exited'',
        ct_Labels = sp_Labels (test_spec demo_config demo_device 4724 (fmt_rfc3339 1700000000000000000) 80)\<rparr>] =
    [(''R58M'', \<lparr>AppiumID = ''a1'', AppiumPort = 4724, AppiumName = ''appium-R58M'', AppiumStatus = ''running'',
    AppiumStartedAt = 1700000000000000000, TestID = ''t1'', TestStatus = ''exited'', TestStartedAt = 1700000000000000000,
    DeviceModel = '''', BatteryPct = 80\<rparr>)]"
proof -
  have y: "year4 1700000000000000000" by (simp add: year4_def nanos_def)
  have r: "min_int \<le> 4724" "4724 \<le> max_int" "min_int \<le> 80" "80 \<le> max_int" by (simp_all add: min_int_def max_int_def)
  have "floor_sec 1700000000000000000 = 1700000000000000000" by (simp add: floor_sec_def nanos_def)
  with labels_roundtrip [OF y y r refl, of "''a1''" "''appium-R58M''" "''running''" demo_config demo_device "''t1''" "''tests-R58M''" "''exited''"]
  show ?thesis by (simp add: demo_device_def zero_device_def)
qed

section \<open>Properties: what a cycle leaves alone\<close>

lemma drop_connected:
  "\<forall>x \<in> set xs. map_of ready (fst x) \<noteq> None \<Longrightarrow> foldl (drop_device w confs ready) m xs = m"
  by (induction xs) (auto simp: drop_device_def)

text \<open>Containers of a device whose Appium and test are running.\<close>

definition both_running :: "containers \<Rightarrow> bool" where
  "both_running dc \<longleftrightarrow> AppiumID dc \<noteq> [] \<and> AppiumStatus dc = ''running'' \<and> TestID dc \<noteq> [] \<and> TestStatus dc = ''running''"

lemma reconcile_running:
  assumes "TestImage (cfg m) \<noteq> []"
    and "\<forall>x \<in> set xs. \<exists>dc. map_of existing (fst x) = Some dc \<and> both_running dc"
  shows "reconcile_devices w confs xs existing m = (map (\<lambda>x. (fst x, Tests_running)) xs, m)"
  using assms(2)
proof (induction xs)
  case (Cons x xs)
  then obtain dc where dc: "map_of existing (fst x) = Some dc" "both_running dc" by auto
  then have "ensure_appium w confs (fst x) (snd x) existing m = (Inr dc, existing, m)"
    by (simp add: ensure_appium_def found_def exited_appium_def both_running_def Let_def)
  moreover have "ensure_test w (fst x) (snd x) dc m = (Tests_running, m)"
    using assms(1) dc(2) by (simp add: ensure_test_def both_running_def)
  ultimately have "reconcile_device w confs x existing m = (Tests_running, existing, m)"
    by (simp add: reconcile_device_def case_prod_beta)
  with Cons show ?case by simp
qed simp

lemma ready_keys:
  "map_of (snd (foldl register_device (m, rs) ds)) s \<noteq> None \<longleftrightarrow> map_of rs s \<noteq> None \<or> (\<exists>d \<in> set ds. IsReady d \<and> Serial d = s)"
proof (induction ds arbitrary: m rs)
  case (Cons d ds)
  obtain m2 where "register_device (m, rs) d = (m2, if IsReady d then AList.update (Serial d) d rs else rs)"
    by (simp add: register_device_def)
  then show ?case using Cons [of m2 "if IsReady d then AList.update (Serial d) d rs else rs"] by (auto simp: update_conv')
qed simp

text \<open>What the cycle's devices make of the endpoint of a serial: the last of them with the serial counts.\<close>

definition listed_endpoint :: "device list \<Rightarrow> (string \<rightharpoonup> string) \<Rightarrow> string \<rightharpoonup> string" where
  "listed_endpoint ds e s =
     (case find (\<lambda>d. Serial d = s) (rev ds) of
        None \<Rightarrow> e s
      | Some d \<Rightarrow> if ADBHost d = [] then None else Some (ADBHost d @ '':'' @ itoa (ADBPort d)))"

lemma register_endpoints:
  "fst (foldl register_device (m, rs) ds) = m\<lparr>adbEndpoints := listed_endpoint ds (adbEndpoints m)\<rparr>"
proof (induction ds rule: rev_induct)
  case Nil
  have "listed_endpoint [] e = e" for e by (rule ext) (simp add: listed_endpoint_def)
  then show ?case by simp
next
  case (snoc d ds)
  obtain m1 rs1 where f: "foldl register_device (m, rs) ds = (m1, rs1)" by (cases "foldl register_device (m, rs) ds")
  let ?u = "\<lambda>e. e(Serial d := if ADBHost d \<noteq> [] then Some (ADBHost d @ '':'' @ itoa (ADBPort d)) else None)"
  have le: "listed_endpoint (ds @ [d]) e = ?u (listed_endpoint ds e)" for e
    by (rule ext) (auto simp: listed_endpoint_def)
  have m1: "m1 = m\<lparr>adbEndpoints := listed_endpoint ds (adbEndpoints m)\<rparr>" using snoc f by simp
  have "fst (register_device (m1, rs1) d) = m1\<lparr>adbEndpoints := ?u (adbEndpoints m1)\<rparr>" by (simp add: register_device_def)
  also have "\<dots> = m\<lparr>adbEndpoints := ?u (listed_endpoint ds (adbEndpoints m))\<rparr>" unfolding m1 by simp
  finally show ?case by (simp only: le foldl_append f foldl.simps)
qed


text \<open>The example's host with the test still running.\<close>

definition busy_world :: dworld where
  "busy_world = demo_world\<lparr>managed_answer := (\<lambda>_. Inr
     [\<lparr>ct_ID = ''a1'', ct_Names = [''/appium-R58M''], ct_State = ''running'', ct_Labels = demo_labels roleAppium\<rparr>,
      \<lparr>ct_ID = ''t1'', ct_Names = [''/tests-R58M''], ct_State = ''running'', ct_Labels = demo_labels roleTests\<rparr>])\<rparr>"

lemma busy_listed:
  "foldl add_container [] [\<lparr>ct_ID = ''a1'', ct_Names = [''/appium-R58M''], ct_State = ''running'', ct_Labels = demo_labels roleAppium\<rparr>,
      \<lparr>ct_ID = ''t1'', ct_Names = [''/tests-R58M''], ct_State = ''running'', ct_Labels = demo_labels roleTests\<rparr>] =
   [(''R58M'', demo_containers\<lparr>TestStatus := ''running''\<rparr>)]"
proof -
  have "atoi ''4723'' = (4723, True)"
    by (simp add: atoi_def all_digits_def is_digit_def digits_val_def digit_val_def code_def max_int_def min_int_def)
  moreover have "roleAppium \<noteq> roleTests" by (simp add: roleAppium_def roleTests_def)
  ultimately show ?thesis
    by (simp add: add_container_def demo_labels_at Let_def demo_containers_def no_containers_def)
qed


end
