(* ===== verification/Docker_Cycles.thy ===== *)
theory Docker_Cycles
  imports Docker_Facts
begin

text \<open>
  Cycles of the Docker manager that overlap. \<open>main.go\<close> calls \<open>Reconcile\<close> from the callback of the device stream and
  from the goroutine behind the reconcile channel, and no lock keeps the two apart. Here \<open>Reconcile\<close> is cut
  where it lets others run: a cycle is a point of the code with its local variables, a step goes on to the next
  point, and any number of cycles take their steps on one manager in any order, each in any world, with the other
  operations in between. One cycle that runs alone is \<open>Reconcile\<close>.

  A step makes at most one access to a map that cycles share (\<open>reported\<close>, \<open>rebooting\<close>, the endpoints), or it is a
  call of the program that shares nothing but what it changes outside: creating a container with its checks is
  one step.
\<close>

section \<open>The points of a cycle\<close>

text \<open>The variables of the loop over the ready devices: the settings, the devices to come, the containers.\<close>

record walk =
  wk_confs :: "string \<rightharpoonup> device_config"
  wk_rest :: "(string \<times> device) list"
  wk_existing :: "(string \<times> containers) list"

datatype point =
    P_network "device list"
  | P_list "device list"
  | P_configs "device list" "(string \<times> containers) list"
  | P_register "string \<rightharpoonup> device_config" "device list" "(string \<times> device) list" "(string \<times> containers) list"
  | P_drop "string \<rightharpoonup> device_config" "(string \<times> device) list" "(string \<times> containers) list" "(string \<times> containers) list"
  | P_appium walk
  | P_test walk string device containers
  | P_start walk string device containers
  | P_report walk string containers
  | P_remove walk string string summary
  | P_save walk string string summary
  | P_reboot walk string string summary
  | P_end "unit res"

text \<open>A step gives the outcome of a device when it is done with it. \<open>P_report\<close> is reached by the step that puts the
  container's id into \<open>reported\<close>, \<open>LoadOrStore\<close>.\<close>

definition appium_step :: "dworld \<Rightarrow> walk \<Rightarrow> manager \<Rightarrow> (string \<times> outcome) list \<times> point \<times> manager" where
  "appium_step w k m =
     (case wk_rest k of
        [] \<Rightarrow> ([], P_end (Inr ()), m)
      | (serial, dev) # rest \<Rightarrow>
          let (r, ex, m1) = ensure_appium w (wk_confs k) serial dev (wk_existing k) m;
              k1 = k\<lparr>wk_rest := rest, wk_existing := ex\<rparr>
          in case r of
               Inl out \<Rightarrow> ([(serial, out)], P_appium k1, m1)
             | Inr dc \<Rightarrow> ([], P_test k1 serial dev dc, m1))"

definition test_step ::
  "dworld \<Rightarrow> walk \<Rightarrow> string \<Rightarrow> device \<Rightarrow> containers \<Rightarrow> manager \<Rightarrow> (string \<times> outcome) list \<times> point \<times> manager" where
  "test_step w k serial dev dc m =
     (if TestImage (cfg m) = [] then ([(serial, Tests_disabled)], P_appium k, m)
      else if TestID dc \<noteq> [] \<and> TestStatus dc = ''running'' then ([(serial, Tests_running)], P_appium k, m)
      else if TestID dc \<noteq> [] then
        (if TestID dc \<in> reported m
         then ([(serial, Stale_removed (TestID dc))], P_appium k, remove_test w (TestID dc) m)
         else ([], P_report k serial dc, m\<lparr>reported := insert (TestID dc) (reported m)\<rparr>))
      else if serial \<in> rebooting m then ([(serial, Still_rebooting)], P_appium k, m)
      else ([], P_start k serial dev dc, m))"

fun cycle_step :: "dworld \<Rightarrow> point \<Rightarrow> manager \<Rightarrow> (string \<times> outcome) list \<times> point \<times> manager" where
  "cycle_step w (P_network ds) m =
     (let (net, m1) = ensureNetwork w m
      in ([], case net of Inl e \<Rightarrow> P_end (Inl (''ensure network: '' @ e)) | Inr _ \<Rightarrow> P_list ds, m1))"
| "cycle_step w (P_list ds) m =
     (let (listed, m1) = listManaged w m
      in ([], case listed of Inl e \<Rightarrow> P_end (Inl (''list managed containers: '' @ e)) | Inr ex \<Rightarrow> P_configs ds ex, m1))"
| "cycle_step w (P_configs ds ex) m = (let (confs, m1) = load_configs w m in ([], P_register confs ds [] ex, m1))"
| "cycle_step w (P_register confs [] ready ex) m = ([], P_drop confs ready (range_existing w (trace m) ex) ex, m)"
| "cycle_step w (P_register confs (d # ds) ready ex) m =
     (let (m1, ready1) = register_device (m, ready) d in ([], P_register confs ds ready1 ex, m1))"
| "cycle_step w (P_drop confs ready [] ex) m =
     ([], P_appium \<lparr>wk_confs = confs, wk_rest = range_ready w (trace m) ready, wk_existing = ex\<rparr>, m)"
| "cycle_step w (P_drop confs ready (x # xs) ex) m = ([], P_drop confs ready xs ex, drop_device w confs ready m x)"
| "cycle_step w (P_appium k) m = appium_step w k m"
| "cycle_step w (P_test k serial dev dc) m = test_step w k serial dev dc m"
| "cycle_step w (P_start k serial dev dc) m =
     (let (r, m1) = createTest w dev (AppiumPort dc) m
      in case r of
           Inl e \<Rightarrow> ([(serial, Test_failed e)], P_appium k, m1)
         | Inr _ \<Rightarrow> ([(serial, Test_started)], P_appium k, recordContainerEvent w serial ''test_create'' (''tests-'' @ serial) m1))"
| "cycle_step w (P_report k serial dc) m =
     (let (s, m1) = reportTestResult w serial dc m in ([], P_remove k serial (TestID dc) s, m1))"
| "cycle_step w (P_remove k serial i s) m = ([], P_save k serial i s, remove_test w i m)"
| "cycle_step w (P_save k serial i s) m = (let (s', m1) = saveTestResult w s m in ([], P_reboot k serial i s', m1))"
| "cycle_step w (P_reboot k serial i s) m =
     ([(serial, Test_reported i s)], P_appium k, emit (Go_reboot s) (m\<lparr>rebooting := insert serial (rebooting m)\<rparr>))"
| "cycle_step w (P_end r) m = ([], P_end r, m)"

section \<open>One cycle alone\<close>

fun cycle_run :: "dworld \<Rightarrow> nat \<Rightarrow> point \<Rightarrow> manager \<Rightarrow> (string \<times> outcome) list \<times> point \<times> manager" where
  "cycle_run w 0 p m = ([], p, m)"
| "cycle_run w (Suc n) p m =
     (let (outs, p1, m1) = cycle_step w p m; (outs', p2, m2) = cycle_run w n p1 m1 in (outs @ outs', p2, m2))"

definition leads :: "dworld \<Rightarrow> point \<times> manager \<Rightarrow> (string \<times> outcome) list \<Rightarrow> point \<times> manager \<Rightarrow> bool" where
  "leads w a outs b \<longleftrightarrow> (\<exists>n. cycle_run w n (fst a) (snd a) = (outs, b))"

lemma cycle_run_add:
  "cycle_run w (i + j) p m =
    (let (outs, p1, m1) = cycle_run w i p m; (outs', p2, m2) = cycle_run w j p1 m1 in (outs @ outs', p2, m2))"
  by (induction i arbitrary: p m) (simp_all add: Let_def case_prod_beta)

lemma leads_refl: "leads w a [] a"
  unfolding leads_def by (rule exI [of _ 0]) simp

lemma leads_trans: "leads w a outs b \<Longrightarrow> leads w b outs' c \<Longrightarrow> leads w a (outs @ outs') c"
proof -
  assume "leads w a outs b" "leads w b outs' c"
  then obtain i j where "cycle_run w i (fst a) (snd a) = (outs, b)" "cycle_run w j (fst b) (snd b) = (outs', c)"
    by (auto simp: leads_def)
  then have "cycle_run w (i + j) (fst a) (snd a) = (outs @ outs', c)"
    by (cases b; cases c) (simp add: cycle_run_add)
  then show ?thesis unfolding leads_def by blast
qed

lemma leads_step: "cycle_step w p m = (outs, p1, m1) \<Longrightarrow> leads w (p1, m1) outs' b \<Longrightarrow> leads w (p, m) (outs @ outs') b"
proof -
  assume *: "cycle_step w p m = (outs, p1, m1)"
  have "leads w (p, m) outs (p1, m1)" unfolding leads_def by (rule exI [of _ "Suc 0"]) (simp add: *)
  then show "leads w (p1, m1) outs' b \<Longrightarrow> leads w (p, m) (outs @ outs') b" by (rule leads_trans)
qed

lemmas leads_one = leads_step [where outs = "[]", simplified]

lemma leads_test:
  "leads w (P_test k s dev dc, m) [(s, fst (ensure_test w s dev dc m))] (P_appium k, snd (ensure_test w s dev dc m))"
proof -
  let ?E = "ensure_test w s dev dc m"
  let ?m1 = "m\<lparr>reported := insert (TestID dc) (reported m)\<rparr>"
  consider (once) "TestImage (cfg m) = [] \<or> TestID dc \<noteq> [] \<and> (TestStatus dc = ''running'' \<or> TestID dc \<in> reported m) \<or>
      TestID dc = [] \<and> s \<in> rebooting m"
    | (ended) "TestImage (cfg m) \<noteq> []" "TestID dc \<noteq> []" "TestStatus dc \<noteq> ''running''" "TestID dc \<notin> reported m"
    | (start) "TestImage (cfg m) \<noteq> []" "TestID dc = []" "s \<notin> rebooting m" by blast
  then show ?thesis
  proof cases
    case once
    then have "cycle_step w (P_test k s dev dc) m = ([(s, fst ?E)], P_appium k, snd ?E)"
      by (auto simp: test_step_def ensure_test_def)
    from leads_step [OF this leads_refl] show ?thesis by simp
  next
    case ended
    have e: "?E = (let (r, m2) = reportTestResult w s dc ?m1; m3 = remove_test w (TestID dc) m2; (s', m4) = saveTestResult w r m3
      in (Test_reported (TestID dc) s', emit (Go_reboot s') (m4\<lparr>rebooting := insert s (rebooting m4)\<rparr>)))"
      using ended by (simp add: ensure_test_def Let_def)
    have 1: "cycle_step w (P_test k s dev dc) m = ([], P_report k s dc, ?m1)"
      using ended by (simp add: test_step_def)
    obtain r m2 where 2: "reportTestResult w s dc ?m1 = (r, m2)" by (cases "reportTestResult w s dc ?m1")
    obtain s' m4 where 3: "saveTestResult w r (remove_test w (TestID dc) m2) = (s', m4)"
      by (cases "saveTestResult w r (remove_test w (TestID dc) m2)")
    have "cycle_step w (P_report k s dc) ?m1 = ([], P_remove k s (TestID dc) r, m2)"
      "cycle_step w (P_remove k s (TestID dc) r) m2 = ([], P_save k s (TestID dc) r, remove_test w (TestID dc) m2)"
      "cycle_step w (P_save k s (TestID dc) r) (remove_test w (TestID dc) m2) = ([], P_reboot k s (TestID dc) s', m4)"
      "cycle_step w (P_reboot k s (TestID dc) s') m4 = ([(s, fst ?E)], P_appium k, snd ?E)"
      by (simp_all add: 2 3 e)
    from leads_one [OF 1 leads_one [OF this(1) leads_one [OF this(2) leads_one [OF this(3) leads_step [OF this(4) leads_refl]]]]]
    show ?thesis by simp
  next
    case start
    have "cycle_step w (P_test k s dev dc) m = ([], P_start k s dev dc, m)" using start by (simp add: test_step_def)
    moreover have "cycle_step w (P_start k s dev dc) m = ([(s, fst ?E)], P_appium k, snd ?E)"
      using start by (simp add: ensure_test_def case_prod_beta split: sum.split)
    ultimately show ?thesis using leads_one [OF _ leads_step [OF _ leads_refl]] by fastforce
  qed
qed

lemma leads_walk:
  "reconcile_devices w (wk_confs k) (wk_rest k) (wk_existing k) m = (outs, m') \<Longrightarrow> leads w (P_appium k, m) outs (P_end (Inr ()), m')"
proof (induction "wk_rest k" arbitrary: k m outs m')
  case Nil
  from Nil(1) [symmetric] Nil(2) have "cycle_step w (P_appium k) m = ([], P_end (Inr ()), m')" "outs = []"
    by (simp_all add: appium_step_def)
  then show ?case using leads_one [OF _ leads_refl] by metis
next
  case (Cons x xs)
  obtain serial dev where x: "x = (serial, dev)" by (cases x)
  obtain r ex m1 where a: "ensure_appium w (wk_confs k) serial dev (wk_existing k) m = (r, ex, m1)" by (metis prod_cases3)
  define k1 where "k1 = k\<lparr>wk_rest := xs, wk_existing := ex\<rparr>"
  have k1: "wk_rest k1 = xs" "wk_confs k1 = wk_confs k" "wk_existing k1 = ex" by (simp_all add: k1_def)
  show ?case
  proof (cases r)
    case (Inl out)
    obtain outs' where o: "reconcile_devices w (wk_confs k1) (wk_rest k1) (wk_existing k1) m1 = (outs', m')" "outs = (serial, out) # outs'"
      using Cons.prems a Inl Cons.hyps(2) [symmetric] by (auto simp: reconcile_device_def x k1 split: prod.splits)
    have "cycle_step w (P_appium k) m = ([(serial, out)], P_appium k1, m1)"
      using a Inl Cons.hyps(2) [symmetric] by (simp add: appium_step_def x k1_def)
    from leads_step [OF this Cons.hyps(1) [OF k1(1) [symmetric] o(1)]] show ?thesis by (simp add: o)
  next
    case (Inr dc)
    obtain out m2 where t: "ensure_test w serial dev dc m1 = (out, m2)" by (cases "ensure_test w serial dev dc m1")
    obtain outs' where o: "reconcile_devices w (wk_confs k1) (wk_rest k1) (wk_existing k1) m2 = (outs', m')" "outs = (serial, out) # outs'"
      using Cons.prems a Inr t Cons.hyps(2) [symmetric] by (auto simp: reconcile_device_def x k1 split: prod.splits)
    have 1: "cycle_step w (P_appium k) m = ([], P_test k1 serial dev dc, m1)"
      using a Inr Cons.hyps(2) [symmetric] by (simp add: appium_step_def x k1_def)
    have "leads w (P_test k1 serial dev dc, m1) [(serial, out)] (P_appium k1, m2)" using leads_test [of w k1 serial dev dc m1] t by simp
    from leads_one [OF 1 leads_trans [OF this Cons.hyps(1) [OF k1(1) [symmetric] o(1)]]] show ?thesis by (simp add: o)
  qed
qed

lemma leads_drop:
  "leads w (P_drop confs ready xs ex, m) []
    (P_appium \<lparr>wk_confs = confs, wk_rest = range_ready w (trace (foldl (drop_device w confs ready) m xs)) ready, wk_existing = ex\<rparr>,
     foldl (drop_device w confs ready) m xs)"
proof (induction xs arbitrary: m)
  case (Cons x xs)
  show ?case by (rule leads_one) (use Cons in simp_all)
qed (rule leads_one [OF _ leads_refl], simp)

lemma leads_register:
  "foldl register_device (m, ready) ds = (m', ready') \<Longrightarrow>
    leads w (P_register confs ds ready ex, m) [] (P_drop confs ready' (range_existing w (trace m') ex) ex, m')"
proof (induction ds arbitrary: m ready)
  case (Cons d ds)
  obtain m1 r1 where 1: "register_device (m, ready) d = (m1, r1)" by (cases "register_device (m, ready) d")
  show ?case by (rule leads_one) (use Cons 1 in simp_all)
qed (rule leads_one [OF _ leads_refl], simp)

lemma leads_Reconcile:
  assumes "Reconcile w ds m = ((r, outs), m')"
  shows "leads w (P_network ds, m) outs (P_end r, m')"
proof -
  obtain net m1 where n: "ensureNetwork w m = (net, m1)" by (cases "ensureNetwork w m")
  obtain listed m2 where l: "listManaged w m1 = (listed, m2)" by (cases "listManaged w m1")
  obtain confs m3 where c: "load_configs w m2 = (confs, m3)" by (cases "load_configs w m2")
  obtain m4 ready where g: "foldl register_device (m3, []) ds = (m4, ready)" by (cases "foldl register_device (m3, []) ds")
  show ?thesis
  proof (cases net)
    case (Inl e)
    with assms show ?thesis by (auto simp: Reconcile_def n intro!: leads_one [OF _ leads_refl])
  next
    case net: (Inr u)
    have 1: "cycle_step w (P_network ds) m = ([], P_list ds, m1)" by (simp add: n net)
    show ?thesis
    proof (cases listed)
      case (Inl e)
      have "cycle_step w (P_list ds) m1 = ([], P_end r, m')" "outs = []"
        using assms by (auto simp: Reconcile_def n net l Inl)
      with leads_one [OF 1 leads_one [OF this(1) leads_refl]] show ?thesis by simp
    next
      case (Inr ex)
      let ?xs = "range_existing w (trace m4) ex"
      let ?m5 = "foldl (drop_device w confs ready) m4 ?xs"
      let ?k = "\<lparr>wk_confs = confs, wk_rest = range_ready w (trace ?m5) ready, wk_existing = ex\<rparr>"
      have r: "r = Inr ()" "reconcile_devices w (wk_confs ?k) (wk_rest ?k) (wk_existing ?k) ?m5 = (outs, m')"
        using assms by (auto simp: Reconcile_def n net l Inr c g Let_def split: prod.splits)
      have 2: "cycle_step w (P_list ds) m1 = ([], P_configs ds ex, m2)" by (simp add: l Inr)
      have 3: "cycle_step w (P_configs ds ex) m2 = ([], P_register confs ds [] ex, m3)" by (simp add: c)
      from leads_trans [OF leads_register [OF g] leads_trans [OF leads_drop leads_walk [OF r(2)]]]
      have "leads w (P_register confs ds [] ex, m3) outs (P_end r, m')" using r(1) by simp
      from leads_one [OF 1 leads_one [OF 2 leads_one [OF 3 this]]] show ?thesis .
    qed
  qed
qed

section \<open>Cycles together\<close>

text \<open>The manager and the cycles that have begun, by number. Other operations of the manager, atomic ones, go on.\<close>

type_synonym cycles = "manager \<times> point list"

datatype act = Begin "device list" | Step dworld nat | Op op

fun act_step :: "act \<Rightarrow> cycles \<Rightarrow> string list \<times> cycles" where
  "act_step (Begin ds) st = ([], (fst st, snd st @ [P_network ds]))"
| "act_step (Step w i) st =
     (if i < length (snd st)
      then let (outs, p, m) = cycle_step w (snd st ! i) (fst st) in (reported_ids outs, (m, (snd st)[i := p]))
      else ([], st))"
| "act_step (Op x) st = (let (ids, m) = run_op x (fst st) in (ids, (m, snd st)))"

fun run_acts :: "act list \<Rightarrow> cycles \<Rightarrow> string list \<times> cycles" where
  "run_acts [] st = ([], st)"
| "run_acts (a # acts) st = (let (ids, st1) = act_step a st; (ids', st2) = run_acts acts st1 in (ids @ ids', st2))"

text \<open>The container whose result a cycle has taken and not yet handed on.\<close>

fun pending_of :: "point \<Rightarrow> string list" where
  "pending_of (P_report k serial dc) = [TestID dc]"
| "pending_of (P_remove k serial i s) = [i]"
| "pending_of (P_save k serial i s) = [i]"
| "pending_of (P_reboot k serial i s) = [i]"
| "pending_of _ = []"

definition pending :: "point list \<Rightarrow> string list" where
  "pending ps = concat (map pending_of ps)"

lemma pending_append [simp]: "pending (ps @ qs) = pending ps @ pending qs" and pending_Cons [simp]: "pending (p # ps) = pending_of p @ pending ps"
  and pending_Nil [simp]: "pending [] = []"
  by (simp_all add: pending_def)

lemma pending_update:
  "i < length ps \<Longrightarrow> mset (pending (ps[i := p])) + mset (pending_of (ps ! i)) = mset (pending ps) + mset (pending_of p)"
proof (induction ps arbitrary: i)
  case (Cons q qs)
  then show ?case by (cases i) (auto simp: add.commute add.left_commute)
qed simp

text \<open>What a step takes: new ids, which are kept until they are handed on.\<close>

definition takes :: "string set \<Rightarrow> string list \<Rightarrow> string list \<Rightarrow> string list \<Rightarrow> string set \<Rightarrow> bool" where
  "takes before held ids held' after \<longleftrightarrow>
     (\<exists>new. distinct new \<and> set new \<inter> before = {} \<and> after = before \<union> set new \<and> mset (ids @ held') = mset (new @ held))"

lemma takes_none: "takes R held [] held R"
  unfolding takes_def by (rule exI [of _ "[]"]) simp

lemma takes_trans: "takes R held ids held' R' \<Longrightarrow> takes R' held' ids' held'' R'' \<Longrightarrow> takes R held (ids @ ids') held'' R''"
proof -
  assume "takes R held ids held' R'" "takes R' held' ids' held'' R''"
  then obtain a b where "distinct a" "set a \<inter> R = {}" "R' = R \<union> set a" "mset (ids @ held') = mset (a @ held)"
    "distinct b" "set b \<inter> R' = {}" "R'' = R' \<union> set b" "mset (ids' @ held'') = mset (b @ held')"
    unfolding takes_def by blast
  then show ?thesis unfolding takes_def by (intro exI [of _ "a @ b"]) auto
qed

lemma takes_core: "core m' = core m \<Longrightarrow> mset (ids @ held') = mset held \<Longrightarrow> takes (reported m) held ids held' (reported m')"
  unfolding takes_def using core_eqD(5) [of m' m] by (intro exI [of _ "[]"]) simp

lemma ensure_appium_unreported:
  "ensure_appium w confs s dev ex m = (Inl out, ex', m') \<Longrightarrow> reported_id (s, out) = []"
  by (cases rule: ensure_appium_cases [of ex s w confs dev m]) auto

lemma step_takes:
  assumes "cycle_step w p m = (outs, p', m')"
  shows "takes (reported m) (pending_of p) (reported_ids outs) (pending_of p') (reported m')"
proof (cases p)
  case (P_appium k)
  show ?thesis
  proof (cases "wk_rest k")
    case Nil
    with assms P_appium show ?thesis by (auto simp: appium_step_def takes_none reported_ids_def)
  next
    case (Cons x xs)
    obtain serial dev where x: "x = (serial, dev)" by (cases x)
    obtain r ex m1 where a: "ensure_appium w (wk_confs k) serial dev (wk_existing k) m = (r, ex, m1)" by (metis prod_cases3)
    have "core m1 = core m" using core_ensure_appium [of w "wk_confs k" serial dev "wk_existing k" m] a by simp
    with assms P_appium Cons a ensure_appium_unreported [of w "wk_confs k" serial dev "wk_existing k" m] show ?thesis
      by (auto simp: appium_step_def x reported_ids_def Let_def intro!: takes_core split: sum.splits)
  qed
next
  case (P_test k serial dev dc)
  show ?thesis
  proof (cases "p' = P_report k serial dc")
    case True
    with assms P_test show ?thesis
      by (auto simp: test_step_def reported_ids_def takes_def intro!: exI [of _ "[TestID dc]"] split: if_splits)
  next
    case False
    with assms P_test show ?thesis
      by (auto simp: test_step_def reported_ids_def frame intro!: takes_core split: if_splits)
  qed
next
  case (P_start k serial dev dc)
  then show ?thesis using assms core_createTest [of w dev "AppiumPort dc" m]
    by (auto simp: reported_ids_def core_recordEvent intro!: takes_core split: prod.splits sum.splits)
next
  case (P_register confs ds ready ex)
  then show ?thesis using assms
    by (cases ds) (auto simp: reported_ids_def register_device_def frame intro!: takes_core split: prod.splits)
next
  case (P_drop confs ready xs ex)
  then show ?thesis using assms core_drop [of w confs ready m "[hd xs]"]
    by (cases xs) (auto simp: reported_ids_def intro!: takes_core)
next
  case (P_report k serial dc)
  then show ?thesis using assms core_report [of w serial dc m]
    by (auto simp: reported_ids_def intro!: takes_core split: prod.splits)
next
  case (P_save k serial i s)
  then show ?thesis using assms core_saveTestResult [of w s m]
    by (auto simp: reported_ids_def intro!: takes_core split: prod.splits)
next
  case (P_reboot k serial i s)
  then show ?thesis using assms
    by (auto simp: reported_ids_def takes_def emit_def intro!: exI [of _ "[]"])
next
  case (P_network ds)
  then show ?thesis using assms core_listing(2) [of w m]
    by (auto simp: reported_ids_def intro!: takes_core split: prod.splits sum.splits)
next
  case (P_list ds)
  then show ?thesis using assms core_listing(1) [of w m]
    by (auto simp: reported_ids_def intro!: takes_core split: prod.splits sum.splits)
next
  case (P_configs ds ex)
  then show ?thesis using assms core_listing(3) [of w m]
    by (auto simp: reported_ids_def intro!: takes_core split: prod.splits)
qed (use assms in \<open>auto simp: reported_ids_def core_remove intro!: takes_core\<close>)


lemma once_takes: "run_op x m = (ids, m') \<Longrightarrow> takes (reported m) held ids held (reported m')"
  using dk.step_once [of x m ids m'] unfolding takes_def by (intro exI [of _ ids]) auto

lemma act_takes:
  assumes "act_step a st = (ids, st')"
  shows "takes (reported (fst st)) (pending (snd st)) ids (pending (snd st')) (reported (fst st'))"
proof (cases a)
  case (Begin ds)
  with assms show ?thesis by (auto simp: takes_none)
next
  case (Op x)
  with assms show ?thesis by (auto simp: once_takes split: prod.splits)
next
  case (Step w i)
  show ?thesis
  proof (cases "i < length (snd st)")
    case True
    obtain outs p m where c: "cycle_step w (snd st ! i) (fst st) = (outs, p, m)" by (metis prod_cases3)
    obtain new where new: "distinct new" "set new \<inter> reported (fst st) = {}" "reported m = reported (fst st) \<union> set new"
      "mset (reported_ids outs @ pending_of p) = mset (new @ pending_of (snd st ! i))"
      using step_takes [OF c] by (auto simp: takes_def)
    have "mset (reported_ids outs @ pending ((snd st)[i := p])) + mset (pending_of (snd st ! i)) =
        mset (new @ pending (snd st)) + mset (pending_of (snd st ! i))"
      using new(4) pending_update [OF True, of p] by (simp add: algebra_simps)
    then have "mset (reported_ids outs @ pending ((snd st)[i := p])) = mset (new @ pending (snd st))"
      by (simp only: add_right_cancel)
    with new True assms c Step show ?thesis by (auto simp: takes_def intro!: exI [of _ new])
  qed (use assms Step in \<open>auto simp: takes_none\<close>)
qed

lemma acts_take:
  "run_acts acts st = (ids, st') \<Longrightarrow> takes (reported (fst st)) (pending (snd st)) ids (pending (snd st')) (reported (fst st'))"
proof (induction acts arbitrary: st ids)
  case (Cons a acts)
  obtain ids1 st1 where 1: "act_step a st = (ids1, st1)" by (cases "act_step a st")
  obtain ids2 where 2: "run_acts acts st1 = (ids2, st')" "ids = ids1 @ ids2" using Cons.prems 1 by (auto split: prod.splits)
  from takes_trans [OF act_takes [OF 1] Cons.IH [OF 2(1)]] show ?case by (simp add: 2(2))
qed (simp add: takes_none)

text \<open>Steps of one cycle that is alone with itself are those of a run.\<close>

lemma run_acts_append:
  "run_acts (xs @ ys) st = (let (ids, st1) = run_acts xs st; (ids', st2) = run_acts ys st1 in (ids @ ids', st2))"
  by (induction xs arbitrary: st) (simp_all add: Let_def case_prod_beta)

lemma reported_ids_append: "reported_ids (xs @ ys) = reported_ids xs @ reported_ids ys"
  by (simp add: reported_ids_def)

lemma run_steps:
  "cycle_run w n (ps ! i) m = (outs, p', m') \<Longrightarrow> i < length ps \<Longrightarrow>
    run_acts (replicate n (Step w i)) (m, ps) = (reported_ids outs, (m', ps[i := p']))"
proof (induction n arbitrary: ps m outs)
  case 0
  then show ?case by (auto simp: reported_ids_def)
next
  case (Suc n)
  obtain o1 p1 m1 where 1: "cycle_step w (ps ! i) m = (o1, p1, m1)" by (metis prod_cases3)
  obtain o2 where 2: "cycle_run w n p1 m1 = (o2, p', m')" "outs = o1 @ o2" using Suc.prems 1 by (auto split: prod.splits)
  show ?case using Suc.IH [of "ps[i := p1]" m1 o2] Suc.prems(2) by (simp add: 1 2 reported_ids_append)
qed

lemma leads_acts:
  assumes "leads w (ps ! i, m) outs (p', m')" and "i < length ps"
  shows "\<exists>acts. run_acts acts (m, ps) = (reported_ids outs, (m', ps[i := p']))"
proof -
  obtain n where "cycle_run w n (ps ! i) m = (outs, p', m')" using assms(1) by (auto simp: leads_def)
  from run_steps [OF this assms(2)] show ?thesis by blast
qed

section \<open>A race\<close>

text \<open>A test that is started: the container is created once the battery gate is passed.\<close>

lemma createTest_passes:
  assumes "\<not> isK8sMode m" and "\<And>m. \<exists>b. fst (battery_gate w (Serial dev) m) = Inr b"
    and "\<And>tr n sp. \<exists>c. create_answer w tr n sp = Inr c" and "\<And>tr c. start_error w tr c = None"
  shows "fst (createTest w dev p m) = Inr () \<and>
    (\<exists>sp. val_of (sp_Labels sp) labelDevice = Serial dev \<and>
      specials (snd (createTest w dev p m)) = Create (''tests-'' @ sanitize (Serial dev)) sp # specials m)"
proof -
  obtain t m1 where t: "host (now w) m = (t, m1)" by (cases "host (now w) m")
  define m3 where "m3 = snd (host (\<lambda>tr. ((), GrantAppiumPermissions w (Serial dev)
      (adbEndpoint (remove_container (''tests-'' @ sanitize (Serial dev)) m1) (Serial dev)) tr))
      (remove_container (''tests-'' @ sanitize (Serial dev)) m1))"
  obtain b m4 where g: "battery_gate w (Serial dev) m3 = (Inr b, m4)"
    using assms(2) [of m3] by (cases "battery_gate w (Serial dev) m3") auto
  have m3: "specials m3 = specials m" using specials_host [of "now w" m] t by (simp add: m3_def frame)
  have m4: "specials m4 = specials m" using specials_battery [of w "Serial dev" m3] g m3 by simp
  define sp where "sp = test_spec (cfg m4) dev p (fmt_rfc3339 t) b"
  have e: "createTest w dev p m = launch_test w (''tests-'' @ sanitize (Serial dev)) sp m4"
    using assms(1) createTest_def [of w dev p m, unfolded Let_def t case_prod_conv m3_def [symmetric] g] by (simp add: sp_def)
  obtain c where "create_answer w (trace m4) (''tests-'' @ sanitize (Serial dev)) sp = Inr c" using assms(3) by blast
  then have "fst (launch_test w (''tests-'' @ sanitize (Serial dev)) sp m4) = Inr ()"
    by (simp add: launch_test_def Let_def assms(4))
  moreover have "special (Create (''tests-'' @ sanitize (Serial dev)) sp)" by (simp add: sp_def)
  moreover have "val_of (sp_Labels sp) labelDevice = Serial dev"
    by (simp add: sp_def test_spec_def val_of_def labelManaged_def labelDevice_def)
  ultimately show ?thesis unfolding e by (intro conjI exI [of _ sp]) (simp_all add: specials_launch m4)
qed

text \<open>The host of the examples, where Docker no longer lists a container that was removed.\<close>

definition race_world :: dworld where
  "race_world = demo_world\<lparr>managed_answer := (\<lambda>tr. Inr (
     \<lparr>ct_ID = ''a1'', ct_Names = [''/appium-R58M''], ct_State = ''running'', ct_Labels = demo_labels roleAppium\<rparr> #
     (if Other (Remove ''t1'') \<in> set tr then []
      else [\<lparr>ct_ID = ''t1'', ct_Names = [''/tests-R58M''], ct_State = ''exited'', ct_Labels = demo_labels roleTests\<rparr>])))\<rparr>"

lemma race_gate: "\<exists>b. fst (battery_gate race_world s m) = Inr b"
proof -
  have "level_of_lines (split_on nl ''  level: 80'') = (80, None)" by code_simp
  then show ?thesis
    by (simp add: battery_gate_def host_def BatteryLevel_def exec_def race_world_def demo_world_def min_battery_def)
qed

definition left_over :: containers where
  "left_over = no_containers\<lparr>AppiumID := ''a1'', AppiumPort := 4723, AppiumName := ''appium-R58M'', AppiumStatus := ''running''\<rparr>"

lemma race_listed:
  assumes "\<not> isK8sMode m"
  shows "listManaged race_world m =
    (Inr [(''R58M'', if Other (Remove ''t1'') \<in> set (trace m) then left_over else demo_containers)], emit List_managed m)"
proof -
  have "atoi ''4723'' = (4723, True)"
    by (simp add: atoi_def all_digits_def is_digit_def digits_val_def digit_val_def code_def max_int_def min_int_def)
  moreover have "roleAppium \<noteq> roleTests" by (simp add: roleAppium_def roleTests_def)
  ultimately show ?thesis
    using assms
    by (simp add: listManaged_def race_world_def demo_world_def add_container_def demo_labels_at Let_def demo_containers_def
        left_over_def no_containers_def)
qed

text \<open>A cycle of this host up to the test of its only phone.\<close>

lemma race_begins:
  assumes "cfg m = demo_config"
  shows "\<exists>k m1. leads race_world (P_network [demo_device], m) [] (P_test k ''R58M'' demo_device
      (if Other (Remove ''t1'') \<in> set (trace m) then left_over else demo_containers), m1) \<and> wk_rest k = [] \<and>
    core m1 = core m \<and> specials m1 = specials m"
proof -
  let ?dc = "if Other (Remove ''t1'') \<in> set (trace m) then left_over else demo_containers"
  have k8s: "\<not> isK8sMode m'" if "core m' = core m" for m'
    using core_eqD(1) [OF that] assms by (simp add: isK8sMode_def demo_config_def)
  have n: "ensureNetwork race_world m = (Inr (), emit Network_list m)"
    using k8s [OF refl] by (simp add: ensureNetwork_def race_world_def demo_world_def)
  define m2 where "m2 = emit List_managed (emit Network_list m)"
  have m2: "core m2 = core m" "specials m2 = specials m" by (simp_all add: m2_def frame)
  have l: "listManaged race_world (emit Network_list m) = (Inr [(''R58M'', ?dc)], m2)"
    using race_listed [OF k8s, of "emit Network_list m"] by (simp add: m2_def frame emit_def)
  obtain confs m3 where c: "load_configs race_world m2 = (confs, m3)" by (cases "load_configs race_world m2")
  obtain m4 where r: "foldl register_device (m3, []) [demo_device] = (m4, [(''R58M'', demo_device)])"
    by (simp add: register_device_def demo_device_def IsReady_def zero_device_def)
  have m4: "core m4 = core m" "specials m4 = specials m"
    using core_listing(3) [of race_world m2] specials_listing(3) [of race_world m2] c
      core_register [of m3 "[]" "[demo_device]"] specials_register [of m3 "[]" "[demo_device]"] r m2 by simp_all
  have id: "range_existing race_world tr xs = xs" "range_ready race_world tr ys = ys" for tr xs ys
    by (simp_all add: race_world_def demo_world_def)
  have d: "foldl (drop_device race_world confs [(''R58M'', demo_device)]) m4 [(''R58M'', ?dc)] = m4"
    by (simp add: drop_device_def)
  let ?k = "\<lparr>wk_confs = confs, wk_rest = [(''R58M'', demo_device)], wk_existing = [(''R58M'', ?dc)]\<rparr>"
  have "AppiumID ?dc = ''a1''" "\<not> exited_appium ?dc"
    by (simp_all add: exited_appium_def demo_containers_def left_over_def)
  then have "ensure_appium race_world confs ''R58M'' demo_device [(''R58M'', ?dc)] m4 = (Inr ?dc, [(''R58M'', ?dc)], m4)"
    by (simp add: ensure_appium_def found_def Let_def)
  then have a: "cycle_step race_world (P_appium ?k) m4 = ([], P_test (?k\<lparr>wk_rest := []\<rparr>) ''R58M'' demo_device ?dc, m4)"
    by (simp add: appium_step_def)
  have "leads race_world (P_register confs [demo_device] [] [(''R58M'', ?dc)], m3) [] (P_appium ?k, m4)"
    using leads_trans [OF leads_register [OF r, of race_world confs "[(''R58M'', ?dc)]"] leads_drop] unfolding id d by simp
  from leads_trans [OF this leads_one [OF a leads_refl]]
  have "leads race_world (P_register confs [demo_device] [] [(''R58M'', ?dc)], m3) []
      (P_test (?k\<lparr>wk_rest := []\<rparr>) ''R58M'' demo_device ?dc, m4)" by simp
  with n l c have "leads race_world (P_network [demo_device], m) [] (P_test (?k\<lparr>wk_rest := []\<rparr>) ''R58M'' demo_device ?dc, m4)"
    by (auto intro!: leads_one [of race_world "P_network [demo_device]"] leads_one [of race_world "P_list [demo_device]"]
        leads_one [of race_world "P_configs [demo_device] [(''R58M'', ?dc)]"] split del: if_split)
  with m4 show ?thesis by (intro exI [of _ "?k\<lparr>wk_rest := []\<rparr>"] exI [of _ m4] conjI) simp_all
qed

text \<open>The second cycle of the race finds neither the container that was removed nor a mark that its phone reboots.\<close>

lemma race_starts:
  assumes "core m = (demo_config, False, True, {}, R)" and "Other (Remove ''t1'') \<in> set (trace m)"
  shows "\<exists>m' sp. leads race_world (P_network [demo_device], m) [(''R58M'', Test_started)] (P_end (Inr ()), m') \<and>
    specials m' = Create ''tests-R58M'' sp # specials m \<and> core m' = core m \<and> val_of (sp_Labels sp) labelDevice = ''R58M''"
proof -
  have ser: "Serial demo_device = ''R58M''" "sanitize ''R58M'' = ''R58M''"
    by (simp add: demo_device_def, code_simp)
  have "cfg m = demo_config" using assms(1) by (simp add: core_def)
  from race_begins [OF this] assms(2) obtain k m1 where 1:
    "leads race_world (P_network [demo_device], m) [] (P_test k ''R58M'' demo_device left_over, m1)" "wk_rest k = []"
    "core m1 = core m" "specials m1 = specials m" by auto
  have m1: "cfg m1 = demo_config" "rebooting m1 = {}" using 1(3) assms(1) by (simp_all add: core_def)
  then have k8s: "\<not> isK8sMode m1" by (simp add: isK8sMode_def demo_config_def)
  have t: "cycle_step race_world (P_test k ''R58M'' demo_device left_over) m1 = ([], P_start k ''R58M'' demo_device left_over, m1)"
    using m1 by (simp add: test_step_def demo_config_def left_over_def no_containers_def)
  obtain r m2 where c: "createTest race_world demo_device (AppiumPort left_over) m1 = (r, m2)"
    by (cases "createTest race_world demo_device (AppiumPort left_over) m1")
  obtain sp where sp: "r = Inr ()" "val_of (sp_Labels sp) labelDevice = ''R58M''" "specials m2 = Create ''tests-R58M'' sp # specials m1"
    using createTest_passes [OF k8s race_gate, of demo_device "AppiumPort left_over"] c ser by (auto simp: race_world_def demo_world_def)
  let ?m3 = "recordContainerEvent race_world ''R58M'' ''test_create'' (''tests-'' @ ''R58M'') m2"
  have s: "cycle_step race_world (P_start k ''R58M'' demo_device left_over) m1 = ([(''R58M'', Test_started)], P_appium k, ?m3)"
    by (simp add: c sp(1))
  have e: "cycle_step race_world (P_appium k) ?m3 = ([], P_end (Inr ()), ?m3)" by (simp add: appium_step_def 1(2))
  have "leads race_world (P_network [demo_device], m) [(''R58M'', Test_started)] (P_end (Inr ()), ?m3)"
    using leads_trans [OF 1(1) leads_one [OF t leads_step [OF s leads_one [OF e leads_refl]]]] by simp
  moreover have "core m2 = core m" using core_createTest [of race_world demo_device "AppiumPort left_over" m1] c 1(3) by simp
  ultimately show ?thesis using sp 1(4)
    by (intro exI [of _ ?m3] exI [of _ sp]) (simp add: core_recordEvent specials_recordEvent)
qed

lemma race_removes:
  "\<exists>k s m1. leads race_world (P_network [demo_device], demo_manager) [] (P_save k ''R58M'' ''t1'' s, m1) \<and> wk_rest k = [] \<and>
    core m1 = (demo_config, False, True, {}, {''t1''}) \<and> specials m1 = [] \<and> Other (Remove ''t1'') \<in> set (trace m1) \<and>
    sm_Serial s = ''R58M''"
proof -
  have cfg: "cfg demo_manager = demo_config" "reported demo_manager = {}" using demo_core by (simp_all add: core_def)
  have new: "Other (Remove ''t1'') \<notin> set (trace demo_manager)" "specials demo_manager = []"
    by (simp_all add: demo_manager_def SetReconcile_def NewManager_def Let_def LatestUSBInfoPerDevice_def demo_world_def
        empty_db_def emit_def specials_def)
  from race_begins [OF cfg(1)] new(1) obtain k m1 where 1:
    "leads race_world (P_network [demo_device], demo_manager) [] (P_test k ''R58M'' demo_device demo_containers, m1)" "wk_rest k = []"
    "core m1 = core demo_manager" "specials m1 = specials demo_manager" by auto
  let ?m2 = "m1\<lparr>reported := insert ''t1'' (reported m1)\<rparr>"
  have "TestID demo_containers = ''t1''" "TestStatus demo_containers = ''exited''" by (simp_all add: demo_containers_def)
  moreover have "''t1'' \<notin> reported m1" "TestImage (cfg m1) \<noteq> []"
    using core_eqD(1,5) [OF 1(3)] cfg by (simp_all add: demo_config_def)
  ultimately have t: "cycle_step race_world (P_test k ''R58M'' demo_device demo_containers) m1 = ([], P_report k ''R58M'' demo_containers, ?m2)"
    by (simp add: test_step_def)
  obtain s m3 where r: "reportTestResult race_world ''R58M'' demo_containers ?m2 = (s, m3)"
    by (cases "reportTestResult race_world ''R58M'' demo_containers ?m2")
  have "TestID demo_containers = ''t1''" by (simp add: demo_containers_def)
  then have p: "cycle_step race_world (P_report k ''R58M'' demo_containers) ?m2 = ([], P_remove k ''R58M'' ''t1'' s, m3)"
    by (simp add: r)
  have c3: "core m3 = (demo_config, False, True, {}, {''t1''})" "specials m3 = []" "sm_Serial s = ''R58M''"
    using core_report [of race_world "''R58M''" demo_containers ?m2] specials_report [of race_world "''R58M''" demo_containers ?m2]
      report_serial [of race_world "''R58M''" demo_containers ?m2] r 1(3,4) demo_core new(2) cfg(2) core_eqD(5) [OF 1(3)]
    by (simp_all add: core_def specials_basic)
  then have "\<not> isK8sMode m3" by (simp add: isK8sMode_def core_def demo_config_def)
  then have m4: "remove_test race_world ''t1'' m3 = emit (Remove ''t1'') m3" by (simp add: remove_test_def remove_container_def)
  have q: "cycle_step race_world (P_remove k ''R58M'' ''t1'' s) m3 = ([], P_save k ''R58M'' ''t1'' s, emit (Remove ''t1'') m3)"
    by (simp add: m4)
  from leads_trans [OF 1(1) leads_one [OF t leads_one [OF p leads_one [OF q leads_refl]]]] 1(2) c3 show ?thesis
    by (intro exI [of _ k] exI [of _ s] exI [of _ "emit (Remove ''t1'') m3"]) (simp add: core_def emit_def specials_def)
qed

lemma race_reboots:
  assumes "wk_rest k = []"
  shows "\<exists>s' m'. leads race_world (P_save k serial i s, m) [(serial, Test_reported i s')] (P_end (Inr ()), m') \<and>
    specials m' = Go_reboot s' # specials m \<and> sm_Serial s' = sm_Serial s"
proof -
  obtain s' m1 where 1: "saveTestResult race_world s m = (s', m1)" by (cases "saveTestResult race_world s m")
  have s: "sm_Serial s' = sm_Serial s" "specials m1 = specials m"
    using save_serial [of race_world s m] specials_saveTestResult [of race_world s m] 1 by simp_all
  let ?m2 = "emit (Go_reboot s') (m1\<lparr>rebooting := insert serial (rebooting m1)\<rparr>)"
  have "cycle_step race_world (P_save k serial i s) m = ([], P_reboot k serial i s', m1)"
    "cycle_step race_world (P_reboot k serial i s') m1 = ([(serial, Test_reported i s')], P_appium k, ?m2)"
    "cycle_step race_world (P_appium k) ?m2 = ([], P_end (Inr ()), ?m2)"
    by (simp_all add: 1 appium_step_def assms)
  from leads_one [OF this(1) leads_step [OF this(2) leads_one [OF this(3) leads_refl]]] s show ?thesis
    by (intro exI [of _ s'] exI [of _ ?m2]) (simp add: specials_basic)
qed

section \<open>Properties\<close>

text \<open>C2: However cycles overlap, with reboots and the other operations in between, and whatever Docker, the phones and
  the database answer at each step, no container's result is reported twice; what a cycle has taken as its own and
  not yet reported is what it still holds, so when every cycle has ended, each result that was taken has been reported.\<close>

theorem overlapping_cycles_report_once:
  assumes "run_acts acts (m, []) = (ids, (m', ps))"
  shows "distinct (ids @ pending ps) \<and> set (ids @ pending ps) \<inter> reported m = {} \<and>
    reported m' = reported m \<union> set (ids @ pending ps)"
proof -
  obtain new where new: "distinct new" "set new \<inter> reported m = {}" "reported m' = reported m \<union> set new"
    "mset (ids @ pending ps) = mset new"
    using acts_take [OF assms] by (auto simp: takes_def)
  from new(4) have "set (ids @ pending ps) = set new" "distinct (ids @ pending ps) = distinct new"
    by (rule mset_eq_setD, rule mset_eq_imp_distinct_iff)
  with new show ?thesis by simp
qed


text \<open>C13: Two cycles that overlap can start a test on a phone that is then rebooted: between the removal of the ended
  container and the mark that the phone reboots, another cycle finds no container and no mark. Here the result
  of \<open>t1\<close> is reported once, as it must be, and the reboot that goes with it begins after the next test has.\<close>

theorem reboot_hits_new_test:
  "\<exists>acts m' ps s sp. run_acts acts (demo_manager, []) = ([''t1''], (m', ps)) \<and> pending ps = [] \<and>
    specials m' = [Go_reboot s, Create ''tests-R58M'' sp] \<and> sm_Serial s = ''R58M'' \<and>
    val_of (sp_Labels sp) labelDevice = ''R58M''"
proof -
  obtain k s m1 where 1: "leads race_world (P_network [demo_device], demo_manager) [] (P_save k ''R58M'' ''t1'' s, m1)"
    "wk_rest k = []" "core m1 = (demo_config, False, True, {}, {''t1''})" "specials m1 = []"
    "Other (Remove ''t1'') \<in> set (trace m1)" "sm_Serial s = ''R58M''"
    using race_removes by blast
  obtain m2 sp where 2: "leads race_world (P_network [demo_device], m1) [(''R58M'', Test_started)] (P_end (Inr ()), m2)"
    "specials m2 = [Create ''tests-R58M'' sp]" "val_of (sp_Labels sp) labelDevice = ''R58M''"
    using race_starts [OF 1(3,5)] 1(4) by auto
  obtain s' m3 where 3: "leads race_world (P_save k ''R58M'' ''t1'' s, m2) [(''R58M'', Test_reported ''t1'' s')] (P_end (Inr ()), m3)"
    "specials m3 = [Go_reboot s', Create ''tests-R58M'' sp]" "sm_Serial s' = ''R58M''"
    using race_reboots [OF 1(2), of "''R58M''" "''t1''" s m2] 1(6) 2(2) by auto
  have none: "reported_ids [] = []" "reported_ids [(''R58M'', Test_started)] = []"
    "reported_ids [(''R58M'', Test_reported ''t1'' s')] = [''t1'']" by (simp_all add: reported_ids_def)
  have "\<exists>a. run_acts a (demo_manager, [P_network [demo_device]]) = ([], (m1, [P_save k ''R58M'' ''t1'' s]))"
    using leads_acts [of race_world "[P_network [demo_device]]" 0 demo_manager "[]" _ m1] 1(1) by (simp add: none)
  then obtain a1 where a1: "run_acts a1 (demo_manager, [P_network [demo_device]]) = ([], (m1, [P_save k ''R58M'' ''t1'' s]))" ..
  have "\<exists>a. run_acts a (m1, [P_save k ''R58M'' ''t1'' s, P_network [demo_device]]) =
      ([], (m2, [P_save k ''R58M'' ''t1'' s, P_end (Inr ())]))"
    using leads_acts [of race_world "[P_save k ''R58M'' ''t1'' s, P_network [demo_device]]" 1 m1 _ _ m2] 2(1) none(2) by fastforce
  then obtain a2 where a2: "run_acts a2 (m1, [P_save k ''R58M'' ''t1'' s, P_network [demo_device]]) =
      ([], (m2, [P_save k ''R58M'' ''t1'' s, P_end (Inr ())]))" ..
  have "\<exists>a. run_acts a (m2, [P_save k ''R58M'' ''t1'' s, P_end (Inr ())]) = ([''t1''], (m3, [P_end (Inr ()), P_end (Inr ())]))"
    using leads_acts [of race_world "[P_save k ''R58M'' ''t1'' s, P_end (Inr ())]" 0 m2 _ _ m3] 3(1) none(3) by fastforce
  then obtain a3 where a3: "run_acts a3 (m2, [P_save k ''R58M'' ''t1'' s, P_end (Inr ())]) =
      ([''t1''], (m3, [P_end (Inr ()), P_end (Inr ())]))" ..
  have "run_acts ((Begin [demo_device] # a1) @ (Begin [demo_device] # a2) @ a3) (demo_manager, []) =
      ([''t1''], (m3, [P_end (Inr ()), P_end (Inr ())]))"
    by (simp add: run_acts_append a1 a2 a3)
  with 2(3) 3(2,3) show ?thesis
    by (intro exI [of _ "(Begin [demo_device] # a1) @ (Begin [demo_device] # a2) @ a3"] exI [of _ m3]
        exI [of _ "[P_end (Inr ()), P_end (Inr ())]"] exI [of _ s'] exI [of _ sp]) simp
qed

text \<open>The two cycles of the example, step by step in turn, are such an interleaving.\<close>

theorem overlapping_cycles_report_once_witness:
  "\<exists>ids m' ps. run_acts [Begin [demo_device], Begin [demo_device], Step race_world 1, Step race_world 0, Op (Op_running race_world),
      Step race_world 0, Step race_world 1] (demo_manager, []) = (ids, (m', ps)) \<and> distinct (ids @ pending ps)"
  using overlapping_cycles_report_once by (metis prod.exhaust)

end
