(* ===== verification/K8s_Client.thy ===== *)
theory K8s_Client
  imports Host
begin

text \<open>
  \<open>internal/k8s/client.go\<close>: the client of the Kubernetes API server. A request is a call of the host
  that carries the base address, the path, the token and, for a new pod, the pod itself; the answer of
  the server (a transport error, or a status and a body) is a field of the world, a function of all calls
  before it. The text that \<open>encoding/json\<close> makes of a pod is left out: a request carries the pod as a
  value, and \<open>unmarshal_pods\<close> and \<open>unmarshal_pod\<close> read a body. The namespace and the names of pods are
  taken to be what Kubernetes allows, so a path needs no escapes and \<open>http.NewRequest\<close> does not fail.
\<close>

section \<open>Data\<close>

record object_meta =
  om_Name :: string
  om_Namespace :: string
  om_UID :: string
  om_Labels :: "(string \<times> string) list"
  om_ResourceVersion :: string

record volume_mount =
  vm_Name :: string
  vm_MountPath :: string

record env_var =
  en_Name :: string
  en_Value :: string

record volume =
  vo_Name :: string
  vo_EmptyDir :: bool

record pod_container =
  pc_Name :: string
  pc_Image :: string
  pc_ImagePullPolicy :: string
  pc_Command :: "string list"
  pc_Args :: "string list"
  pc_Env :: "env_var list"
  pc_VolumeMounts :: "volume_mount list"
  pc_Privileged :: "bool option option"

record pod_spec =
  ps_RestartPolicy :: string
  ps_Containers :: "pod_container list"
  ps_Volumes :: "volume list"
  ps_Grace :: "int option"

record container_status =
  cs_Name :: string
  cs_Running :: bool
  cs_Terminated :: "(int \<times> string) option"

record pod_state =
  st_Phase :: string
  st_ContainerStatuses :: "container_status list"

record pod =
  pod_APIVersion :: string
  pod_Kind :: string
  pod_Metadata :: object_meta
  pod_Spec :: pod_spec
  pod_Status :: pod_state

record client =
  apiBase :: string
  token :: string
  cl_Namespace :: string

section \<open>Requests\<close>

datatype http_method = GET | POST | DELETE

definition method_text :: "http_method \<Rightarrow> string" where
  "method_text h = (case h of GET \<Rightarrow> ''GET'' | POST \<Rightarrow> ''POST'' | DELETE \<Rightarrow> ''DELETE'')"

record request =
  rq_Method :: http_method
  rq_Base :: string
  rq_Path :: string
  rq_Bearer :: string
  rq_Body :: "pod option"

datatype 'y api_call = Api request | Own 'y

record 'y api_world = "'y api_call world" +
  api_answer :: "'y api_call call list \<Rightarrow> request \<Rightarrow> string + (int \<times> string)"
  unmarshal_pods :: "string \<Rightarrow> pod list res"
  unmarshal_pod :: "string \<Rightarrow> pod res"
  pem_ok :: "string \<Rightarrow> bool"

text \<open>\<open>url.QueryEscape\<close>: letters, digits and four signs stay, a space becomes a plus sign, every other byte
  its two hexadecimal digits.\<close>

definition hex_upper :: "nat \<Rightarrow> char" where
  "hex_upper n = char_of (if n < 10 then 48 + n else 55 + n)"

definition plain_char :: "char \<Rightarrow> bool" where
  "plain_char c \<longleftrightarrow> is_lower c \<or> is_upper c \<or> is_digit c \<or> c \<in> {CHR ''-'', CHR ''_'', CHR ''.'', CHR ''~''}"

definition escape_char :: "char \<Rightarrow> string" where
  "escape_char c =
     (if plain_char c then [c] else if c = CHR '' '' then ''+''
      else [CHR 0x25, hex_upper (code c div 16), hex_upper (code c mod 16)])"

definition query_escape :: "string \<Rightarrow> string" where
  "query_escape s = concat (map escape_char s)"

text \<open>The part of a path that \<open>URL.Path\<close> shows.\<close>

definition url_path :: "string \<Rightarrow> string" where
  "url_path p = takeWhile (\<lambda>c. c \<noteq> CHR ''?'') p"

definition doRaw :: "('y, 'm) api_world_scheme \<Rightarrow> request \<Rightarrow> 'y api_call call list \<Rightarrow> string res \<times> 'y api_call call list" where
  "doRaw w r tr =
     (case api_answer w tr r of
        Inl e \<Rightarrow> Inl e
      | Inr (status, body) \<Rightarrow>
          if status < 200 \<or> status \<ge> 300
          then Inl (''k8s API '' @ method_text (rq_Method r) @ '' '' @ url_path (rq_Path r) @ '': '' @ itoa status @
                    '' '' @ trim_space body)
          else Inr body,
      Other (Api r) # tr)"

definition api_request :: "client \<Rightarrow> http_method \<Rightarrow> string \<Rightarrow> pod option \<Rightarrow> request" where
  "api_request c h path body =
     \<lparr>rq_Method = h, rq_Base = apiBase c, rq_Path = path, rq_Bearer = token c, rq_Body = body\<rparr>"

definition getRaw :: "('y, 'm) api_world_scheme \<Rightarrow> client \<Rightarrow> string \<Rightarrow> 'y api_call call list \<Rightarrow> string res \<times> 'y api_call call list" where
  "getRaw w c path tr = doRaw w (api_request c GET path None) tr"

definition get_as ::
  "(string \<Rightarrow> 'a res) \<Rightarrow> ('y, 'm) api_world_scheme \<Rightarrow> client \<Rightarrow> string \<Rightarrow> 'y api_call call list \<Rightarrow> 'a res \<times> 'y api_call call list" where
  "get_as unmarshal w c path tr =
     (let (r, tr1) = getRaw w c path tr in (case r of Inl e \<Rightarrow> Inl e | Inr body \<Rightarrow> unmarshal body, tr1))"

definition post_pod :: "('y, 'm) api_world_scheme \<Rightarrow> client \<Rightarrow> string \<Rightarrow> pod \<Rightarrow> 'y api_call call list \<Rightarrow> unit res \<times> 'y api_call call list" where
  "post_pod w c path p tr =
     (let (r, tr1) = doRaw w (api_request c POST path (Some p)) tr in (map_sum id (\<lambda>_. ()) r, tr1))"

definition delete_path :: "('y, 'm) api_world_scheme \<Rightarrow> client \<Rightarrow> string \<Rightarrow> 'y api_call call list \<Rightarrow> unit res \<times> 'y api_call call list" where
  "delete_path w c path tr =
     (let (r, tr1) = doRaw w (api_request c DELETE path None) tr in (map_sum id (\<lambda>_. ()) r, tr1))"

section \<open>The API\<close>

definition podPath :: "client \<Rightarrow> string \<Rightarrow> string" where
  "podPath c name =
     (let base = ''/api/v1/namespaces/'' @ cl_Namespace c @ ''/pods''
      in if name = [] then base else base @ ''/'' @ name)"

definition ListPods :: "('y, 'm) api_world_scheme \<Rightarrow> client \<Rightarrow> string \<Rightarrow> 'y api_call call list \<Rightarrow> pod list res \<times> 'y api_call call list" where
  "ListPods w c selector tr =
     get_as (unmarshal_pods w) w c
       (podPath c '''' @ (if selector \<noteq> [] then ''?labelSelector='' @ query_escape selector else [])) tr"

definition GetPod :: "('y, 'm) api_world_scheme \<Rightarrow> client \<Rightarrow> string \<Rightarrow> 'y api_call call list \<Rightarrow> pod res \<times> 'y api_call call list" where
  "GetPod w c name tr = get_as (unmarshal_pod w) w c (podPath c name) tr"

definition CreatePod :: "('y, 'm) api_world_scheme \<Rightarrow> client \<Rightarrow> pod \<Rightarrow> 'y api_call call list \<Rightarrow> unit res \<times> 'y api_call call list" where
  "CreatePod w c p tr =
     post_pod w c (podPath c '''')
       (p\<lparr>pod_APIVersion := ''v1'', pod_Kind := ''Pod'',
          pod_Metadata := (pod_Metadata p)\<lparr>om_Namespace := cl_Namespace c\<rparr>\<rparr>) tr"

definition DeletePod :: "('y, 'm) api_world_scheme \<Rightarrow> client \<Rightarrow> string \<Rightarrow> 'y api_call call list \<Rightarrow> unit res \<times> 'y api_call call list" where
  "DeletePod w c name tr =
     (let (r, tr1) = delete_path w c (podPath c name) tr
      in (case r of Inl e \<Rightarrow> if contains e ''404'' then Inr () else Inl e | Inr _ \<Rightarrow> Inr (), tr1))"

definition PodLogs ::
  "('y, 'm) api_world_scheme \<Rightarrow> client \<Rightarrow> string \<Rightarrow> string \<Rightarrow> int \<Rightarrow> 'y api_call call list \<Rightarrow> string res \<times> 'y api_call call list" where
  "PodLogs w c name ct tail_lines tr =
     getRaw w c (podPath c name @ ''/log?container='' @ query_escape ct @
       (if tail_lines > 0 then ''&tailLines='' @ itoa tail_lines else [])) tr"

text \<open>The client of a pod's own service account.\<close>

definition inClusterTokenFile :: string where
  "inClusterTokenFile = ''/var/run/secrets/kubernetes.io/serviceaccount/token''"
definition inClusterCAFile :: string where
  "inClusterCAFile = ''/var/run/secrets/kubernetes.io/serviceaccount/ca.crt''"
definition inClusterAPIServer :: string where "inClusterAPIServer = ''https://kubernetes.default.svc''"

definition InClusterClient :: "('y, 'm) api_world_scheme \<Rightarrow> string \<Rightarrow> 'y api_call call list \<Rightarrow> client res \<times> 'y api_call call list" where
  "InClusterClient w namespace tr =
     (let (tk, tr1) = read_file w inClusterTokenFile tr
      in case tk of
           Inl e \<Rightarrow> (Inl (''read token: '' @ e), tr1)
         | Inr t \<Rightarrow>
             let (ca, tr2) = read_file w inClusterCAFile tr1
             in case ca of
                  Inl e \<Rightarrow> (Inl (''read CA: '' @ e), tr2)
                | Inr pem \<Rightarrow>
                    (if \<not> pem_ok w pem then Inl ''failed to parse cluster CA cert''
                     else Inr \<lparr>apiBase = inClusterAPIServer, token = trim_space t, cl_Namespace = namespace\<rparr>, tr2))"

end
