(* ===== verification/Hub_Client.thy ===== *)
theory Hub_Client
  imports Complex_Main Hub_Prelude
begin

text \<open>
  The client of the hub server, \<open>vendor/xfarm.hub/hub-ws-client/hubws.go\<close>, and its re-exports in
  \<open>internal/adb/hub.go\<close>: the devices, the messages of the WebSocket and what each does to the client's map
  of devices and which call of the handler it makes.

  The handler is a record of functions on a state of its own, Go's interface \<open>DeviceEventHandler\<close>; the locale
  \<open>event_handler\<close> says what a handler keeps and shows that a client keeps it. JSON text is the library's: the
  data of a message holds what \<open>json.Unmarshal\<close> makes of it for each target. The order in which a map is
  visited is an argument. The client's map is local to one connection and its mutex guards nothing else.
\<close>

section \<open>Devices\<close>

text \<open>\<open>Info\<close> is a JSON object or nil.\<close>

datatype info = Info_num rat | Info_text string | Info_obj "(string \<times> info) list" | Info_other

record peer_status =
  ps_State :: string
  ps_Reason :: string
  ps_Message :: string

record hub_device =
  hd_Serial :: string
  hd_OriginalSerial :: string
  hd_Type :: string
  hd_Status :: string
  hd_StatusMsg :: string
  hd_ContainerStatus :: peer_status
  hd_Info :: "(string \<times> info) list option"
  hd_LastSeen :: string

definition zero_hub_device :: hub_device where
  "zero_hub_device = \<lparr>hd_Serial = '''', hd_OriginalSerial = '''', hd_Type = '''', hd_Status = '''', hd_StatusMsg = '''',
     hd_ContainerStatus = \<lparr>ps_State = '''', ps_Reason = '''', ps_Message = ''''\<rparr>, hd_Info = None, hd_LastSeen = ''''\<rparr>"

definition hub_Platform :: "hub_device \<Rightarrow> string" where
  "hub_Platform d = (if hd_Type d \<noteq> [] then hd_Type d else ''android'')"

definition IsAndroid :: "hub_device \<Rightarrow> bool" where "IsAndroid d \<longleftrightarrow> hd_Type d = ''android''"
definition IsIOS :: "hub_device \<Rightarrow> bool" where "IsIOS d \<longleftrightarrow> hd_Type d = ''ios''"

definition info_text :: "(string \<times> info) list option \<Rightarrow> string \<Rightarrow> string" where
  "info_text i k = (case i of None \<Rightarrow> '''' | Some m \<Rightarrow> (case map_of m k of Some (Info_text s) \<Rightarrow> s | _ \<Rightarrow> ''''))"

definition hub_Model :: "hub_device \<Rightarrow> string" where
  "hub_Model d = info_text (hd_Info d) ''model''"

definition HasInfo :: "hub_device \<Rightarrow> bool" where
  "HasInfo d \<longleftrightarrow> (case hd_Info d of None \<Rightarrow> False | Some m \<Rightarrow> m \<noteq> [])"

section \<open>The handler\<close>

record 's handler =
  fn_OnWelcome :: "hub_device list \<Rightarrow> 's \<Rightarrow> 's"
  fn_OnDeviceConnected :: "hub_device \<Rightarrow> 's \<Rightarrow> 's"
  fn_OnDeviceReady :: "hub_device \<Rightarrow> 's \<Rightarrow> 's"
  fn_OnDeviceOffline :: "string \<Rightarrow> string \<Rightarrow> 's \<Rightarrow> 's"
  fn_OnDeviceDeleted :: "string \<Rightarrow> string \<Rightarrow> 's \<Rightarrow> 's"
  fn_OnBatteryUpdated :: "string \<Rightarrow> string \<Rightarrow> int \<Rightarrow> int \<Rightarrow> 's \<Rightarrow> 's"

definition BaseHandler :: "'s handler" where
  "BaseHandler = \<lparr>fn_OnWelcome = (\<lambda>_ s. s), fn_OnDeviceConnected = (\<lambda>_ s. s), fn_OnDeviceReady = (\<lambda>_ s. s),
     fn_OnDeviceOffline = (\<lambda>_ _ s. s), fn_OnDeviceDeleted = (\<lambda>_ _ s. s), fn_OnBatteryUpdated = (\<lambda>_ _ _ _ s. s)\<rparr>"

section \<open>Messages\<close>

text \<open>The raw data of a message: its length and what each \<open>Unmarshal\<close> makes of it. \<open>into_device\<close> fills a device
  and may fail halfway; an entry of a list of pointers may be nil.\<close>

record raw_data =
  size_of :: nat
  as_devices :: "hub_device option list res"
  into_device :: "hub_device \<Rightarrow> hub_device \<times> string option"
  as_info :: "(string \<times> info) list option res"
  as_battery :: "(int \<times> int) res"

record ws_msg =
  ms_Type :: string
  ms_Event :: string
  ms_Device :: string
  ms_Platform :: string
  ms_Data :: raw_data

type_synonym peers = "(string \<times> hub_device) list"

text \<open>The map of a welcome; \<open>None\<close> is the panic on a nil entry.\<close>

fun index_devices :: "hub_device option list \<Rightarrow> peers \<Rightarrow> peers option" where
  "index_devices [] ps = Some ps"
| "index_devices (None # ds) ps = None"
| "index_devices (Some d # ds) ps =
     index_devices ds (if hd_Serial d \<noteq> [] then AList.update (hd_Serial d) d ps else ps)"

definition greet :: "'s handler \<Rightarrow> hub_device list \<Rightarrow> 's \<Rightarrow> 's" where
  "greet h ds s =
     foldl (\<lambda>s d. if HasInfo d then fn_OnDeviceReady h d s else fn_OnDeviceConnected h d s) (fn_OnWelcome h ds s) ds"

definition on_welcome :: "(hub_device list \<Rightarrow> hub_device list) \<Rightarrow> 's handler \<Rightarrow> ws_msg \<Rightarrow> peers \<times> 's \<Rightarrow> (peers \<times> 's) option" where
  "on_welcome rng h msg st =
     (case as_devices (ms_Data msg) of
        Inl _ \<Rightarrow> Some st
      | Inr ds \<Rightarrow>
          (case index_devices ds [] of
             None \<Rightarrow> None
           | Some ps \<Rightarrow> Some (ps, greet h (rng (map snd ps)) (snd st))))"

definition added_device :: "ws_msg \<Rightarrow> hub_device" where
  "added_device msg =
     (let d = zero_hub_device\<lparr>hd_Serial := ms_Device msg, hd_Type := ms_Platform msg\<rparr>;
          d1 = (if size_of (ms_Data msg) > 2 then fst (into_device (ms_Data msg) d) else d)
      in if ms_Platform msg \<noteq> [] then d1\<lparr>hd_Type := ms_Platform msg\<rparr> else d1)"

definition on_add :: "'s handler \<Rightarrow> ws_msg \<Rightarrow> peers \<times> 's \<Rightarrow> peers \<times> 's" where
  "on_add h msg st =
     (case st of (ps, s) \<Rightarrow>
        if ms_Type msg = ''DEVICE'' then
          (if ms_Device msg = [] then st
           else let d = added_device msg in (AList.update (ms_Device msg) d ps, fn_OnDeviceConnected h d s))
        else if ms_Type msg = ''INFO'' then
          (if ms_Device msg = [] then st
           else case as_info (ms_Data msg) of
                  Inl _ \<Rightarrow> st
                | Inr i \<Rightarrow>
                    (case map_of ps (ms_Device msg) of
                       None \<Rightarrow> st
                     | Some d \<Rightarrow> let d' = d\<lparr>hd_Info := i\<rparr>
                                 in (AList.update (ms_Device msg) d' ps, fn_OnDeviceReady h d' s)))
        else st)"

definition platform_of :: "peers \<Rightarrow> ws_msg \<Rightarrow> string" where
  "platform_of ps msg = (case map_of ps (ms_Device msg) of Some d \<Rightarrow> hub_Platform d | None \<Rightarrow> ms_Platform msg)"

definition on_delete :: "'s handler \<Rightarrow> ws_msg \<Rightarrow> peers \<times> 's \<Rightarrow> peers \<times> 's" where
  "on_delete h msg st =
     (case st of (ps, s) \<Rightarrow>
        if ms_Device msg = [] then st
        else let platform = platform_of ps msg;
                 ps' = (if ms_Type msg = ''DEVICE'' then AList.delete (ms_Device msg) ps else ps)
             in (ps', if ms_Type msg = ''INFO'' then fn_OnDeviceOffline h (ms_Device msg) platform s
                      else if ms_Type msg = ''DEVICE'' then fn_OnDeviceDeleted h (ms_Device msg) platform s
                      else s))"

definition on_update :: "'s handler \<Rightarrow> ws_msg \<Rightarrow> peers \<times> 's \<Rightarrow> peers \<times> 's" where
  "on_update h msg st =
     (case st of (ps, s) \<Rightarrow>
        if ms_Device msg = [] \<or> size_of (ms_Data msg) \<le> 2 then st
        else if ms_Type msg = ''STATUS'' then
          (case into_device (ms_Data msg) zero_hub_device of
             (_, Some e) \<Rightarrow> st
           | (upd, None) \<Rightarrow>
               (case map_of ps (ms_Device msg) of
                  None \<Rightarrow> st
                | Some d \<Rightarrow>
                    (AList.update (ms_Device msg)
                       (d\<lparr>hd_Status := hd_Status upd, hd_ContainerStatus := hd_ContainerStatus upd\<rparr>) ps, s)))
        else if ms_Type msg = ''BATTERY'' then
          (case as_battery (ms_Data msg) of
             Inl _ \<Rightarrow> st
           | Inr (level, temp) \<Rightarrow> (ps, fn_OnBatteryUpdated h (ms_Device msg) (platform_of ps msg) level temp s))
        else st)"

definition handle_msg :: "(hub_device list \<Rightarrow> hub_device list) \<Rightarrow> 's handler \<Rightarrow> ws_msg \<Rightarrow> peers \<times> 's \<Rightarrow> (peers \<times> 's) option" where
  "handle_msg rng h msg st =
     (if ms_Event msg = ''welcome'' then on_welcome rng h msg st
      else if ms_Event msg = ''ADD'' then Some (on_add h msg st)
      else if ms_Event msg = ''DELETE'' then Some (on_delete h msg st)
      else if ms_Event msg = ''UPDATE'' then Some (on_update h msg st)
      else Some st)"

section \<open>Connections\<close>

text \<open>One connection: an error of the dial, or the messages until reading fails. \<open>Connect\<close> makes one connection
  after the other until its context ends; \<open>None\<close> is a panic. The handler's state goes on, the map does not.\<close>

fun read_loop :: "(hub_device list \<Rightarrow> hub_device list) \<Rightarrow> 's handler \<Rightarrow> ws_msg list \<Rightarrow> peers \<times> 's \<Rightarrow> (peers \<times> 's) option" where
  "read_loop rng h [] st = Some st"
| "read_loop rng h (msg # msgs) st =
     (case handle_msg rng h msg st of None \<Rightarrow> None | Some st' \<Rightarrow> read_loop rng h msgs st')"

type_synonym hub_connection = "ws_msg list res"

definition runOnce :: "(hub_device list \<Rightarrow> hub_device list) \<Rightarrow> 's handler \<Rightarrow> hub_connection \<Rightarrow> 's \<Rightarrow> 's option" where
  "runOnce rng h c s =
     (case c of Inl _ \<Rightarrow> Some s | Inr msgs \<Rightarrow> map_option snd (read_loop rng h msgs ([], s)))"

fun Connect :: "(hub_device list \<Rightarrow> hub_device list) \<Rightarrow> 's handler \<Rightarrow> hub_connection list \<Rightarrow> 's \<Rightarrow> 's option" where
  "Connect rng h [] s = Some s"
| "Connect rng h (c # cs) s = (case runOnce rng h c s of None \<Rightarrow> None | Some s' \<Rightarrow> Connect rng h cs s')"

text \<open>\<open>strings.Replace\<close> with a count of one.\<close>

fun replace_first :: "string \<Rightarrow> string \<Rightarrow> string \<Rightarrow> string" where
  "replace_first old new [] = (if old = [] then new else [])"
| "replace_first old new (c # cs) =
     (if has_prefix (c # cs) old then new @ drop (length old) (c # cs) else c # replace_first old new cs)"

text \<open>The client and its constructor; \<open>adb.PeerHost\<close> makes one for the name only.\<close>

record hub_ws =
  hubURL :: string
  ws_namespace :: string

definition New_hub_ws :: "string \<Rightarrow> string \<Rightarrow> hub_ws" where
  "New_hub_ws hub_url namespace = \<lparr>hubURL = hub_url, ws_namespace = namespace\<rparr>"

definition ws_url :: "hub_ws \<Rightarrow> string" where
  "ws_url c =
     replace_first ''https://'' ''wss://'' (replace_first ''http://'' ''ws://'' (hubURL c)) @ ''/api/v1/devices/ws''"

definition PeerHost :: "hub_ws \<Rightarrow> string \<Rightarrow> string" where
  "PeerHost c serial = ''peer-'' @ serial @ ''.'' @ ws_namespace c @ ''.svc.cluster.local''"

definition adb_PeerHost :: "string \<Rightarrow> string \<Rightarrow> string" where
  "adb_PeerHost serial namespace = PeerHost (New_hub_ws '''' namespace) serial"

text \<open>\<open>adb.TrackHubDevices\<close> drops its last argument, a function to call on a reconnect.\<close>

definition TrackHubDevices ::
  "(hub_device list \<Rightarrow> hub_device list) \<Rightarrow> 's handler \<Rightarrow> ('s \<Rightarrow> 's) option \<Rightarrow> hub_connection list \<Rightarrow> 's \<Rightarrow> 's option" where
  "TrackHubDevices rng h onReconnect cs s = Connect rng h cs s"

section \<open>What a handler keeps\<close>

locale event_handler =
  fixes h :: "'s handler"
    and inv :: "'s \<Rightarrow> bool"
  assumes welcomed: "inv s \<Longrightarrow> inv (fn_OnWelcome h ds s)"
    and connected: "inv s \<Longrightarrow> inv (fn_OnDeviceConnected h d s)"
    and ready: "inv s \<Longrightarrow> inv (fn_OnDeviceReady h d s)"
    and offline: "inv s \<Longrightarrow> inv (fn_OnDeviceOffline h i p s)"
    and deleted: "inv s \<Longrightarrow> inv (fn_OnDeviceDeleted h i p s)"
    and battery: "inv s \<Longrightarrow> inv (fn_OnBatteryUpdated h i p l t s)"
begin

lemma greet_inv: "inv s \<Longrightarrow> inv (greet h ds s)"
proof -
  have "inv s \<Longrightarrow> inv (foldl (\<lambda>s d. if HasInfo d then fn_OnDeviceReady h d s else fn_OnDeviceConnected h d s) s xs)" for s xs
    by (induction xs arbitrary: s) (simp_all add: ready connected)
  then show "inv s \<Longrightarrow> inv (greet h ds s)" by (simp add: greet_def welcomed)
qed

lemma handle_inv: "handle_msg rng h msg st = Some st' \<Longrightarrow> inv (snd st) \<Longrightarrow> inv (snd st')"
  by (cases st) (auto simp: handle_msg_def on_welcome_def on_add_def on_delete_def on_update_def Let_def greet_inv ready
      connected offline deleted battery split: if_splits sum.splits option.splits prod.splits)

lemma loop_inv: "read_loop rng h msgs st = Some st' \<Longrightarrow> inv (snd st) \<Longrightarrow> inv (snd st')"
  by (induction msgs arbitrary: st) (auto split: option.splits dest: handle_inv)

lemma once_inv: "runOnce rng h c s = Some s' \<Longrightarrow> inv s \<Longrightarrow> inv s'"
  using loop_inv [of rng _ "([], s)"] by (auto simp: runOnce_def split: sum.splits)

lemma Connect_inv: "Connect rng h cs s = Some s' \<Longrightarrow> inv s \<Longrightarrow> inv s'"
  by (induction cs arbitrary: s) (auto split: option.splits dest: once_inv)

end

text \<open>A handler that sees only a part of another's state: the part of a client of the one is a client of the
  other.\<close>

locale handler_part =
  fixes h :: "'s handler"
    and h' :: "'t handler"
    and f :: "'s \<Rightarrow> 't"
  assumes welcome_part: "f (fn_OnWelcome h ds s) = fn_OnWelcome h' ds (f s)"
    and connected_part: "f (fn_OnDeviceConnected h d s) = fn_OnDeviceConnected h' d (f s)"
    and ready_part: "f (fn_OnDeviceReady h d s) = fn_OnDeviceReady h' d (f s)"
    and offline_part: "f (fn_OnDeviceOffline h i p s) = fn_OnDeviceOffline h' i p (f s)"
    and deleted_part: "f (fn_OnDeviceDeleted h i p s) = fn_OnDeviceDeleted h' i p (f s)"
    and battery_part: "f (fn_OnBatteryUpdated h i p l t s) = fn_OnBatteryUpdated h' i p l t (f s)"
begin

lemma greet_part: "f (greet h ds s) = greet h' ds (f s)"
proof -
  have "f (foldl (\<lambda>s d. if HasInfo d then fn_OnDeviceReady h d s else fn_OnDeviceConnected h d s) s xs) =
      foldl (\<lambda>s d. if HasInfo d then fn_OnDeviceReady h' d s else fn_OnDeviceConnected h' d s) (f s) xs" for s xs
    by (induction xs arbitrary: s) (simp_all add: ready_part connected_part)
  then show ?thesis by (simp add: greet_def welcome_part)
qed

lemma handle_part: "handle_msg rng h' msg (ps, f s) = map_option (map_prod id f) (handle_msg rng h msg (ps, s))"
  by (simp add: handle_msg_def on_welcome_def on_add_def on_delete_def on_update_def Let_def greet_part ready_part
      connected_part offline_part deleted_part battery_part split: sum.split option.split prod.split)

lemma loop_part: "read_loop rng h' msgs (ps, f s) = map_option (map_prod id f) (read_loop rng h msgs (ps, s))"
proof (induction msgs arbitrary: ps s)
  case (Cons msg msgs)
  show ?case
  proof (cases "handle_msg rng h msg (ps, s)")
    case (Some st)
    then show ?thesis using Cons.IH [of "fst st" "snd st"] by (cases st) (simp add: handle_part)
  qed (simp add: handle_part)
qed simp

lemma once_part: "runOnce rng h' c (f s) = map_option f (runOnce rng h c s)"
  by (simp add: runOnce_def loop_part option.map_comp o_def split: sum.split)

lemma Connect_part: "Connect rng h' cs (f s) = map_option f (Connect rng h cs s)"
proof (induction cs arbitrary: s)
  case (Cons c cs)
  then show ?case by (cases "runOnce rng h c s") (simp_all add: once_part)
qed simp

end

end
