(* ===== verification/K8s_Manager.thy ===== *)
theory K8s_Manager
  imports Adb_Client Run_Store Test_Report Shared_Types K8s_Client Hub_Client
begin

text \<open>
  \<open>internal/k8s/manager.go\<close>: the manager that runs the tests of a device in a pod of its own, driven by the
  events of the hub server. Where \<open>internal/docker/manager.go\<close> has a function of the same name, the one of
  this file has the suffix \<open>_k8s\<close>.

  The state is a record; \<open>sync.Map\<close>s that are only looked up are partial maps and sets. A goroutine that
  is started is a call (\<open>Go_stabilize\<close>, \<open>Go_reboot\<close>, \<open>Go_retry\<close>), and what it does is a function of its
  own (\<open>end_stabilization\<close>, \<open>rebootAndReport_k8s\<close>, \<open>retry_pod\<close>). The hub server, the files, the database's
  errors and the order in which a map is visited are fields of the world. A handler is one step: events
  are not interleaved inside it. Log lines are left out, \<open>pod_outcome\<close> names the branch a pod took.
  Serials are ASCII.
\<close>

section \<open>Data\<close>

record k8s_config =
  k_AppiumImage :: string
  k_TestImage :: string
  k_IOSTestImage :: string
  k_IOSAppiumImage :: string
  k_IPAServeURL :: string
  k_IOSBundleID :: string
  k_HubClientImage :: string
  k_HubUsbmuxdHost :: string
  k_HubUsbmuxdPort :: string
  k_HubHandshakeSecret :: string
  k_AdbTunnelMode :: string
  k_APKServeURL :: string
  k_HubURL :: string
  k_Namespace :: string

record k8s_summary = run_summary +
  ks_Platform :: string
  ks_HubClientLog :: string
  ks_BatteryTemp :: float64

section \<open>The world and the state\<close>

datatype kown =
    Hub http_method string
  | K_mkdir string | K_write string string | K_append string string
  | K_sql | K_notify | K_signal
  | Go_stabilize string device | Go_reboot k8s_summary | Go_retry string

type_synonym kcall = "kown api_call call"

record kworld = "kown api_world" +
  hub_answer :: "kcall list \<Rightarrow> http_method \<Rightarrow> string \<Rightarrow> string + (int \<times> string res)"
  k_file_error :: "kcall list \<Rightarrow> string option"
  k_sql_error :: "kcall list \<Rightarrow> string option"
  range_pods :: "kcall list \<Rightarrow> (string \<times> pod) list \<Rightarrow> (string \<times> pod) list"
  range_devices :: "kcall list \<Rightarrow> (string \<times> device) list \<Rightarrow> (string \<times> device) list"
  k_local_offset :: duration

record k8s_manager =
  k_client :: client
  k_config :: k8s_config
  k_NotifyFn :: bool
  k_ReconcileFn :: bool
  k_rebooting :: "string set"
  stabilizing :: "string set"
  k_reported :: "string set"
  k_endpoints :: "string \<rightharpoonup> string"
  devices :: "string \<rightharpoonup> device"
  batteryInfo :: "string \<rightharpoonup> float64 \<times> float64"
  lowBattery :: "string \<rightharpoonup> device"
  k_store :: "db option"
  k_trace :: "kcall list"

definition khost :: "(kcall list \<Rightarrow> 'a \<times> kcall list) \<Rightarrow> k8s_manager \<Rightarrow> 'a \<times> k8s_manager" where
  "khost f m = (let (r, tr) = f (k_trace m) in (r, m\<lparr>k_trace := tr\<rparr>))"

definition kemit :: "kown \<Rightarrow> k8s_manager \<Rightarrow> k8s_manager" where
  "kemit c m = m\<lparr>k_trace := Other (Own c) # k_trace m\<rparr>"

definition kwith_db :: "kworld \<Rightarrow> (string option \<Rightarrow> db \<Rightarrow> 'a res \<times> db) \<Rightarrow> db \<Rightarrow> k8s_manager \<Rightarrow> 'a res \<times> k8s_manager" where
  "kwith_db w f d m =
     (let (r, d') = f (k_sql_error w (k_trace m)) d in (r, kemit K_sql (m\<lparr>k_store := Some d'\<rparr>)))"

definition knotify :: "k8s_manager \<Rightarrow> k8s_manager" where
  "knotify m = (if k_NotifyFn m then kemit K_notify m else m)"

definition NewManager_k8s :: "client \<Rightarrow> k8s_config \<Rightarrow> db option \<Rightarrow> k8s_manager" where
  "NewManager_k8s c conf st =
     \<lparr>k_client = c, k_config = conf, k_NotifyFn = False, k_ReconcileFn = False, k_rebooting = {}, stabilizing = {},
      k_reported = {}, k_endpoints = Map.empty, devices = Map.empty, batteryInfo = Map.empty, lowBattery = Map.empty,
      k_store = st, k_trace = []\<rparr>"

definition SetNotify_k8s :: "k8s_manager \<Rightarrow> k8s_manager" where "SetNotify_k8s m = m\<lparr>k_NotifyFn := True\<rparr>"
definition SetReconcile_k8s :: "k8s_manager \<Rightarrow> k8s_manager" where "SetReconcile_k8s m = m\<lparr>k_ReconcileFn := True\<rparr>"

text \<open>Docker's part of the interface does nothing here.\<close>

definition SetUSBInfo_k8s :: "string \<Rightarrow> string \<Rightarrow> string \<Rightarrow> string \<Rightarrow> k8s_manager \<Rightarrow> k8s_manager" where
  "SetUSBInfo_k8s _ _ _ _ m = m"
definition BuildTestImage_k8s :: "string \<Rightarrow> string \<Rightarrow> k8s_manager \<Rightarrow> unit res \<times> k8s_manager" where
  "BuildTestImage_k8s _ _ m = (Inr (), m)"
definition PullImage_k8s :: "string \<Rightarrow> k8s_manager \<Rightarrow> unit res \<times> k8s_manager" where
  "PullImage_k8s _ m = (Inr (), m)"
definition OnWelcome :: "hub_device list \<Rightarrow> k8s_manager \<Rightarrow> k8s_manager" where "OnWelcome _ m = m"
definition OnDeviceConnected :: "hub_device \<Rightarrow> k8s_manager \<Rightarrow> k8s_manager" where "OnDeviceConnected _ m = m"

section \<open>Names\<close>

definition labelManaged_k8s :: string where "labelManaged_k8s = ''hub-test.io/managed''"
definition labelDevice_k8s :: string where "labelDevice_k8s = ''hub-test.io/device''"
definition labelPlatform_k8s :: string where "labelPlatform_k8s = ''hub-test.io/platform''"

definition name_char :: "char \<Rightarrow> bool" where
  "name_char c \<longleftrightarrow> is_lower c \<or> is_digit c \<or> c = CHR ''-''"

definition trim_dashes :: "string \<Rightarrow> string" where
  "trim_dashes s = rev (dropWhile (\<lambda>c. c = CHR ''-'') (rev (dropWhile (\<lambda>c. c = CHR ''-'') s)))"

definition sanitize_k8s :: "string \<Rightarrow> string" where
  "sanitize_k8s s = trim_dashes (map (\<lambda>c. if name_char c then c else CHR ''-'') (to_lower s))"

definition pod_name :: "string \<Rightarrow> string" where
  "pod_name serial = ''hub-test-'' @ sanitize_k8s serial"

definition iosUDIDFromSerial :: "string \<Rightarrow> string" where
  "iosUDIDFromSerial serial =
     (let s = to_upper serial
      in if contains s ''-'' then s
         else if length s = 24 then take 8 s @ ''-'' @ drop 8 s
         else s)"

definition testsContainerDone :: "pod \<Rightarrow> bool" where
  "testsContainerDone p =
     (case find (\<lambda>cs. cs_Name cs = ''tests'') (st_ContainerStatuses (pod_Status p)) of
        None \<Rightarrow> False
      | Some cs \<Rightarrow> cs_Terminated cs \<noteq> None)"

text \<open>A label of a pod; a missing one reads as the empty string.\<close>

definition pod_label :: "pod \<Rightarrow> string \<Rightarrow> string" where
  "pod_label p k = (case map_of (om_Labels (pod_Metadata p)) k of None \<Rightarrow> '''' | Some v \<Rightarrow> v)"

definition pod_phase :: "pod \<Rightarrow> string" where
  "pod_phase p = st_Phase (pod_Status p)"

text \<open>The key under which a pod is remembered: its UID, or its name without one.\<close>

definition pod_key :: "pod \<Rightarrow> string" where
  "pod_key p = (if om_UID (pod_Metadata p) = [] then om_Name (pod_Metadata p) else om_UID (pod_Metadata p))"

definition managed_selector :: string where "managed_selector = labelManaged_k8s @ ''=true''"

definition device_selector :: "string \<Rightarrow> string" where
  "device_selector serial = labelManaged_k8s @ ''=true,'' @ labelDevice_k8s @ ''='' @ serial"

definition list_pods :: "kworld \<Rightarrow> string \<Rightarrow> k8s_manager \<Rightarrow> pod list res \<times> k8s_manager" where
  "list_pods w selector m = khost (ListPods w (k_client m) selector) m"

definition delete_pod :: "kworld \<Rightarrow> string \<Rightarrow> k8s_manager \<Rightarrow> k8s_manager" where
  "delete_pod w name m = snd (khost (DeletePod w (k_client m) name) m)"

definition adbEndpoint_k8s :: "k8s_manager \<Rightarrow> string \<Rightarrow> string" where
  "adbEndpoint_k8s m serial = (case k_endpoints m serial of Some e \<Rightarrow> e | None \<Rightarrow> '''')"

section \<open>Creating pods\<close>

definition env :: "string \<Rightarrow> string \<Rightarrow> env_var" where
  "env n v = \<lparr>en_Name = n, en_Value = v\<rparr>"

definition mount :: "string \<Rightarrow> string \<Rightarrow> volume_mount" where
  "mount n p = \<lparr>vm_Name = n, vm_MountPath = p\<rparr>"

definition shared_mount :: volume_mount where "shared_mount = mount ''shared'' ''/shared''"
definition usbmuxd_mount :: volume_mount where "usbmuxd_mount = mount ''usbmuxd-run'' ''/var/run''"
definition empty_dir :: "string \<Rightarrow> volume" where "empty_dir n = \<lparr>vo_Name = n, vo_EmptyDir = True\<rparr>"

definition container_of ::
  "string \<Rightarrow> string \<Rightarrow> string list \<Rightarrow> string list \<Rightarrow> env_var list \<Rightarrow> volume_mount list \<Rightarrow> pod_container" where
  "container_of name img command args e mounts =
     \<lparr>pc_Name = name, pc_Image = img, pc_ImagePullPolicy = ''Always'', pc_Command = command, pc_Args = args,
      pc_Env = e, pc_VolumeMounts = mounts, pc_Privileged = None\<rparr>"

text \<open>A script that runs a process in the background until the file \<open>/shared/done\<close> appears, and the script
  that runs the tests and makes the file.\<close>

definition background_script :: "string \<Rightarrow> string \<Rightarrow> string \<Rightarrow> string" where
  "background_script command pid silent =
     join [nl] [command @ '' &'', pid @ ''=$!'', ''while [ ! -f /shared/done ]; do sleep 2; done'',
       ''kill $'' @ pid @ silent, ''wait $'' @ pid @ '' 2>/dev/null'', ''exit 0'']"

definition tests_script :: string where
  "tests_script = join [nl] [''/entrypoint.sh'', ''STATUS=$?'', ''touch /shared/done'', ''exit $STATUS'']"

definition tz_env :: env_var where "tz_env = env ''TZ'' ''Europe/Moscow''"

definition android_hub_client :: "k8s_config \<Rightarrow> device \<Rightarrow> pod_container" where
  "android_hub_client c dev =
     container_of ''hub-client'' (k_HubClientImage c) [''sh'', ''-c'']
       [background_script ''/client'' ''HID'' '' 2>/dev/null'']
       ([env ''USBMUXD_HOST'' (k_HubUsbmuxdHost c),
         env ''USBMUXD_PORT'' (if k_HubUsbmuxdPort c = [] then ''27015'' else k_HubUsbmuxdPort c),
         env ''DEVICE'' (Serial dev), env ''DEVICE_TYPE'' ''android'', tz_env] @
        (if k_HubHandshakeSecret c \<noteq> [] then [env ''HANDSHAKE_SECRET'' (k_HubHandshakeSecret c)] else []) @
        (if k_AdbTunnelMode c \<noteq> [] then [env ''TUNNEL_MODE'' (k_AdbTunnelMode c)] else []))
       [shared_mount]"

text \<open>The host of an endpoint: what stands before its last colon.\<close>

definition endpoint_host :: "string \<Rightarrow> string" where
  "endpoint_host endpoint =
     (case last_index (CHR '':'') endpoint of
        Some i \<Rightarrow> if i > 0 then take i endpoint else ''localhost''
      | None \<Rightarrow> ''localhost'')"

definition android_containers :: "k8s_config \<Rightarrow> device \<Rightarrow> string \<Rightarrow> pod_container list" where
  "android_containers c dev endpoint =
     (if k_HubClientImage c \<noteq> [] then [android_hub_client c dev] else []) @
     [container_of ''appium'' (k_AppiumImage c) [''sh'', ''-c'']
        [background_script (''appium --port 4723 --address 0.0.0.0 --allow-insecure=uiautomator2:adb_shell'' @
           '' --log-timestamp --log-no-colors'') ''APID'' '''']
        ([env ''ANDROID_SERIAL'' (ADBSerial dev), tz_env] @
         (if k_HubClientImage c = [] then
            [env ''ANDROID_ADB_SERVER_ADDRESS'' (endpoint_host endpoint), env ''ANDROID_ADB_SERVER_PORT'' ''5037'']
          else []))
        [shared_mount],
      container_of ''tests'' (k_TestImage c) [''sh'', ''-c''] [tests_script]
        ([env ''ANDROID_SERIAL'' (ADBSerial dev), env ''APPIUM_HOST'' ''localhost'', env ''APPIUM_PORT'' ''4723'', tz_env] @
         (if k_APKServeURL c \<noteq> [] then [env ''APIDEMOS_APK_URL'' (k_APKServeURL c)] else []))
        [shared_mount]]"

definition ios_hub_client :: "k8s_config \<Rightarrow> device \<Rightarrow> pod_container" where
  "ios_hub_client c dev =
     container_of ''hub-client'' (k_HubClientImage c) [] []
       ([env ''DEVICE'' (Serial dev), env ''DEVICE_TYPE'' ''ios'', env ''USBMUXD_HOST'' (k_HubUsbmuxdHost c),
         env ''USBMUXD_PORT'' (k_HubUsbmuxdPort c), env ''USBMUXD_SOCKET'' ''/var/run/usbmuxd'',
         env ''HANDSHAKE_SECRET'' (k_HubHandshakeSecret c), tz_env] @
        (if k_AdbTunnelMode c \<noteq> [] then [env ''TUNNEL_MODE'' (k_AdbTunnelMode c)] else []))
       [usbmuxd_mount]"

definition ios_containers :: "k8s_config \<Rightarrow> device \<Rightarrow> pod_container list" where
  "ios_containers c dev =
     (let udid = iosUDIDFromSerial (Serial dev) in
      (if k_HubClientImage c \<noteq> [] then [ios_hub_client c dev] else []) @
      [container_of ''appium'' (if k_IOSAppiumImage c = [] then k_AppiumImage c else k_IOSAppiumImage c) [''sh'', ''-c'']
         [background_script ''appium --port 4723 --address 0.0.0.0 --log-timestamp --log-no-colors'' ''APID'' '''']
         [env ''IOS_UDID'' udid, tz_env] [shared_mount, usbmuxd_mount],
       container_of ''tests'' (k_IOSTestImage c) [''sh'', ''-c''] [tests_script]
         ([env ''IOS_UDID'' udid, env ''APPIUM_HOST'' ''localhost'', env ''APPIUM_PORT'' ''4723'',
           env ''WDA_URL'' (''http://localhost:'' @ ''7777''), env ''DEVICE_PLATFORM'' ''ios'', tz_env] @
          (if k_IPAServeURL c \<noteq> [] then [env ''IOS_IPA_URL'' (k_IPAServeURL c)] else []) @
          (if k_IOSBundleID c \<noteq> [] then [env ''IOS_BUNDLE_ID'' (k_IOSBundleID c)] else []))
         [shared_mount]])"

definition device_pod :: "string \<Rightarrow> device \<Rightarrow> pod_container list \<Rightarrow> volume list \<Rightarrow> int option \<Rightarrow> pod" where
  "device_pod ns dev cs vs grace =
     \<lparr>pod_APIVersion = '''', pod_Kind = '''',
      pod_Metadata = \<lparr>om_Name = pod_name (Serial dev), om_Namespace = ns, om_UID = '''',
        om_Labels = [(labelManaged_k8s, ''true''), (labelDevice_k8s, Serial dev), (labelPlatform_k8s, Platform dev)],
        om_ResourceVersion = ''''\<rparr>,
      pod_Spec = \<lparr>ps_RestartPolicy = ''Never'', ps_Containers = cs, ps_Volumes = vs, ps_Grace = grace\<rparr>,
      pod_Status = \<lparr>st_Phase = '''', st_ContainerStatuses = []\<rparr>\<rparr>"

definition createAndroidPod :: "kworld \<Rightarrow> device \<Rightarrow> k8s_manager \<Rightarrow> unit res \<times> k8s_manager" where
  "createAndroidPod w dev m =
     khost (CreatePod w (k_client m) (device_pod (cl_Namespace (k_client m)) dev
       (android_containers (k_config m) dev (adbEndpoint_k8s m (Serial dev))) [empty_dir ''shared''] None)) m"

definition createIOSPod :: "kworld \<Rightarrow> device \<Rightarrow> k8s_manager \<Rightarrow> unit res \<times> k8s_manager" where
  "createIOSPod w dev m =
     khost (CreatePod w (k_client m) (device_pod (cl_Namespace (k_client m)) dev
       (ios_containers (k_config m) dev) [empty_dir ''shared'', empty_dir ''usbmuxd-run''] (Some 5))) m"

definition createPod :: "kworld \<Rightarrow> device \<Rightarrow> k8s_manager \<Rightarrow> unit res \<times> k8s_manager" where
  "createPod w dev m = (if Platform dev = ''ios'' then createIOSPod w dev m else createAndroidPod w dev m)"

text \<open>The battery level that the hub server last told, \<open>-1\<close> without one; the bounds of the gate.\<close>

definition batteryMinPct :: int where "batteryMinPct = 30"
definition batteryResumePct :: int where "batteryResumePct = 35"
definition postRebootStabilizeDelay :: duration where "postRebootStabilizeDelay = seconds 15"

definition batteryPercent :: "k8s_manager \<Rightarrow> string \<Rightarrow> int" where
  "batteryPercent m serial = (case batteryInfo m serial of Some (pct, _) \<Rightarrow> to_int64 pct | None \<Rightarrow> -1)"

definition maybeCreatePod :: "kworld \<Rightarrow> device \<Rightarrow> k8s_manager \<Rightarrow> k8s_manager" where
  "maybeCreatePod w dev m =
     (let pct = batteryPercent m (Serial dev)
      in if pct \<ge> 0 \<and> pct \<le> batteryMinPct then m\<lparr>lowBattery := (lowBattery m)(Serial dev \<mapsto> dev)\<rparr>
         else snd (createPod w dev m))"

text \<open>A device that is back from its reboot is left alone for a while; the goroutine that waits creates the
  pod itself.\<close>

definition scheduleStabilization :: "string \<Rightarrow> device \<Rightarrow> k8s_manager \<Rightarrow> bool \<times> k8s_manager" where
  "scheduleStabilization serial dev m =
     (if serial \<notin> k_rebooting m then (False, m)
      else if serial \<in> stabilizing m then (True, m)
      else (True, kemit (Go_stabilize serial dev) (m\<lparr>stabilizing := insert serial (stabilizing m)\<rparr>)))"

text \<open>What several handlers end with: a pod unless the device has one already or the pods cannot be listed.\<close>

definition unless_pod :: "kworld \<Rightarrow> string \<Rightarrow> (k8s_manager \<Rightarrow> k8s_manager) \<Rightarrow> k8s_manager \<Rightarrow> k8s_manager" where
  "unless_pod w serial f m =
     (let (existing, m1) = list_pods w (device_selector serial) m
      in case existing of Inr [] \<Rightarrow> f m1 | _ \<Rightarrow> m1)"

definition end_stabilization :: "kworld \<Rightarrow> string \<Rightarrow> device \<Rightarrow> k8s_manager \<Rightarrow> k8s_manager" where
  "end_stabilization w serial dev m =
     (let m1 = m\<lparr>k_trace := sleep postRebootStabilizeDelay (k_trace m),
                 stabilizing := stabilizing m - {serial}, k_rebooting := k_rebooting m - {serial}\<rparr>
      in unless_pod w serial (maybeCreatePod w dev) m1)"

section \<open>The result of a pod\<close>

definition fresh_summary_k8s :: "string \<Rightarrow> string \<Rightarrow> string \<Rightarrow> int \<Rightarrow> float64 \<Rightarrow> time \<Rightarrow> k8s_summary" where
  "fresh_summary_k8s serial model platform pct temp t =
     \<lparr>sm_Serial = serial, sm_Model = model, sm_StartedAt = zero_time, sm_FinishedAt = t, sm_Passing = 0,
      sm_Failing = 0, sm_Pending = 0, sm_Found = False, sm_TestSecs = 0, sm_TestLog = '''', sm_AppiumLog = '''',
      sm_Screenshot = '''', sm_BatteryPct = pct, sm_RunID = 0, sm_SessionMs = 0, sm_ApkMs = 0,
      ks_Platform = platform, ks_HubClientLog = '''', ks_BatteryTemp = temp\<rparr>"

text \<open>A request to the hub server; a status from 300 on is an error.\<close>

definition hub_call :: "kworld \<Rightarrow> http_method \<Rightarrow> string \<Rightarrow> k8s_manager \<Rightarrow> (string + string res) \<times> k8s_manager" where
  "hub_call w h url m =
     (case hub_answer w (k_trace m) h url of
        Inl e \<Rightarrow> Inl (method_text h @ '' '' @ url @ '': '' @ e)
      | Inr (status, body) \<Rightarrow>
          if status \<ge> 300 then Inl (method_text h @ '' '' @ url @ '': status '' @ itoa status) else Inr body,
      kemit (Hub h url) m)"

definition takeScreenshot_k8s :: "kworld \<Rightarrow> string \<Rightarrow> k8s_manager \<Rightarrow> string res \<times> k8s_manager" where
  "takeScreenshot_k8s w serial m =
     (if k_HubURL (k_config m) = [] then (Inl ''HubURL not configured'', m)
      else let (r, m1) = hub_call w GET (k_HubURL (k_config m) @ ''/api/v1/device/'' @ serial @ ''/screenshot'') m
           in (case r of Inl e \<Rightarrow> Inl e | Inr body \<Rightarrow> body, m1))"

definition rebootViaHub :: "kworld \<Rightarrow> string \<Rightarrow> string \<Rightarrow> k8s_manager \<Rightarrow> unit res \<times> k8s_manager" where
  "rebootViaHub w serial platform m =
     (if k_HubURL (k_config m) = [] then (Inl ''HubURL not configured'', m)
      else let (r, m1) = hub_call w (if platform = ''ios'' then POST else GET)
                   (k_HubURL (k_config m) @ ''/api/v1/device/'' @ serial @ ''/reboot'') m
           in (map_sum id (\<lambda>_. ()) r, m1))"

text \<open>The logs of the three containers of a pod; one that cannot be read is empty.\<close>

definition pod_log :: "kworld \<Rightarrow> string \<Rightarrow> string \<Rightarrow> int \<Rightarrow> k8s_manager \<Rightarrow> string \<times> k8s_manager" where
  "pod_log w name ct tail_lines m =
     (let (r, m1) = khost (PodLogs w (k_client m) name ct tail_lines) m in (case_sum (\<lambda>_. '''') id r, m1))"

definition processPodResult :: "kworld \<Rightarrow> string \<Rightarrow> string \<Rightarrow> string \<Rightarrow> pod \<Rightarrow> k8s_manager \<Rightarrow> k8s_summary \<times> k8s_manager" where
  "processPodResult w serial model platform p m =
     (let name = om_Name (pod_Metadata p);
          (pct, temp) = (case batteryInfo m serial of Some (b, t) \<Rightarrow> (to_int64 b, t) | None \<Rightarrow> (-1, 0));
          (t, m1) = khost (now w) m;
          s0 = fresh_summary_k8s serial model platform pct temp t;
          (tlog, m2) = pod_log w name ''tests'' 0 m1;
          (alog, m3) = pod_log w name ''appium'' 2000 m2;
          (hlog, m4) = pod_log w name ''hub-client'' 2000 m3;
          s1 = parse_appium_log (parse_test_log tlog
                 (s0\<lparr>sm_TestLog := tlog, sm_AppiumLog := alog, ks_HubClientLog := hlog\<rparr>))
      in if \<not> sm_Found s1 \<or> sm_Failing s1 > 0 then
           let (shot, m5) = takeScreenshot_k8s w serial m4
           in (case shot of Inr png \<Rightarrow> if png \<noteq> [] then s1\<lparr>sm_Screenshot := png\<rparr> else s1 | Inl _ \<Rightarrow> s1, m5)
         else (s1, m4))"

definition run_of_summary_k8s :: "k8s_summary \<Rightarrow> run" where
  "run_of_summary_k8s s =
     \<lparr>run_ID = 0, run_Serial = sm_Serial s, run_Model = sm_Model s, run_FinishedAt = sm_FinishedAt s,
      run_Passing = sm_Passing s, run_Failing = sm_Failing s, run_Pending = sm_Pending s, run_Found = sm_Found s,
      run_BootOK = False, run_BootSeconds = 0, run_TotalSeconds = Seconds (totalDuration s),
      run_TestSeconds = sm_TestSecs s, run_HasLogs = False, run_HasScreenshot = False,
      run_BatteryPct = sm_BatteryPct s, run_BatteryTemp = ks_BatteryTemp s, run_UsbPath = '''',
      run_SessionMs = sm_SessionMs s, run_ApkMs = sm_ApkMs s\<rparr>"

definition kfile :: "kworld \<Rightarrow> kown \<Rightarrow> k8s_manager \<Rightarrow> bool \<times> k8s_manager" where
  "kfile w c m = (k_file_error w (k_trace m) = None, kemit c m)"

definition krun_sql :: "kworld \<Rightarrow> (string option \<Rightarrow> db \<Rightarrow> 'a res \<times> db) \<Rightarrow> k8s_manager \<Rightarrow> k8s_manager" where
  "krun_sql w f m = (case k_store m of None \<Rightarrow> m | Some d \<Rightarrow> snd (kwith_db w f d m))"

text \<open>A log that is empty is not written. \<open>None\<close> is no attempt, \<open>Some\<close> tells whether the write succeeded.\<close>

definition kwrite :: "kworld \<Rightarrow> string \<Rightarrow> string \<Rightarrow> k8s_manager \<Rightarrow> bool option \<times> k8s_manager" where
  "kwrite w f data m =
     (if data = [] then (None, m) else let (ok, m1) = kfile w (K_write f data) m in (Some ok, m1))"

definition saveLogs_k8s :: "kworld \<Rightarrow> int \<Rightarrow> k8s_summary \<Rightarrow> k8s_manager \<Rightarrow> k8s_manager" where
  "saveLogs_k8s w run_id s m =
     (let dir = ''reports/logs/'' @ itoa run_id; (ok, m1) = kfile w (K_mkdir dir) m
      in if \<not> ok then m1
         else let (t, m2) = kwrite w (dir @ ''/test.log'') (sm_TestLog s) m1;
                  (a, m3) = kwrite w (dir @ ''/appium.log'') (sm_AppiumLog s) m2;
                  (h, m4) = kwrite w (dir @ ''/hub-client.log'') (ks_HubClientLog s) m3;
                  m5 = (if t = Some True \<or> a \<noteq> None \<or> h \<noteq> None then krun_sql w (\<lambda>e. SetHasLogs e run_id) m4 else m4);
                  (p, m6) = kwrite w (dir @ ''/screen.png'') (sm_Screenshot s) m5
              in if p = Some True then krun_sql w (\<lambda>e. SetHasScreenshot e run_id) m6 else m6)"

definition report_text_k8s :: "duration \<Rightarrow> k8s_summary \<Rightarrow> string" where
  "report_text_k8s off s = report_entry off [] ''pod'' s"

definition writeFileReport_k8s :: "kworld \<Rightarrow> k8s_summary \<Rightarrow> k8s_manager \<Rightarrow> k8s_manager" where
  "writeFileReport_k8s w s m =
     (let (ok, m1) = kfile w (K_mkdir ''reports'') m
      in if \<not> ok then m1
         else snd (kfile w (K_append (report_file (k_local_offset w) s) (report_text_k8s (k_local_offset w) s)) m1))"

definition saveTestResult_k8s :: "kworld \<Rightarrow> k8s_summary \<Rightarrow> k8s_manager \<Rightarrow> k8s_summary \<times> k8s_manager" where
  "saveTestResult_k8s w s m =
     (let (s', m') =
            (case k_store m of
               None \<Rightarrow> (s, m)
             | Some d \<Rightarrow>
                 let (r, m1) = kwith_db w (\<lambda>e. Insert e (run_of_summary_k8s s)) d m
                 in case r of
                      Inl _ \<Rightarrow> (s, m1)
                    | Inr i \<Rightarrow> let s1 = s\<lparr>sm_RunID := i\<rparr> in (s1, knotify (saveLogs_k8s w i s1 m1)))
      in (s', writeFileReport_k8s w s' m'))"

definition updateBootResult_k8s :: "kworld \<Rightarrow> int \<Rightarrow> duration \<Rightarrow> bool \<Rightarrow> k8s_manager \<Rightarrow> k8s_manager" where
  "updateBootResult_k8s w run_id boot ok m =
     (case k_store m of
        None \<Rightarrow> m
      | Some d \<Rightarrow>
          if run_id = 0 then m
          else let (r, m1) = kwith_db w (\<lambda>e. UpdateBoot e run_id (Seconds boot) ok) d m
               in if is_ok r then knotify m1 else m1)"

definition rebootAndReport_k8s :: "kworld \<Rightarrow> k8s_summary \<Rightarrow> k8s_manager \<Rightarrow> k8s_manager" where
  "rebootAndReport_k8s w s m =
     (let (r, m1) = rebootViaHub w (sm_Serial s) (ks_Platform s) m
      in case r of
           Inl _ \<Rightarrow> kemit (Go_retry (sm_Serial s))
                     (updateBootResult_k8s w (sm_RunID s) 0 False
                        (m1\<lparr>k_rebooting := k_rebooting m1 - {sm_Serial s}\<rparr>))
         | Inr _ \<Rightarrow> updateBootResult_k8s w (sm_RunID s) 0 True m1)"

text \<open>The goroutine that a failed reboot starts.\<close>

definition retry_pod :: "kworld \<Rightarrow> string \<Rightarrow> k8s_manager \<Rightarrow> k8s_manager" where
  "retry_pod w serial m =
     (let m1 = m\<lparr>k_trace := sleep (seconds 10) (k_trace m)\<rparr>
      in case devices m1 serial of
           None \<Rightarrow> m1
         | Some dev \<Rightarrow> unless_pod w (Serial dev) (\<lambda>m. snd (createPod w dev m)) m1)"

section \<open>Collecting a pod\<close>

datatype pod_outcome =
    Pod_reported string k8s_summary | Pod_stale string | Pod_left | Pod_skipped | Pod_stabilizing | Pod_created "unit res"

text \<open>A pod is done when its tests have ended, or as a whole. A pod whose result was not yet reported is
  reported, deleted and saved, and its device rebooted; one that was is only deleted.\<close>

definition pod_done :: "pod \<Rightarrow> bool" where
  "pod_done p \<longleftrightarrow> (pod_phase p = ''Running'' \<and> testsContainerDone p) \<or> pod_phase p \<in> {''Succeeded'', ''Failed''}"

definition collect_pod :: "kworld \<Rightarrow> string \<Rightarrow> device \<Rightarrow> pod \<Rightarrow> k8s_manager \<Rightarrow> pod_outcome \<times> k8s_manager" where
  "collect_pod w serial dev p m =
     (let name = om_Name (pod_Metadata p); key = pod_key p
      in if key \<in> k_reported m then (Pod_stale key, delete_pod w name m)
         else let m1 = m\<lparr>k_reported := insert key (k_reported m)\<rparr>;
                  (s, m2) = processPodResult w serial (Model dev) (Platform dev) p m1;
                  m3 = delete_pod w name m2;
                  (s', m4) = saveTestResult_k8s w s m3;
                  m5 = m4\<lparr>k_rebooting := insert serial (k_rebooting m4)\<rparr>
              in (Pod_reported key s', kemit (Go_reboot s') m5))"

section \<open>Reconcile and CheckPods\<close>

definition test_image :: "k8s_config \<Rightarrow> device \<Rightarrow> string" where
  "test_image c dev = (if Platform dev = ''ios'' then k_IOSTestImage c else k_TestImage c)"

definition set_endpoint :: "k8s_manager \<Rightarrow> device \<Rightarrow> k8s_manager" where
  "set_endpoint m d =
     m\<lparr>k_endpoints := (k_endpoints m)(Serial d :=
         if ADBHost d \<noteq> [] then Some (ADBHost d @ '':'' @ itoa (ADBPort d)) else None)\<rparr>"

definition pods_by_serial :: "pod list \<Rightarrow> (string \<times> pod) list" where
  "pods_by_serial ps =
     foldl (\<lambda>m p. let s = pod_label p labelDevice_k8s in if s = [] then m else AList.update s p m) [] ps"

definition ready_devices :: "device list \<Rightarrow> (string \<times> device) list" where
  "ready_devices ds = foldl (\<lambda>m d. if IsReady d then AList.update (Serial d) d m else m) [] ds"

definition drop_pod :: "kworld \<Rightarrow> (string \<times> device) list \<Rightarrow> k8s_manager \<Rightarrow> string \<times> pod \<Rightarrow> k8s_manager" where
  "drop_pod w ready m x =
     (if map_of ready (fst x) = None then delete_pod w (om_Name (pod_Metadata (snd x))) m else m)"

definition reconcile_pod :: "kworld \<Rightarrow> (string \<times> pod) list \<Rightarrow> string \<times> device \<Rightarrow> k8s_manager \<Rightarrow> pod_outcome \<times> k8s_manager" where
  "reconcile_pod w pods x m =
     (case x of (serial, dev) \<Rightarrow>
        if test_image (k_config m) dev = [] then (Pod_skipped, m)
        else case map_of pods serial of
               None \<Rightarrow>
                 let (wait, m1) = scheduleStabilization serial dev m
                 in if wait then (Pod_stabilizing, m1)
                    else let (r, m2) = createPod w dev m1 in (Pod_created r, m2)
             | Some p \<Rightarrow> if pod_done p then collect_pod w serial dev p m else (Pod_left, m))"

fun reconcile_pods :: "kworld \<Rightarrow> (string \<times> pod) list \<Rightarrow> (string \<times> device) list \<Rightarrow> k8s_manager
   \<Rightarrow> (string \<times> pod_outcome) list \<times> k8s_manager" where
  "reconcile_pods w pods [] m = ([], m)"
| "reconcile_pods w pods (x # xs) m =
     (let (out, m1) = reconcile_pod w pods x m; (outs, m2) = reconcile_pods w pods xs m1
      in ((fst x, out) # outs, m2))"

definition Reconcile_k8s :: "kworld \<Rightarrow> device list \<Rightarrow> k8s_manager \<Rightarrow> (unit res \<times> (string \<times> pod_outcome) list) \<times> k8s_manager" where
  "Reconcile_k8s w ds m =
     (let m1 = foldl set_endpoint m ds; (listed, m2) = list_pods w managed_selector m1
      in case listed of
           Inl e \<Rightarrow> ((Inl (''list pods: '' @ e), []), m2)
         | Inr ps \<Rightarrow>
             let pods = pods_by_serial ps; ready = ready_devices ds;
                 m3 = foldl (drop_pod w ready) m2 (range_pods w (k_trace m2) pods);
                 (outs, m4) = reconcile_pods w pods (range_devices w (k_trace m3) ready) m3
             in ((Inr (), outs), m4))"

text \<open>A pod of \<open>CheckPods\<close>: the device as it was last seen, or what the pod's labels say of it.\<close>

definition check_pod :: "kworld \<Rightarrow> pod \<Rightarrow> k8s_manager \<Rightarrow> pod_outcome \<times> k8s_manager" where
  "check_pod w p m =
     (let serial = pod_label p labelDevice_k8s
      in if serial = [] \<or> \<not> pod_done p then (Pod_left, m)
         else let dev = (case devices m serial of
                           Some d \<Rightarrow> d
                         | None \<Rightarrow> zero_device\<lparr>Serial := serial, Platform := pod_label p labelPlatform_k8s\<rparr>);
                  (out, m1) = collect_pod w serial dev p m
              in (out, case out of Pod_reported _ _ \<Rightarrow> if k_ReconcileFn m1 then kemit K_signal m1 else m1 | _ \<Rightarrow> m1))"

fun check_pods :: "kworld \<Rightarrow> pod list \<Rightarrow> k8s_manager \<Rightarrow> pod_outcome list \<times> k8s_manager" where
  "check_pods w [] m = ([], m)"
| "check_pods w (p # ps) m =
     (let (out, m1) = check_pod w p m; (outs, m2) = check_pods w ps m1 in (out # outs, m2))"

definition CheckPods_k8s :: "kworld \<Rightarrow> k8s_manager \<Rightarrow> pod_outcome list \<times> k8s_manager" where
  "CheckPods_k8s w m =
     (let (listed, m1) = list_pods w managed_selector m
      in case listed of Inl _ \<Rightarrow> ([], m1) | Inr ps \<Rightarrow> check_pods w ps m1)"

definition RunningDevices_k8s :: "kworld \<Rightarrow> k8s_manager \<Rightarrow> running_device list \<times> k8s_manager" where
  "RunningDevices_k8s w m =
     (let (listed, m1) = list_pods w managed_selector m
      in (case listed of
            Inl _ \<Rightarrow> []
          | Inr ps \<Rightarrow>
              map (\<lambda>p. \<lparr>rd_Serial = pod_label p labelDevice_k8s, rd_AppiumPort = 0, rd_AppiumStartedAt = zero_time,
                        rd_TestStartedAt = zero_time, rd_HasTest = True\<rparr>)
                (filter (\<lambda>p. pod_phase p \<in> {''Running'', ''Pending''} \<and> pod_label p labelDevice_k8s \<noteq> []) ps), m1))"

section \<open>The events of the hub server\<close>

definition OnDeviceOffline :: "string \<Rightarrow> string \<Rightarrow> k8s_manager \<Rightarrow> k8s_manager" where
  "OnDeviceOffline serial platform m =
     m\<lparr>k_endpoints := (k_endpoints m)(serial := None), devices := (devices m)(serial := None),
       lowBattery := (lowBattery m)(serial := None)\<rparr>"

definition OnDeviceDeleted :: "kworld \<Rightarrow> string \<Rightarrow> string \<Rightarrow> k8s_manager \<Rightarrow> k8s_manager" where
  "OnDeviceDeleted w serial platform m =
     (let m1 = m\<lparr>k_endpoints := (k_endpoints m)(serial := None), devices := (devices m)(serial := None)\<rparr>;
          (listed, m2) = list_pods w (device_selector serial) m1
      in case listed of
           Inl _ \<Rightarrow> m2
         | Inr ps \<Rightarrow> foldl (\<lambda>m p. delete_pod w (om_Name (pod_Metadata p)) m) m2 ps)"

text \<open>The battery of a device's \<open>Info\<close>: level and temperature, \<open>-1\<close> and \<open>0\<close> where they are not given.\<close>

definition info_battery :: "(string \<times> info) list \<Rightarrow> int \<times> float64" where
  "info_battery i =
     (case map_of i ''battery'' of
        Some (Info_obj b) \<Rightarrow>
          (case map_of b ''level'' of Some (Info_num n) \<Rightarrow> to_int64 n | _ \<Rightarrow> -1,
           case map_of b ''temperature'' of Some (Info_num n) \<Rightarrow> n | _ \<Rightarrow> 0)
      | _ \<Rightarrow> (-1, 0))"

definition note_battery :: "string \<Rightarrow> (string \<times> info) list option \<Rightarrow> k8s_manager \<Rightarrow> k8s_manager" where
  "note_battery serial i m =
     (case i of
        None \<Rightarrow> m
      | Some b \<Rightarrow>
          (case info_battery b of (pct, temp) \<Rightarrow>
             if pct \<ge> 0 then m\<lparr>batteryInfo := (batteryInfo m)(serial \<mapsto> (fl (of_int pct), temp))\<rparr>
             else if batteryInfo m serial = None then m\<lparr>batteryInfo := (batteryInfo m)(serial \<mapsto> (-1, 0))\<rparr>
             else m))"

definition hub_adb_device :: "k8s_config \<Rightarrow> hub_device \<Rightarrow> device" where
  "hub_adb_device c hub =
     (let s = info_text (hd_Info hub) ''serial''
      in \<lparr>Serial = hd_Serial hub, ADBSerial = (if s \<noteq> [] then s else hd_Serial hub), State = ''device'',
          Model = hub_Model hub,
          ADBHost = ''peer-'' @ hd_Serial hub @ ''.'' @ k_Namespace c @ ''.svc.cluster.local'', ADBPort = 5037,
          Platform = hub_Platform hub\<rparr>)"

definition start_or_wait :: "kworld \<Rightarrow> device \<Rightarrow> k8s_manager \<Rightarrow> k8s_manager" where
  "start_or_wait w dev m =
     (let (wait, m1) = scheduleStabilization (Serial dev) dev m in if wait then m1 else maybeCreatePod w dev m1)"

definition OnDeviceReady :: "kworld \<Rightarrow> hub_device \<Rightarrow> k8s_manager \<Rightarrow> k8s_manager" where
  "OnDeviceReady w hub m =
     (let dev = hub_adb_device (k_config m) hub;
          m1 = note_battery (Serial dev) (hd_Info hub) m;
          m2 = m1\<lparr>devices := (devices m1)(Serial dev \<mapsto> dev),
                  k_endpoints := (k_endpoints m1)(Serial dev \<mapsto> ADBHost dev @ '':'' @ itoa (ADBPort dev))\<rparr>
      in if test_image (k_config m2) dev = [] then m2
         else unless_pod w (Serial dev) (start_or_wait w dev) m2)"

definition OnBatteryUpdated :: "kworld \<Rightarrow> string \<Rightarrow> string \<Rightarrow> int \<Rightarrow> int \<Rightarrow> k8s_manager \<Rightarrow> k8s_manager" where
  "OnBatteryUpdated w serial platform level temp m =
     (let m1 = m\<lparr>batteryInfo := (batteryInfo m)(serial \<mapsto> (fl (of_int level), fl (of_int temp)))\<rparr>
      in case lowBattery m1 serial of
           None \<Rightarrow> m1
         | Some dev \<Rightarrow>
             if level < batteryResumePct then m1
             else unless_pod w (Serial dev) (\<lambda>m. snd (createPod w dev m))
                    (m1\<lparr>lowBattery := (lowBattery m1)(serial := None)\<rparr>))"

end
