(* ===== verification/K8s_Facts.thy ===== *)
theory K8s_Facts
  imports K8s_Manager
begin

text \<open>
  What holds of the Kubernetes manager of \<open>K8s_Manager\<close>: what its operations leave alone and which calls
  they make, the exactly-once contract of the reports, the timers of rebooted devices, the battery gate and
  the pods that it creates.
\<close>

section \<open>What the operations leave alone\<close>

text \<open>The state without the trace and the database, and the calls that start or end something: pods created
  and deleted, goroutines started.\<close>

definition kframe :: "k8s_manager \<Rightarrow> k8s_manager" where
  "kframe m = m\<lparr>k_trace := [], k_store := None\<rparr>"

lemma kframe_sel [simp]:
  "k_client (kframe m) = k_client m" "k_config (kframe m) = k_config m" "k_rebooting (kframe m) = k_rebooting m"
  "stabilizing (kframe m) = stabilizing m" "k_reported (kframe m) = k_reported m" "devices (kframe m) = devices m"
  "batteryInfo (kframe m) = batteryInfo m" "lowBattery (kframe m) = lowBattery m"
  "k_endpoints (kframe m) = k_endpoints m" "k_ReconcileFn (kframe m) = k_ReconcileFn m"
  by (simp_all add: kframe_def)

lemma kframe_eqD:
  assumes "kframe m' = kframe m"
  shows "k_client m' = k_client m" "k_config m' = k_config m" "k_rebooting m' = k_rebooting m"
    "stabilizing m' = stabilizing m" "k_reported m' = k_reported m" "devices m' = devices m"
    "batteryInfo m' = batteryInfo m" "lowBattery m' = lowBattery m" "k_endpoints m' = k_endpoints m"
    "k_ReconcileFn m' = k_ReconcileFn m"
  by (metis assms kframe_sel)+

fun act :: "kown api_call \<Rightarrow> bool" where
  "act (Api r) = (rq_Method r \<noteq> GET)"
| "act (Own c) = (case c of Go_stabilize _ _ \<Rightarrow> True | Go_reboot _ \<Rightarrow> True | Go_retry _ \<Rightarrow> True | _ \<Rightarrow> False)"

definition acts :: "k8s_manager \<Rightarrow> kown api_call list" where
  "acts m = filter act (others (k_trace m))"

lemma kframe_basic [frame]:
  "kframe (snd (khost f m)) = kframe m" "kframe (kemit c m) = kframe m" "kframe (knotify m) = kframe m"
  "kframe (m\<lparr>k_trace := tr\<rparr>) = kframe m" "kframe (m\<lparr>k_store := st\<rparr>) = kframe m"
  "kframe (snd (kwith_db w h d m)) = kframe m" "kframe (krun_sql w g m) = kframe m"
  by (simp_all add: kframe_def khost_def kemit_def knotify_def kwith_db_def krun_sql_def case_prod_beta split: option.splits)

lemma acts_basic [frame]:
  "acts (kemit c m) = (if act (Own c) then Own c # acts m else acts m)" "acts (knotify m) = acts m"
  "acts (m\<lparr>k_store := st\<rparr>) = acts m" "acts (snd (kwith_db w f d m)) = acts m" "acts (krun_sql w g m) = acts m"
  "acts (m\<lparr>k_trace := sleep t (k_trace m)\<rparr>) = acts m"
  by (simp_all add: acts_def kemit_def knotify_def kwith_db_def krun_sql_def case_prod_beta split: option.splits)

lemma acts_fields [frame]:
  "acts (m\<lparr>k_rebooting := a\<rparr>) = acts m" "acts (m\<lparr>stabilizing := a\<rparr>) = acts m" "acts (m\<lparr>k_reported := a\<rparr>) = acts m"
  "acts (m\<lparr>lowBattery := l\<rparr>) = acts m" "acts (m\<lparr>batteryInfo := b\<rparr>) = acts m" "acts (m\<lparr>devices := l\<rparr>) = acts m"
  "acts (m\<lparr>k_endpoints := e\<rparr>) = acts m"
  by (simp_all add: acts_def)

lemma kframe_fields [frame]:
  "kframe (m\<lparr>k_rebooting := a\<rparr>) = (kframe m)\<lparr>k_rebooting := a\<rparr>" "kframe (m\<lparr>stabilizing := a\<rparr>) = (kframe m)\<lparr>stabilizing := a\<rparr>"
  "kframe (m\<lparr>k_reported := a\<rparr>) = (kframe m)\<lparr>k_reported := a\<rparr>" "kframe (m\<lparr>lowBattery := l\<rparr>) = (kframe m)\<lparr>lowBattery := l\<rparr>"
  "kframe (m\<lparr>batteryInfo := b\<rparr>) = (kframe m)\<lparr>batteryInfo := b\<rparr>" "kframe (m\<lparr>devices := l\<rparr>) = (kframe m)\<lparr>devices := l\<rparr>"
  "kframe (m\<lparr>k_endpoints := e\<rparr>) = (kframe m)\<lparr>k_endpoints := e\<rparr>"
  by (simp_all add: kframe_def)

text \<open>The requests to the API server.\<close>

lemma acts_doRaw: "acts (snd (khost (doRaw w r) m)) = (if rq_Method r = GET then acts m else Api r # acts m)"
  by (simp add: acts_def khost_def doRaw_def)

lemma snd_khost: "snd (khost f m) = m\<lparr>k_trace := snd (f (k_trace m))\<rparr>"
  by (simp add: khost_def case_prod_beta)

lemma client_calls:
  "snd (ListPods w c sel tr) = Other (Api (api_request c GET
     (podPath c '''' @ (if sel \<noteq> [] then ''?labelSelector='' @ query_escape sel else [])) None)) # tr"
  "snd (DeletePod w c n tr) = Other (Api (api_request c DELETE (podPath c n) None)) # tr"
  "snd (CreatePod w c p tr) = Other (Api (api_request c POST (podPath c '''')
     (Some (p\<lparr>pod_APIVersion := ''v1'', pod_Kind := ''Pod'',
        pod_Metadata := (pod_Metadata p)\<lparr>om_Namespace := cl_Namespace c\<rparr>\<rparr>)))) # tr"
  "snd (PodLogs w c n ct k tr) = Other (Api (api_request c GET (podPath c n @ ''/log?container='' @ query_escape ct @
     (if k > 0 then ''&tailLines='' @ itoa k else [])) None)) # tr"
  by (simp_all add: ListPods_def DeletePod_def CreatePod_def PodLogs_def get_as_def getRaw_def delete_path_def
      post_pod_def doRaw_def case_prod_beta)

lemma list_pods_frame [frame]:
  "acts (snd (list_pods w sel m)) = acts m" "kframe (snd (list_pods w sel m)) = kframe m"
  by (simp_all add: list_pods_def snd_khost acts_def client_calls api_request_def kframe_def)

definition deletion :: "client \<Rightarrow> string \<Rightarrow> kown api_call" where
  "deletion c n = Api (api_request c DELETE (podPath c n) None)"

lemma delete_pod_frame [frame]:
  "acts (delete_pod w n m) = deletion (k_client m) n # acts m" "kframe (delete_pod w n m) = kframe m"
  by (simp_all add: delete_pod_def snd_khost acts_def client_calls api_request_def kframe_def deletion_def)

lemma pod_log_frame [frame]:
  "acts (snd (pod_log w n ct k m)) = acts m" "kframe (snd (pod_log w n ct k m)) = kframe m"
  by (simp_all add: pod_log_def case_prod_beta snd_khost acts_def client_calls api_request_def kframe_def)

text \<open>The pod that a manager creates for a device, as it goes to the API server.\<close>

definition pod_parts :: "k8s_manager \<Rightarrow> device \<Rightarrow> pod_container list \<times> volume list \<times> int option" where
  "pod_parts m dev =
     (if Platform dev = ''ios'' then (ios_containers (k_config m) dev, [empty_dir ''shared'', empty_dir ''usbmuxd-run''], Some 5)
      else (android_containers (k_config m) dev (adbEndpoint_k8s m (Serial dev)), [empty_dir ''shared''], None))"

definition new_pod :: "k8s_manager \<Rightarrow> device \<Rightarrow> pod" where
  "new_pod m dev =
     (case pod_parts m dev of (cs, vs, g) \<Rightarrow>
        (device_pod (cl_Namespace (k_client m)) dev cs vs g)\<lparr>pod_APIVersion := ''v1'', pod_Kind := ''Pod''\<rparr>)"

definition creation :: "k8s_manager \<Rightarrow> device \<Rightarrow> kown api_call" where
  "creation m dev = Api (api_request (k_client m) POST (podPath (k_client m) '''') (Some (new_pod m dev)))"

lemma acts_CreatePod:
  "acts (snd (khost (CreatePod w c p) m)) = Api (api_request c POST (podPath c '''')
     (Some (p\<lparr>pod_APIVersion := ''v1'', pod_Kind := ''Pod'',
        pod_Metadata := (pod_Metadata p)\<lparr>om_Namespace := cl_Namespace c\<rparr>\<rparr>))) # acts m"
  by (simp add: snd_khost acts_def client_calls) (simp add: api_request_def)

lemma createPod_eq:
  "createPod w dev m = khost (CreatePod w (k_client m)
     (case pod_parts m dev of (cs, vs, g) \<Rightarrow> device_pod (cl_Namespace (k_client m)) dev cs vs g)) m"
  by (simp only: createPod_def createIOSPod_def createAndroidPod_def pod_parts_def split: if_split) simp

lemma device_pod_namespace:
  "(device_pod ns dev cs vs g)\<lparr>pod_APIVersion := a, pod_Kind := k,
     pod_Metadata := (pod_Metadata (device_pod ns dev cs vs g))\<lparr>om_Namespace := ns\<rparr>\<rparr> =
   (device_pod ns dev cs vs g)\<lparr>pod_APIVersion := a, pod_Kind := k\<rparr>"
  by (simp add: device_pod_def)

lemma createPod_frame [frame]:
  "acts (snd (createPod w dev m)) = creation m dev # acts m" "kframe (snd (createPod w dev m)) = kframe m"
  by (simp_all only: createPod_eq acts_CreatePod creation_def new_pod_def case_prod_beta device_pod_namespace kframe_basic)

lemma creation_eqI:
  assumes "k_client m' = k_client m" "k_config m' = k_config m" "k_endpoints m' = k_endpoints m"
  shows "creation m' dev = creation m dev"
  unfolding creation_def new_pod_def pod_parts_def adbEndpoint_k8s_def assms by (rule refl)

lemma creation_cong:
  assumes "kframe m' = kframe m"
  shows "creation m' dev = creation m dev"
  by (rule creation_eqI) (rule kframe_eqD [OF assms])+

section \<open>The handlers\<close>

lemma hub_frame [frame]:
  "acts (snd (takeScreenshot_k8s w s m)) = acts m" "kframe (snd (takeScreenshot_k8s w s m)) = kframe m"
  "acts (snd (rebootViaHub w s p m)) = acts m" "kframe (snd (rebootViaHub w s p m)) = kframe m"
  by (simp_all add: takeScreenshot_k8s_def rebootViaHub_def hub_call_def case_prod_beta frame)

lemma now_frame [frame]: "acts (snd (khost (now w) m)) = acts m"
  by (simp add: snd_khost acts_def now_def)

lemma process_frame [frame]:
  "acts (snd (processPodResult w s md pl p m)) = acts m" "kframe (snd (processPodResult w s md pl p m)) = kframe m"
  by (simp_all add: processPodResult_def Let_def case_prod_beta frame)

lemma files_frame [frame]:
  "acts (snd (kfile w (K_write f x) m)) = acts m" "acts (snd (kfile w (K_mkdir f) m)) = acts m"
  "acts (snd (kfile w (K_append f x) m)) = acts m" "kframe (snd (kfile w c m)) = kframe m"
  "acts (snd (kwrite w f x m)) = acts m" "kframe (snd (kwrite w f x m)) = kframe m"
  by (simp_all add: kfile_def kwrite_def case_prod_beta frame)

lemma save_frame [frame]:
  "acts (saveLogs_k8s w i s m) = acts m" "kframe (saveLogs_k8s w i s m) = kframe m"
  "acts (writeFileReport_k8s w s m) = acts m" "kframe (writeFileReport_k8s w s m) = kframe m"
  "acts (updateBootResult_k8s w i d b m) = acts m" "kframe (updateBootResult_k8s w i d b m) = kframe m"
  by (simp_all add: saveLogs_k8s_def writeFileReport_k8s_def updateBootResult_k8s_def Let_def case_prod_beta frame
      split: option.splits)

lemma saveResult_frame [frame]:
  "acts (snd (saveTestResult_k8s w s m)) = acts m" "kframe (snd (saveTestResult_k8s w s m)) = kframe m"
  by (simp_all add: saveTestResult_k8s_def Let_def case_prod_beta frame split: option.splits sum.splits)

lemma parse_keeps:
  "sm_Serial (parse_test_log x r) = sm_Serial r" "sm_StartedAt (parse_test_log x r) = sm_StartedAt r"
  "sm_Serial (parse_appium_log r) = sm_Serial r" "sm_StartedAt (parse_appium_log r) = sm_StartedAt r"
proof -
  have l: "sm_Serial (apply_line r x) = sm_Serial r" "sm_StartedAt (apply_line r x) = sm_StartedAt r"
    for r :: "'a run_summary_scheme" and x
    by (simp_all add: apply_line_def Let_def case_prod_beta split: option.splits)
  have "sm_Serial (foldl apply_line r xs) = sm_Serial r \<and> sm_StartedAt (foldl apply_line r xs) = sm_StartedAt r" for xs
    by (induction xs arbitrary: r) (simp_all add: l)
  then show "sm_Serial (parse_test_log x r) = sm_Serial r" "sm_StartedAt (parse_test_log x r) = sm_StartedAt r"
    by (simp_all add: parse_test_log_def)
qed (simp_all add: parse_appium_log_def split: option.splits)

lemma process_keeps:
  "sm_Serial (fst (processPodResult w s md pl p m)) = s" "sm_StartedAt (fst (processPodResult w s md pl p m)) = zero_time"
  by (simp_all add: processPodResult_def Let_def case_prod_beta parse_keeps fresh_summary_k8s_def split: sum.splits)

lemma save_summary:
  "sm_Serial (fst (saveTestResult_k8s w s m)) = sm_Serial s" "ks_Platform (fst (saveTestResult_k8s w s m)) = ks_Platform s"
  by (simp_all add: saveTestResult_k8s_def Let_def case_prod_beta split: option.splits sum.splits)

text \<open>The gate: a known level at or below the minimum puts the device off.\<close>

definition low_battery :: "k8s_manager \<Rightarrow> string \<Rightarrow> bool" where
  "low_battery m serial \<longleftrightarrow> 0 \<le> batteryPercent m serial \<and> batteryPercent m serial \<le> batteryMinPct"

lemma maybeCreatePod_frame [frame]:
  "acts (maybeCreatePod w dev m) = (if low_battery m (Serial dev) then acts m else creation m dev # acts m)"
  "kframe (maybeCreatePod w dev m) = (if low_battery m (Serial dev)
     then (kframe m)\<lparr>lowBattery := (lowBattery m)(Serial dev \<mapsto> dev)\<rparr> else kframe m)"
  by (simp_all add: maybeCreatePod_def low_battery_def Let_def frame)

lemma battery_cong: "kframe m' = kframe m \<Longrightarrow> batteryPercent m' s = batteryPercent m s"
  using kframe_eqD(7) [of m' m] by (simp add: batteryPercent_def)

lemma low_cong: "kframe m' = kframe m \<Longrightarrow> low_battery m' s = low_battery m s"
  using battery_cong [of m' m s] by (simp add: low_battery_def)

lemma unless_pod_cases:
  obtains (kept) "kframe (unless_pod w s f m) = kframe m" "acts (unless_pod w s f m) = acts m"
  | (run) m1 where "unless_pod w s f m = f m1" "kframe m1 = kframe m" "acts m1 = acts m"
proof -
  obtain r m1 where l: "list_pods w (device_selector s) m = (r, m1)" by (cases "list_pods w (device_selector s) m")
  have f: "kframe m1 = kframe m" "acts m1 = acts m"
    using list_pods_frame [of w "device_selector s" m] by (simp_all add: l)
  have "unless_pod w s f m = f m1 \<or> unless_pod w s f m = m1"
    by (simp add: unless_pod_def l split: sum.split list.split)
  with f show thesis using kept run by metis
qed

lemma scheduleStabilization_cases:
  obtains (no) "s \<notin> k_rebooting m" "scheduleStabilization s dev m = (False, m)"
  | (already) "s \<in> k_rebooting m" "s \<in> stabilizing m" "scheduleStabilization s dev m = (True, m)"
  | (timer) "s \<in> k_rebooting m" "s \<notin> stabilizing m"
      "scheduleStabilization s dev m = (True, kemit (Go_stabilize s dev) (m\<lparr>stabilizing := insert s (stabilizing m)\<rparr>))"
  by (auto simp: scheduleStabilization_def split: if_splits)

lemma rebootAndReport_cases:
  obtains (failed) "acts (rebootAndReport_k8s w s m) = Own (Go_retry (sm_Serial s)) # acts m"
      "kframe (rebootAndReport_k8s w s m) = (kframe m)\<lparr>k_rebooting := k_rebooting m - {sm_Serial s}\<rparr>"
  | (started) "acts (rebootAndReport_k8s w s m) = acts m" "kframe (rebootAndReport_k8s w s m) = kframe m"
proof -
  obtain r m1 where r: "rebootViaHub w (sm_Serial s) (ks_Platform s) m = (r, m1)"
    by (cases "rebootViaHub w (sm_Serial s) (ks_Platform s) m")
  have f: "kframe m1 = kframe m" "acts m1 = acts m"
    using hub_frame(3,4) [of w "sm_Serial s" "ks_Platform s" m] by (simp_all add: r)
  show thesis
  proof (cases r)
    case (Inl e)
    then show thesis using failed f kframe_eqD(3) [OF f(1)] by (simp add: rebootAndReport_k8s_def r frame)
  next
    case (Inr u)
    then show thesis using started f by (simp add: rebootAndReport_k8s_def r frame)
  qed
qed

lemma collect_pod_cases:
  obtains (stale) "pod_key p \<in> k_reported m"
      "collect_pod w s dev p m = (Pod_stale (pod_key p), delete_pod w (om_Name (pod_Metadata p)) m)"
  | (fresh) r m' where "pod_key p \<notin> k_reported m" "collect_pod w s dev p m = (Pod_reported (pod_key p) r, m')"
      "acts m' = Own (Go_reboot r) # deletion (k_client m) (om_Name (pod_Metadata p)) # acts m"
      "kframe m' = (kframe m)\<lparr>k_reported := insert (pod_key p) (k_reported m), k_rebooting := insert s (k_rebooting m)\<rparr>"
      "sm_Serial r = s"
proof (cases "pod_key p \<in> k_reported m")
  case True
  then show thesis using stale by (simp add: collect_pod_def Let_def)
next
  case False
  define m1 where "m1 = m\<lparr>k_reported := insert (pod_key p) (k_reported m)\<rparr>"
  obtain r m2 where r: "processPodResult w s (Model dev) (Platform dev) p m1 = (r, m2)"
    by (cases "processPodResult w s (Model dev) (Platform dev) p m1")
  define m3 where "m3 = delete_pod w (om_Name (pod_Metadata p)) m2"
  obtain r' m4 where r': "saveTestResult_k8s w r m3 = (r', m4)" by (cases "saveTestResult_k8s w r m3")
  have 2: "kframe m2 = kframe m1" "acts m2 = acts m1" using process_frame [of w s "Model dev" "Platform dev" p m1] by (simp_all add: r)
  have 4: "kframe m4 = kframe m3" "acts m4 = acts m3" using saveResult_frame [of w r m3] by (simp_all add: r')
  have k: "kframe m4 = (kframe m)\<lparr>k_reported := insert (pod_key p) (k_reported m)\<rparr>"
    unfolding 4 m3_def delete_pod_frame 2 m1_def by (simp add: frame)
  have "k_client m2 = k_client m" using kframe_eqD(1) [OF 2(1)] by (simp add: m1_def)
  then have a: "acts m4 = deletion (k_client m) (om_Name (pod_Metadata p)) # acts m"
    unfolding 4 m3_def delete_pod_frame 2 m1_def by (simp add: frame)
  have rb: "k_rebooting m4 = k_rebooting m" using arg_cong [OF k, of k_rebooting] by simp
  have "sm_Serial r = s" using process_keeps(1) [of w s "Model dev" "Platform dev" p m1] by (simp add: r)
  then have s: "sm_Serial r' = s" using save_summary(1) [of w r m3] by (simp add: r')
  show thesis
    by (rule fresh [OF False, of r' "kemit (Go_reboot r') (m4\<lparr>k_rebooting := insert s (k_rebooting m4)\<rparr>)", OF _ _ _ s])
      (use False in \<open>simp_all add: collect_pod_def Let_def m1_def [symmetric] r m3_def [symmetric] r' frame k a rb\<close>)
qed

section \<open>Reports and timers\<close>

text \<open>Keys handed out: new ones, each once.\<close>

definition hands_out :: "'k set \<Rightarrow> 'k list \<Rightarrow> 'k set \<Rightarrow> bool" where
  "hands_out S ks S' \<longleftrightarrow> distinct ks \<and> set ks \<inter> S = {} \<and> S' = S \<union> set ks"

lemma hands_out_Nil [simp]: "hands_out S [] S' \<longleftrightarrow> S' = S"
  by (auto simp: hands_out_def)

lemma hands_out_one [simp]: "hands_out S [k] S' \<longleftrightarrow> k \<notin> S \<and> S' = insert k S"
  by (auto simp: hands_out_def)

lemma hands_out_append: "hands_out S ks S1 \<Longrightarrow> hands_out S1 ks' S2 \<Longrightarrow> hands_out S (ks @ ks') S2"
  by (auto simp: hands_out_def)

lemma hands_out_rev: "hands_out S ks S' \<Longrightarrow> hands_out S (rev ks) S'"
  by (auto simp: hands_out_def)

text \<open>The serials of the timers among some calls, the latest first.\<close>

fun timer_of :: "kown api_call \<Rightarrow> (string \<times> device) list" where
  "timer_of (Own (Go_stabilize s d)) = [(s, d)]"
| "timer_of _ = []"

definition timers :: "kown api_call list \<Rightarrow> (string \<times> device) list" where
  "timers cs = concat (map timer_of cs)"

lemma timers_simps [simp]: "timers [] = []" "timers (c # cs) = timer_of c @ timers cs" "timers (cs @ cs') = timers cs @ timers cs'"
  by (simp_all add: timers_def)

lemma timer_requests [simp]: "timer_of (creation m dev) = []" "timer_of (deletion c n) = []"
  by (simp_all add: creation_def deletion_def)

text \<open>A step of the manager: the keys it reports and the timers it starts are new ones, each once, and \<open>P\<close> holds of the
  serial and the device of each timer.\<close>

definition good_step :: "(string \<Rightarrow> device \<Rightarrow> bool) \<Rightarrow> k8s_manager \<Rightarrow> string list \<Rightarrow> k8s_manager \<Rightarrow> bool" where
  "good_step P m ks m' \<longleftrightarrow> hands_out (k_reported m) ks (k_reported m') \<and>
     (\<exists>new. acts m' = new @ acts m \<and> hands_out (stabilizing m) (map fst (timers new)) (stabilizing m') \<and>
        (\<forall>x \<in> set (timers new). P (fst x) (snd x)))"

lemma good_step_same:
  assumes "k_reported m' = k_reported m" "stabilizing m' = stabilizing m" "acts m' = cs @ acts m" "timers cs = []"
  shows "good_step P m [] m'"
  using assms by (auto simp: good_step_def intro!: exI [of _ cs])

lemma good_step_refl: "good_step P m [] m"
  by (rule good_step_same [where cs = "[]"]) simp_all

lemma good_step_trans:
  assumes "good_step P m ks m1" "good_step P m1 ks' m2"
  shows "good_step P m (ks @ ks') m2"
proof -
  obtain new new' where n: "acts m1 = new @ acts m" "hands_out (stabilizing m) (map fst (timers new)) (stabilizing m1)"
    "acts m2 = new' @ acts m1" "hands_out (stabilizing m1) (map fst (timers new')) (stabilizing m2)"
    "\<forall>x \<in> set (timers new). P (fst x) (snd x)" "\<forall>x \<in> set (timers new'). P (fst x) (snd x)"
    using assms by (auto simp: good_step_def)
  have "hands_out (stabilizing m) (map fst (timers (new' @ new))) (stabilizing m2)"
    using n(2,4) by (auto simp: hands_out_def)
  then show ?thesis
    using assms n hands_out_append by (auto simp: good_step_def intro!: exI [of _ "new' @ new"])
qed

lemma good_step_frame: "kframe m' = kframe m \<Longrightarrow> acts m' = cs @ acts m \<Longrightarrow> timers cs = [] \<Longrightarrow> good_step P m [] m'"
  using kframe_eqD(4,5) [of m' m] by (intro good_step_same) auto

lemma good_create: "good_step P m [] (snd (createPod w dev m))"
  by (rule good_step_frame [where cs = "[creation m dev]"]) (simp_all add: frame)

lemma good_delete: "good_step P m [] (delete_pod w n m)"
  by (rule good_step_frame [where cs = "[deletion (k_client m) n]"]) (simp_all add: frame)

lemma good_list: "good_step P m [] (snd (list_pods w sel m))"
  by (rule good_step_frame [where cs = "[]"]) (simp_all add: frame)

lemma good_maybe: "good_step P m [] (maybeCreatePod w dev m)"
proof (cases "low_battery m (Serial dev)")
  case True
  then have "maybeCreatePod w dev m = m\<lparr>lowBattery := (lowBattery m)(Serial dev \<mapsto> dev)\<rparr>"
    by (simp add: maybeCreatePod_def low_battery_def Let_def)
  then show ?thesis by (simp add: frame good_step_same [where cs = "[]"])
next
  case False
  then show ?thesis by (intro good_step_frame [where cs = "[creation m dev]"]) (simp_all add: frame)
qed

lemma good_unless: "(\<And>m. good_step P m [] (f m)) \<Longrightarrow> good_step P m [] (unless_pod w s f m)"
proof (cases rule: unless_pod_cases [of w s f m])
  case kept
  then show ?thesis by (intro good_step_frame [where cs = "[]"]) simp_all
next
  case (run m1)
  assume "\<And>m. good_step P m [] (f m)"
  moreover have "good_step P m [] m1" using run by (intro good_step_frame [where cs = "[]"]) simp_all
  ultimately show ?thesis unfolding run(1) using good_step_trans [of P m "[]" m1 "[]"] by simp
qed

lemma good_schedule:
  assumes "P s dev"
  shows "good_step P m [] (snd (scheduleStabilization s dev m))"
proof (cases rule: scheduleStabilization_cases [of s m dev])
  case timer
  have "stabilizing (kemit c m) = stabilizing m" "k_reported (kemit c m) = k_reported m" for c m
    by (rule kframe_eqD, rule kframe_basic)+
  with timer assms show ?thesis by (auto simp: good_step_def frame intro!: exI [of _ "[Own (Go_stabilize s dev)]"])
qed (simp_all add: good_step_refl)

fun pod_id :: "pod_outcome \<Rightarrow> string list" where
  "pod_id (Pod_reported k s) = [k]"
| "pod_id _ = []"

lemma good_collect: "good_step P m (pod_id (fst (collect_pod w s dev p m))) (snd (collect_pod w s dev p m))"
proof (cases rule: collect_pod_cases [of p m w s dev])
  case stale
  then show ?thesis by (simp add: good_delete)
next
  case (fresh r m')
  have "k_reported m' = insert (pod_key p) (k_reported m)" "stabilizing m' = stabilizing m"
    using arg_cong [OF fresh(4), of k_reported] arg_cong [OF fresh(4), of stabilizing] by simp_all
  with fresh show ?thesis
    by (simp add: good_step_def)
qed

text \<open>A step that one without reports and timers precedes or follows.\<close>

lemma good_step_after: "good_step P m [] m1 \<Longrightarrow> good_step P m1 ks m2 \<Longrightarrow> good_step P m ks m2"
  using good_step_trans [of P m "[]" m1 ks m2] by simp

lemma good_step_before: "good_step P m ks m1 \<Longrightarrow> good_step P m1 [] m2 \<Longrightarrow> good_step P m ks m2"
  using good_step_trans [of P m ks m1 "[]" m2] by simp

lemma good_step_fields [simp]:
  "good_step P m ks (m'\<lparr>devices := l\<rparr>) = good_step P m ks m'" "good_step P m ks (m'\<lparr>k_endpoints := e\<rparr>) = good_step P m ks m'"
  "good_step P m ks (m'\<lparr>lowBattery := l\<rparr>) = good_step P m ks m'" "good_step P m ks (m'\<lparr>batteryInfo := b\<rparr>) = good_step P m ks m'"
  "good_step P m ks (m'\<lparr>k_rebooting := r\<rparr>) = good_step P m ks m'"
  by (simp_all add: good_step_def frame)

lemma good_foldl: "(\<And>m x. good_step P m [] (f m x)) \<Longrightarrow> good_step P m [] (foldl f m xs)"
proof (induction xs arbitrary: m)
  case (Cons x xs)
  then show ?case using good_step_after [OF Cons.prems(1) Cons.IH [OF Cons.prems(1)]] by simp
qed (simp add: good_step_refl)

lemma good_reconcile_pod: "P (fst x) (snd x) \<Longrightarrow> good_step P m (pod_id (fst (reconcile_pod w pods x m))) (snd (reconcile_pod w pods x m))"
proof -
  assume P: "P (fst x) (snd x)"
  note s = good_schedule [of P "fst x" "snd x", OF P]
  have "good_step P m [] (snd (createPod w (snd x) (snd (scheduleStabilization (fst x) (snd x) m))))"
    by (rule good_step_after [OF s good_create])
  then show ?thesis
    using s good_collect
    by (simp add: reconcile_pod_def case_prod_beta good_step_refl split: option.split)
qed

definition pod_ids :: "pod_outcome list \<Rightarrow> string list" where
  "pod_ids outs = concat (map pod_id outs)"

lemma good_reconcile_pods:
  "\<forall>x \<in> set xs. P (fst x) (snd x) \<Longrightarrow> good_step P m (pod_ids (map snd (fst (reconcile_pods w pods xs m)))) (snd (reconcile_pods w pods xs m))"
proof (induction xs arbitrary: m)
  case (Cons x xs)
  then show ?case
    using good_step_trans [OF good_reconcile_pod [of P x m w pods] Cons.IH [of "snd (reconcile_pod w pods x m)"]]
    by (simp add: case_prod_beta pod_ids_def)
qed (simp add: pod_ids_def good_step_refl)

text \<open>What the devices of a cycle must keep for its timers; for any serial and device it is nothing.\<close>

definition cycle_timers :: "(string \<Rightarrow> device \<Rightarrow> bool) \<Rightarrow> kworld \<Rightarrow> device list \<Rightarrow> bool" where
  "cycle_timers P w ds \<longleftrightarrow> (\<forall>tr. \<forall>x \<in> set (range_devices w tr (ready_devices ds)). P (fst x) (snd x))"

lemma good_reconcile:
  assumes "cycle_timers P w ds"
  shows "good_step P m (pod_ids (map snd (snd (fst (Reconcile_k8s w ds m))))) (snd (Reconcile_k8s w ds m))"
proof -
  define m1 where "m1 = foldl set_endpoint m ds"
  have 1: "good_step P m [] m1" unfolding m1_def by (rule good_foldl) (simp add: set_endpoint_def good_step_refl)
  obtain r m2 where r: "list_pods w managed_selector m1 = (r, m2)" by (cases "list_pods w managed_selector m1")
  have 2: "good_step P m [] m2" using good_step_after [OF 1 good_list [of P m1 w managed_selector]] by (simp add: r)
  show ?thesis
  proof (cases r)
    case (Inl e)
    then show ?thesis using 2 by (simp add: Reconcile_k8s_def m1_def [symmetric] r pod_ids_def)
  next
    case (Inr ps)
    define m3 where "m3 = foldl (drop_pod w (ready_devices ds)) m2 (range_pods w (k_trace m2) (pods_by_serial ps))"
    have "good_step P m2 [] m3"
      unfolding m3_def by (rule good_foldl) (simp add: drop_pod_def good_step_refl good_delete)
    from good_step_after [OF good_step_after [OF 2 this] good_reconcile_pods] assms show ?thesis
      unfolding cycle_timers_def
      by (simp add: Reconcile_k8s_def m1_def [symmetric] r Inr Let_def m3_def [symmetric] case_prod_beta)
  qed
qed

lemma good_signal: "good_step P m [] (kemit K_signal m)"
  by (rule good_step_frame [where cs = "[]"]) (simp_all add: frame)

lemma good_check_pod: "good_step P m (pod_id (fst (check_pod w p m))) (snd (check_pod w p m))"
proof -
  have "good_step P m (pod_id (fst c)) (case fst c of Pod_reported _ _ \<Rightarrow> if k_ReconcileFn (snd c) then kemit K_signal (snd c) else snd c | _ \<Rightarrow> snd c)"
    if "c = collect_pod w s dev p m" for c s dev
    using good_collect [of P m w s dev p] good_step_before [OF good_collect [of P m w s dev p] good_signal]
    unfolding that by (cases "fst (collect_pod w s dev p m)") auto
  from this [OF refl] show ?thesis by (simp add: check_pod_def Let_def case_prod_beta good_step_refl)
qed

lemma good_check_pods: "good_step P m (pod_ids (fst (check_pods w ps m))) (snd (check_pods w ps m))"
proof (induction ps arbitrary: m)
  case (Cons p ps)
  then show ?case
    using good_step_trans [OF good_check_pod [of P m w p] Cons [of "snd (check_pod w p m)"]]
    by (simp add: case_prod_beta pod_ids_def)
qed (simp add: pod_ids_def good_step_refl)

lemma good_check: "good_step P m (pod_ids (fst (CheckPods_k8s w m))) (snd (CheckPods_k8s w m))"
  using good_list [of P m w managed_selector] good_step_after [OF good_list [of P m w managed_selector] good_check_pods]
  by (simp add: CheckPods_k8s_def case_prod_beta pod_ids_def split: sum.split)

lemma good_ready:
  assumes "\<And>d. P (Serial d) d"
  shows "good_step P m [] (OnDeviceReady w hub m)"
proof -
  have n: "good_step P m [] (note_battery s i m)" for s i
    by (simp add: note_battery_def good_step_refl case_prod_beta split: option.split)
  have "good_step P m [] (start_or_wait w dev m)" for dev m
    using good_schedule [of P, OF assms] good_step_after [OF good_schedule [of P, OF assms] good_maybe]
    by (simp add: start_or_wait_def case_prod_beta)
  then have u: "good_step P m [] (unless_pod w s (start_or_wait w dev) m)" for s dev m by (rule good_unless)
  show ?thesis
    unfolding OnDeviceReady_def Let_def
    by (simp add: n, rule impI, rule good_step_after [OF _ u], simp add: n)
qed

lemma good_events:
  "good_step P m [] (OnDeviceOffline s p m)" "good_step P m [] (OnDeviceDeleted w s p m)"
  "good_step P m [] (OnBatteryUpdated w s p l t m)"
proof -
  show "good_step P m [] (OnDeviceOffline s p m)" by (simp add: OnDeviceOffline_def good_step_refl)
  have "good_step P m [] (foldl (\<lambda>m p. delete_pod w (om_Name (pod_Metadata p)) m) m ps)" for m and ps :: "pod list"
    by (rule good_foldl) (rule good_delete)
  note del = this
  define m1 where "m1 = m\<lparr>k_endpoints := (k_endpoints m)(s := None), devices := (devices m)(s := None)\<rparr>"
  have "good_step P m [] m1" by (simp add: m1_def good_step_refl)
  from good_step_after [OF this good_list] have l: "good_step P m [] (snd (list_pods w (device_selector s) m1))" .
  show "good_step P m [] (OnDeviceDeleted w s p m)"
    unfolding OnDeviceDeleted_def Let_def m1_def [symmetric] case_prod_beta
    using l good_step_after [OF l del] by (simp split: sum.split)
  have u: "good_step P m [] (unless_pod w s (\<lambda>m. snd (createPod w dev m)) m)" for s dev m
    by (rule good_unless) (rule good_create)
  show "good_step P m [] (OnBatteryUpdated w s p l t m)"
    unfolding OnBatteryUpdated_def Let_def
    by (auto split: option.split simp: good_step_refl intro: good_step_after [OF _ u])
qed

section \<open>The system\<close>

text \<open>The events that the hub server and the timer of \<open>CheckPods\<close> bring, each in a world of its own.\<close>

datatype kevent =
    K_reconcile kworld "device list"
  | K_check kworld
  | K_ready kworld hub_device
  | K_offline string string
  | K_deleted kworld string string
  | K_battery kworld string string int int
  | K_running kworld

fun run_event :: "kevent \<Rightarrow> k8s_manager \<Rightarrow> string list \<times> k8s_manager" where
  "run_event (K_reconcile w ds) m = (let ((r, outs), m') = Reconcile_k8s w ds m in (pod_ids (map snd outs), m'))"
| "run_event (K_check w) m = (let (outs, m') = CheckPods_k8s w m in (pod_ids outs, m'))"
| "run_event (K_ready w hub) m = ([], OnDeviceReady w hub m)"
| "run_event (K_offline s p) m = ([], OnDeviceOffline s p m)"
| "run_event (K_deleted w s p) m = ([], OnDeviceDeleted w s p m)"
| "run_event (K_battery w s p l t) m = ([], OnBatteryUpdated w s p l t m)"
| "run_event (K_running w) m = ([], snd (RunningDevices_k8s w m))"

fun event_timers :: "(string \<Rightarrow> device \<Rightarrow> bool) \<Rightarrow> kevent \<Rightarrow> bool" where
  "event_timers P (K_reconcile w ds) = cycle_timers P w ds"
| "event_timers P e = True"

lemma good_event: "event_timers P e \<Longrightarrow> (\<And>d. P (Serial d) d) \<Longrightarrow> good_step P m (fst (run_event e m)) (snd (run_event e m))"
proof (cases e)
  case (K_running w)
  then show ?thesis using good_list [of P m w managed_selector] by (simp add: RunningDevices_k8s_def case_prod_beta)
qed (use good_reconcile good_check good_ready good_events in \<open>simp_all add: case_prod_beta\<close>)

lemma good_any: "good_step (\<lambda>_ _. True) m (fst (run_event e m)) (snd (run_event e m))"
  by (rule good_event) (cases e, simp_all add: cycle_timers_def)

text \<open>The goroutines that a manager has started and that have not ended: what a step adds to them is read
  off its calls.\<close>

datatype task = Timer string device | Rebooting k8s_summary | Retry string

fun task_of :: "kown api_call \<Rightarrow> task list" where
  "task_of (Own (Go_stabilize s d)) = [Timer s d]"
| "task_of (Own (Go_reboot r)) = [Rebooting r]"
| "task_of (Own (Go_retry s)) = [Retry s]"
| "task_of _ = []"

definition started :: "k8s_manager \<Rightarrow> k8s_manager \<Rightarrow> task list" where
  "started m m' = concat (map task_of (take (length (acts m') - length (acts m)) (acts m')))"

fun run_task :: "kworld \<Rightarrow> task \<Rightarrow> k8s_manager \<Rightarrow> k8s_manager" where
  "run_task w (Timer s d) m = end_stabilization w s d m"
| "run_task w (Rebooting r) m = rebootAndReport_k8s w r m"
| "run_task w (Retry s) m = retry_pod w s m"

inductive hub_system :: "k8s_manager \<Rightarrow> task list \<Rightarrow> bool" where
  new: "hub_system (NewManager_k8s c conf st) []"
| event: "hub_system m T \<Longrightarrow> run_event e m = (ks, m') \<Longrightarrow> hub_system m' (started m m' @ T)"
| task: "hub_system m (T1 @ t # T2) \<Longrightarrow> run_task w t m = m' \<Longrightarrow> hub_system m' (started m m' @ T1 @ T2)"

fun timer_serial :: "task \<Rightarrow> string list" where
  "timer_serial (Timer s d) = [s]"
| "timer_serial _ = []"

definition waiting :: "task list \<Rightarrow> string list" where
  "waiting T = concat (map timer_serial T)"

lemma waiting_simps [simp]: "waiting [] = []" "waiting (t # T) = timer_serial t @ waiting T" "waiting (T @ T') = waiting T @ waiting T'"
  by (simp_all add: waiting_def)

lemma waiting_tasks: "waiting (concat (map task_of cs)) = map fst (timers cs)"
proof (induction cs)
  case (Cons c cs)
  have "waiting (task_of c) = map fst (timer_of c)" by (cases c rule: task_of.cases) simp_all
  with Cons show ?case by simp
qed simp

lemma started_append: "acts m' = cs @ acts m \<Longrightarrow> started m m' = concat (map task_of cs)"
  by (simp add: started_def)

lemma good_started: "good_step P m ks m' \<Longrightarrow> hands_out (stabilizing m) (waiting (started m m')) (stabilizing m')"
  by (auto simp: good_step_def started_append waiting_tasks)

text \<open>Each task: a timer takes its own mark away, the others none.\<close>

lemma end_stabilization_step:
  "\<exists>m1. stabilizing m1 = stabilizing m - {s} \<and> k_rebooting m1 = k_rebooting m - {s} \<and> acts m1 = acts m \<and>
    lowBattery m1 = lowBattery m \<and> batteryInfo m1 = batteryInfo m \<and>
    end_stabilization w s d m = unless_pod w s (maybeCreatePod w d) m1"
  by (intro exI [of _ "m\<lparr>k_trace := sleep postRebootStabilizeDelay (k_trace m),
      stabilizing := stabilizing m - {s}, k_rebooting := k_rebooting m - {s}\<rparr>"])
    (simp add: end_stabilization_def acts_def)

lemma good_reboot: "good_step P m [] (rebootAndReport_k8s w r m)"
proof (cases rule: rebootAndReport_cases [of w r m])
  case failed
  have "k_reported (rebootAndReport_k8s w r m) = k_reported m" "stabilizing (rebootAndReport_k8s w r m) = stabilizing m"
    using arg_cong [OF failed(2), of k_reported] arg_cong [OF failed(2), of stabilizing] by simp_all
  then show ?thesis using failed(1) by (intro good_step_same [where cs = "[Own (Go_retry (sm_Serial r))]"]) simp_all
next
  case started
  then show ?thesis by (intro good_step_frame [where cs = "[]"]) simp_all
qed

lemma good_retry: "good_step P m [] (retry_pod w s m)"
proof -
  define m1 where "m1 = m\<lparr>k_trace := sleep (seconds 10) (k_trace m)\<rparr>"
  have 1: "good_step P m [] m1" unfolding m1_def by (rule good_step_frame [where cs = "[]"]) (simp_all add: frame)
  have "good_step P m1 [] (unless_pod w (Serial d) (\<lambda>m. snd (createPod w d m)) m1)" for d
    by (rule good_unless) (rule good_create)
  from 1 good_step_after [OF 1 this] show ?thesis
    by (simp add: retry_pod_def m1_def [symmetric] split: option.split)
qed

lemma good_timer: "good_step P m1 [] (unless_pod w s (maybeCreatePod w d) m1)"
  by (rule good_unless) (rule good_maybe)

lemma task_step:
  "hands_out (stabilizing m - set (timer_serial t)) (waiting (started m (run_task w t m))) (stabilizing (run_task w t m))"
proof (cases t)
  case (Timer s d)
  obtain m1 where m1: "stabilizing m1 = stabilizing m - {s}" "acts m1 = acts m"
    "end_stabilization w s d m = unless_pod w s (maybeCreatePod w d) m1"
    using end_stabilization_step [of m s w d] by blast
  from good_started [OF good_timer [of _ m1 w s d]] show ?thesis using m1 Timer by (simp add: started_def)
qed (use good_started [OF good_reboot] good_started [OF good_retry] in simp_all)

lemma hub_system_inv: "hub_system m T \<Longrightarrow> distinct (waiting T) \<and> set (waiting T) = stabilizing m"
proof (induction rule: hub_system.induct)
  case (new c conf st)
  then show ?case by (simp add: NewManager_k8s_def)
next
  case (event m T e ks m')
  then have "good_step (\<lambda>_ _. True) m ks m'" using good_any [of m e] by simp
  from good_started [OF this] event.IH show ?case by (auto simp: hands_out_def)
next
  case (task m T1 t T2 w m')
  then show ?case using task_step [of m t w] by (auto simp: hands_out_def)
qed

text \<open>A \<open>range\<close> over a map of Go meets every entry once, in any order. With that, the timer of a serial holds the
  device of that serial.\<close>

definition fair_ranges_k8s :: "kworld \<Rightarrow> bool" where
  "fair_ranges_k8s w \<longleftrightarrow> (\<forall>tr xs. mset (range_pods w tr xs) = mset xs) \<and> (\<forall>tr xs. mset (range_devices w tr xs) = mset xs)"

lemma fair_k8s_set: "fair_ranges_k8s w \<Longrightarrow> set (range_pods w tr xs) = set xs \<and> set (range_devices w tr ys) = set ys"
  unfolding fair_ranges_k8s_def by (metis set_mset_mset)

fun fair_event :: "kevent \<Rightarrow> bool" where
  "fair_event (K_reconcile w ds) = fair_ranges_k8s w"
| "fair_event e = True"

inductive fair_system :: "k8s_manager \<Rightarrow> task list \<Rightarrow> bool" where
  new: "fair_system (NewManager_k8s c conf st) []"
| event: "fair_system m T \<Longrightarrow> fair_event e \<Longrightarrow> run_event e m = (ks, m') \<Longrightarrow> fair_system m' (started m m' @ T)"
| task: "fair_system m (T1 @ t # T2) \<Longrightarrow> run_task w t m = m' \<Longrightarrow> fair_system m' (started m m' @ T1 @ T2)"

lemma fair_hub_system: "fair_system m T \<Longrightarrow> hub_system m T"
  by (induction rule: fair_system.induct) (auto intro: hub_system.intros)

lemma ready_serials: "x \<in> set (ready_devices ds) \<Longrightarrow> Serial (snd x) = fst x"
proof (induction ds rule: rev_induct)
  case (snoc d ds)
  have "x \<in> set (AList.update k v al) \<Longrightarrow> x = (k, v) \<or> x \<in> set al" for k v and al :: "(string \<times> device) list"
    by (induction al) (auto split: if_splits)
  from this [of "Serial d" d "ready_devices ds"] snoc show ?case
    by (auto simp: ready_devices_def split: if_splits)
qed (simp add: ready_devices_def)

lemma started_timers: "good_step P m ks m' \<Longrightarrow> Timer s d \<in> set (started m m') \<Longrightarrow> P s d"
proof -
  have "Timer s d \<in> set (task_of c) \<longleftrightarrow> (s, d) \<in> set (timer_of c)" for c by (cases c rule: task_of.cases) auto
  then have "Timer s d \<in> set (concat (map task_of cs)) \<longleftrightarrow> (s, d) \<in> set (timers cs)" for cs by (simp add: timers_def)
  then show "good_step P m ks m' \<Longrightarrow> Timer s d \<in> set (started m m') \<Longrightarrow> P s d"
    by (fastforce simp: good_step_def started_append)
qed

abbreviation same_serial :: "string \<Rightarrow> device \<Rightarrow> bool" where
  "same_serial s d \<equiv> Serial d = s"

lemma fair_event_timers: "fair_event e \<Longrightarrow> event_timers same_serial e"
  by (cases e) (use fair_k8s_set ready_serials in \<open>fastforce simp: cycle_timers_def\<close>)+

lemma fair_timers: "fair_system m T \<Longrightarrow> Timer s d \<in> set T \<Longrightarrow> Serial d = s"
proof (induction rule: fair_system.induct)
  case (event m T e ks m')
  have "good_step same_serial m ks m'" using good_event [OF fair_event_timers [OF event.hyps(2)], of m] event.hyps(3) by simp
  from started_timers [OF this] event show ?case by auto
next
  case (task m T1 t T2 w m')
  have "Serial d = s" if "Timer s d \<in> set (started m (run_task w t m))"
  proof (cases t)
    case (Timer s' d')
    obtain m1 where m1: "acts m1 = acts m" "end_stabilization w s' d' m = unless_pod w s' (maybeCreatePod w d') m1"
      using end_stabilization_step [of m s' w d'] by blast
    from started_timers [OF good_timer [of same_serial m1 w s' d'], of s d] that show ?thesis
      using m1 Timer by (simp add: started_def)
  qed (use that started_timers [OF good_reboot [of same_serial]] started_timers [OF good_retry [of same_serial]] in simp_all)
  with task show ?case by auto
qed simp

section \<open>Properties: reports and timers\<close>

text \<open>What may happen to a manager: an event, or the end of a goroutine.\<close>

type_synonym kop = "kevent + kworld \<times> task"

definition run_kop :: "kop \<Rightarrow> k8s_manager \<Rightarrow> string list \<times> k8s_manager" where
  "run_kop i m = (case i of Inl e \<Rightarrow> run_event e m | Inr (w, t) \<Rightarrow> ([], run_task w t m))"

fun run_kops :: "kop list \<Rightarrow> k8s_manager \<Rightarrow> string list \<times> k8s_manager" where
  "run_kops [] m = ([], m)"
| "run_kops (i # is) m = (let (ks, m1) = run_kop i m; (ks', m2) = run_kops is m1 in (ks @ ks', m2))"

lemma good_reported: "good_step P m ks m' \<Longrightarrow> distinct ks \<and> set ks \<inter> k_reported m = {} \<and> k_reported m' = k_reported m \<union> set ks"
  by (simp add: good_step_def hands_out_def)

lemma task_reported: "k_reported (run_task w t m) = k_reported m"
proof (cases t)
  case (Timer s d)
  then show ?thesis using good_reported [OF good_timer] by (simp add: end_stabilization_def)
qed (use good_reported [OF good_reboot] good_reported [OF good_retry] in simp_all)

interpretation kb: once k_reported run_kop
proof
  fix i m ks m'
  assume "run_kop i m = (ks, m')"
  then show "distinct ks \<and> set ks \<inter> k_reported m = {} \<and> k_reported m' = k_reported m \<union> set ks"
    using good_reported [OF good_any [of m "projl i"]] task_reported [of "fst (projr i)" "snd (projr i)" m]
    by (auto simp: run_kop_def split: sum.splits)
qed

lemma run_kops_steps: "run_kops is m = kb.steps is m"
  by (induction "is" arbitrary: m) simp_all

text \<open>C6: However the events of the hub server, the checks and the goroutines follow each other, and whatever
  the API server, the hub server, the files and the database answer, no pod is reported twice, and none that
  was reported before.\<close>

theorem pods_reported_once:
  assumes "run_kops is m = (keys, m')"
  shows "distinct keys \<and> set keys \<inter> k_reported m = {} \<and> k_reported m' = k_reported m \<union> set keys"
  using assms unfolding run_kops_steps by (rule kb.steps_once)

text \<open>A world for the examples: the API server lists no pod and answers every request, the hub server is down.\<close>

definition calm_k8s :: kworld where
  "calm_k8s = \<lparr>exec_answer = (\<lambda>_ _. ('''', None)), dir_answer = (\<lambda>_ _. Inr []), file_answer = (\<lambda>_ _. Inl ''none''),
     clock = slept, api_answer = (\<lambda>_ _. Inr (200, '''')), unmarshal_pods = (\<lambda>_. Inr []), unmarshal_pod = (\<lambda>_. Inl ''none''),
     pem_ok = (\<lambda>_. True), hub_answer = (\<lambda>_ _ _. Inl ''down''), k_file_error = (\<lambda>_. None), k_sql_error = (\<lambda>_. None),
     range_pods = (\<lambda>_ xs. xs), range_devices = (\<lambda>_ xs. xs), k_local_offset = 0\<rparr>"

definition demo_pod :: pod where
  "demo_pod = \<lparr>pod_APIVersion = ''v1'', pod_Kind = ''Pod'',
     pod_Metadata = \<lparr>om_Name = ''hub-test-r58m'', om_Namespace = ''farm'', om_UID = ''u1'',
       om_Labels = [(labelManaged_k8s, ''true''), (labelDevice_k8s, ''r58m''), (labelPlatform_k8s, ''android'')],
       om_ResourceVersion = ''7''\<rparr>,
     pod_Spec = \<lparr>ps_RestartPolicy = ''Never'', ps_Containers = [], ps_Volumes = [], ps_Grace = None\<rparr>,
     pod_Status = \<lparr>st_Phase = ''Succeeded'', st_ContainerStatuses = []\<rparr>\<rparr>"

definition demo_k8s_config :: k8s_config where
  "demo_k8s_config = \<lparr>k_AppiumImage = ''appium:1'', k_TestImage = ''tests:1'', k_IOSTestImage = '''', k_IOSAppiumImage = '''',
     k_IPAServeURL = '''', k_IOSBundleID = '''', k_HubClientImage = '''', k_HubUsbmuxdHost = '''', k_HubUsbmuxdPort = '''',
     k_HubHandshakeSecret = '''', k_AdbTunnelMode = '''', k_APKServeURL = '''', k_HubURL = '''', k_Namespace = ''farm''\<rparr>"

definition demo_k8s :: k8s_manager where
  "demo_k8s = NewManager_k8s \<lparr>apiBase = inClusterAPIServer, token = ''t'', cl_Namespace = ''farm''\<rparr> demo_k8s_config None"

text \<open>The same world with the ended pod listed.\<close>

definition done_k8s :: kworld where
  "done_k8s = calm_k8s\<lparr>unmarshal_pods := (\<lambda>_. Inr [demo_pod])\<rparr>"

lemma demo_pod_facts:
  "pod_label demo_pod labelDevice_k8s = ''r58m''" "pod_done demo_pod" "pod_key demo_pod = ''u1''"
  "om_Name (pod_Metadata demo_pod) = ''hub-test-r58m''"
  by (simp_all add: pod_label_def demo_pod_def labelDevice_k8s_def labelManaged_k8s_def pod_done_def pod_phase_def pod_key_def)

lemma done_listed: "fst (list_pods done_k8s sel m) = Inr [demo_pod]"
  by (simp add: list_pods_def khost_def ListPods_def get_as_def getRaw_def doRaw_def done_k8s_def calm_k8s_def case_prod_beta)

lemma demo_check:
  assumes "''u1'' \<notin> k_reported m"
  shows "fst (run_event (K_check done_k8s) m) = [''u1'']" "''u1'' \<in> k_reported (snd (run_event (K_check done_k8s) m))"
proof -
  obtain m1 where l: "list_pods done_k8s managed_selector m = (Inr [demo_pod], m1)"
    using done_listed [of managed_selector m] by (metis prod.collapse)
  have "k_reported m1 = k_reported m"
    using kframe_eqD(5) [of m1 m] list_pods_frame(2) [of done_k8s managed_selector m] by (simp add: l)
  then have "pod_key demo_pod \<notin> k_reported m1" using assms by (simp add: demo_pod_facts)
  then have "pod_id (fst (check_pod done_k8s demo_pod m1)) = [''u1'']"
    by (auto simp: check_pod_def Let_def demo_pod_facts collect_pod_def case_prod_beta)
  then show "fst (run_event (K_check done_k8s) m) = [''u1'']"
    by (simp add: CheckPods_k8s_def l case_prod_beta pod_ids_def)
  with good_reported [OF good_any [of m "K_check done_k8s"]]
  show "''u1'' \<in> k_reported (snd (run_event (K_check done_k8s) m))" by simp
qed

theorem pods_reported_once_witness:
  "fst (run_kops [Inl (K_check done_k8s), Inl (K_check done_k8s)] demo_k8s) = [''u1'']"
proof -
  obtain ks m' where r: "run_kops [Inl (K_check done_k8s), Inl (K_check done_k8s)] demo_k8s = (ks, m')" by fastforce
  have "''u1'' \<notin> k_reported demo_k8s" by (simp add: demo_k8s_def NewManager_k8s_def)
  note 1 = demo_check [OF this]
  define m1 where "m1 = snd (run_event (K_check done_k8s) demo_k8s)"
  have e: "run_event (K_check done_k8s) demo_k8s = ([''u1''], m1)" using 1(1) by (simp add: m1_def prod_eq_iff del: run_event.simps)
  have ks: "ks = ''u1'' # fst (run_event (K_check done_k8s) m1)"
    using r e by (auto simp: run_kop_def case_prod_beta simp del: run_event.simps)
  have sub: "set (fst (run_event (K_check done_k8s) m1)) \<subseteq> {''u1''}"
  proof -
    obtain m2 where l: "list_pods done_k8s managed_selector m1 = (Inr [demo_pod], m2)"
      using done_listed [of managed_selector m1] by (metis prod.collapse)
    show ?thesis
      by (auto simp: CheckPods_k8s_def l case_prod_beta pod_ids_def check_pod_def Let_def demo_pod_facts collect_pod_def
          split: if_splits)
  qed
  moreover have "''u1'' \<notin> set (fst (run_event (K_check done_k8s) m1))"
    using pods_reported_once [OF r] unfolding ks by simp
  ultimately have "fst (run_event (K_check done_k8s) m1) = []" by (cases "fst (run_event (K_check done_k8s) m1)") auto
  then show ?thesis using r ks by simp
qed

section \<open>Properties: rebooted devices\<close>

text \<open>A world in which no pod is ever listed.\<close>

definition lists_none :: "kworld \<Rightarrow> bool" where
  "lists_none w \<longleftrightarrow> (\<forall>c sel tr. fst (ListPods w c sel tr) = Inr [])"

lemma unless_pod_runs:
  assumes "lists_none w"
  obtains m1 where "unless_pod w s f m = f m1" "kframe m1 = kframe m" "acts m1 = acts m"
proof -
  obtain r m1 where l: "list_pods w (device_selector s) m = (r, m1)" by (cases "list_pods w (device_selector s) m")
  have "r = Inr []"
    using arg_cong [OF l, of fst] assms by (simp add: list_pods_def khost_def lists_none_def case_prod_beta)
  then show thesis
    using that [of m1] list_pods_frame [of w "device_selector s" m] l by (simp add: unless_pod_def)
qed

lemma end_stabilization_marks:
  "s \<notin> stabilizing (end_stabilization w s d m)" "s \<notin> k_rebooting (end_stabilization w s d m)"
proof -
  define m1 where "m1 = m\<lparr>k_trace := sleep postRebootStabilizeDelay (k_trace m),
      stabilizing := stabilizing m - {s}, k_rebooting := k_rebooting m - {s}\<rparr>"
  have e: "end_stabilization w s d m = unless_pod w s (maybeCreatePod w d) m1"
    by (simp add: end_stabilization_def m1_def)
  have "stabilizing (maybeCreatePod w d m2) = stabilizing m2 \<and> k_rebooting (maybeCreatePod w d m2) = k_rebooting m2" for m2
    using arg_cong [OF maybeCreatePod_frame(2) [of w d m2], of stabilizing]
      arg_cong [OF maybeCreatePod_frame(2) [of w d m2], of k_rebooting] by (simp split: if_splits)
  note keeps = this
  have "stabilizing (unless_pod w s (maybeCreatePod w d) m1) = stabilizing m1 \<and>
      k_rebooting (unless_pod w s (maybeCreatePod w d) m1) = k_rebooting m1"
  proof (cases rule: unless_pod_cases [of w s "maybeCreatePod w d" m1])
    case kept
    show ?thesis using kframe_eqD(3,4) [OF kept(1)] by simp
  next
    case (run m2)
    show ?thesis unfolding run(1) using keeps [of m2] kframe_eqD(3,4) [OF run(2)] by simp
  qed
  then show "s \<notin> stabilizing (end_stabilization w s d m)" "s \<notin> k_rebooting (end_stabilization w s d m)"
    unfolding e by (simp_all add: m1_def)
qed

lemma end_stabilization_pod:
  assumes "lists_none w"
  shows "let m' = end_stabilization w s d m in
    if low_battery m (Serial d) then acts m' = acts m \<and> lowBattery m' (Serial d) = Some d
    else acts m' = creation m d # acts m"
proof -
  define m1 where "m1 = m\<lparr>k_trace := sleep postRebootStabilizeDelay (k_trace m),
      stabilizing := stabilizing m - {s}, k_rebooting := k_rebooting m - {s}\<rparr>"
  have e: "end_stabilization w s d m = unless_pod w s (maybeCreatePod w d) m1"
    by (simp add: end_stabilization_def m1_def)
  have 1: "low_battery m1 x = low_battery m x" "acts m1 = acts m" for x
    by (simp_all add: m1_def low_battery_def batteryPercent_def acts_def)
  have 2: "creation m1 d = creation m d" by (rule creation_eqI) (simp_all add: m1_def)
  obtain m2 where m2: "unless_pod w s (maybeCreatePod w d) m1 = maybeCreatePod w d m2" "kframe m2 = kframe m1" "acts m2 = acts m1"
    using unless_pod_runs [OF assms] by blast
  note c = low_cong [OF m2(2)] creation_cong [OF m2(2)]
  show ?thesis
  proof (cases "low_battery m (Serial d)")
    case True
    then have "lowBattery (maybeCreatePod w d m2) (Serial d) = Some d"
      using arg_cong [OF maybeCreatePod_frame(2) [of w d m2], of lowBattery] c 1 by simp
    then show ?thesis using True c 1 2 m2 by (simp add: e maybeCreatePod_frame Let_def)
  next
    case False
    then show ?thesis using c 1 2 m2 by (simp add: e maybeCreatePod_frame Let_def)
  qed
qed

text \<open>C10: No device is stranded in the delay after its reboot: in every state that the manager can reach, a
  device that is marked as settling has exactly one timer under way, and that timer holds this device. When it
  ends, the device is neither settling nor rebooting, and, if it has no pod, a pod is created for it or it is put
  off for its battery.\<close>

theorem settling_ends:
  assumes "fair_system m T" and "s \<in> stabilizing m"
  shows "\<exists>T1 d T2. T = T1 @ Timer s d # T2 \<and> Serial d = s \<and> s \<notin> set (waiting (T1 @ T2)) \<and>
    (\<forall>w. s \<notin> stabilizing (end_stabilization w s d m) \<and> s \<notin> k_rebooting (end_stabilization w s d m) \<and>
       fair_system (end_stabilization w s d m) (started m (end_stabilization w s d m) @ T1 @ T2) \<and>
       (lists_none w \<longrightarrow>
          (if low_battery m s then lowBattery (end_stabilization w s d m) s = Some d
           else acts (end_stabilization w s d m) = creation m d # acts m)))"
proof -
  have w: "distinct (waiting T)" "s \<in> set (waiting T)"
    using hub_system_inv [OF fair_hub_system [OF assms(1)]] assms(2) by auto
  then obtain t where t: "t \<in> set T" "s \<in> set (timer_serial t)" by (auto simp: waiting_def)
  from t(2) obtain d where d: "t = Timer s d" by (cases t) auto
  have serial: "Serial d = s" using fair_timers [OF assms(1)] t(1) d by simp
  obtain T1 T2 where T: "T = T1 @ Timer s d # T2" using t(1) unfolding d by (meson split_list)
  have "fair_system (end_stabilization w s d m) (started m (end_stabilization w s d m) @ T1 @ T2)" for w
    by (rule fair_system.task [OF assms(1) [unfolded T]]) simp
  moreover have "s \<notin> set (waiting (T1 @ T2))" using w(1) unfolding T by auto
  moreover have "if low_battery m s then lowBattery (end_stabilization w s d m) s = Some d
           else acts (end_stabilization w s d m) = creation m d # acts m" if "lists_none w" for w
    using end_stabilization_pod [OF that, of s d m] serial by (simp add: Let_def split: if_splits)
  ultimately show ?thesis using T serial end_stabilization_marks
    by (intro exI [of _ T1] exI [of _ d] exI [of _ T2] conjI allI impI) simp_all
qed

definition demo_hub_device :: hub_device where
  "demo_hub_device = \<lparr>hd_Serial = ''r58m'', hd_OriginalSerial = '''', hd_Type = '''', hd_Status = ''running'', hd_StatusMsg = '''',
     hd_ContainerStatus = \<lparr>ps_State = ''running'', ps_Reason = '''', ps_Message = ''''\<rparr>,
     hd_Info = Some [(''model'', Info_text ''SM-A52''), (''serial'', Info_text ''R58M''),
       (''battery'', Info_obj [(''level'', Info_num 80), (''temperature'', Info_num 31)])],
     hd_LastSeen = ''''\<rparr>"

lemma calm_lists_none: "lists_none calm_k8s"
  by (simp add: lists_none_def ListPods_def get_as_def getRaw_def doRaw_def calm_k8s_def case_prod_beta)

section \<open>Properties: the battery gate\<close>

lemma maybe_fields:
  "batteryInfo (maybeCreatePod w d m) = batteryInfo m" "devices (maybeCreatePod w d m) = devices m"
  "k_rebooting (maybeCreatePod w d m) = k_rebooting m" "stabilizing (maybeCreatePod w d m) = stabilizing m"
  "low_battery (maybeCreatePod w d m) s = low_battery m s" "creation (maybeCreatePod w d m) d = creation m d"
  "low_battery m (Serial d) \<Longrightarrow> lowBattery (maybeCreatePod w d m) (Serial d) = Some d"
proof -
  note k = maybeCreatePod_frame(2) [of w d m]
  have f: "batteryInfo (maybeCreatePod w d m) = batteryInfo m" "devices (maybeCreatePod w d m) = devices m"
    "k_rebooting (maybeCreatePod w d m) = k_rebooting m" "stabilizing (maybeCreatePod w d m) = stabilizing m"
    "k_client (maybeCreatePod w d m) = k_client m" "k_config (maybeCreatePod w d m) = k_config m"
    "k_endpoints (maybeCreatePod w d m) = k_endpoints m"
    using arg_cong [OF k, of batteryInfo] arg_cong [OF k, of devices] arg_cong [OF k, of k_rebooting]
      arg_cong [OF k, of stabilizing] arg_cong [OF k, of k_client] arg_cong [OF k, of k_config]
      arg_cong [OF k, of k_endpoints] by (simp_all split: if_splits)
  then show "batteryInfo (maybeCreatePod w d m) = batteryInfo m" "devices (maybeCreatePod w d m) = devices m"
    "k_rebooting (maybeCreatePod w d m) = k_rebooting m" "stabilizing (maybeCreatePod w d m) = stabilizing m"
    "low_battery (maybeCreatePod w d m) s = low_battery m s" by (simp_all add: low_battery_def batteryPercent_def)
  show "creation (maybeCreatePod w d m) d = creation m d" by (rule creation_eqI) (rule f)+
  show "low_battery m (Serial d) \<Longrightarrow> lowBattery (maybeCreatePod w d m) (Serial d) = Some d"
    using arg_cong [OF k, of lowBattery] by simp
qed

text \<open>What \<open>start_or_wait\<close> does with a device.\<close>

definition gate_result :: "device \<Rightarrow> k8s_manager \<Rightarrow> k8s_manager \<Rightarrow> bool" where
  "gate_result dev m m' \<longleftrightarrow> devices m' = devices m \<and> k_rebooting m' = k_rebooting m \<and>
     low_battery m' (Serial dev) = low_battery m (Serial dev) \<and>
     (if Serial dev \<in> k_rebooting m then Serial dev \<in> stabilizing m' \<and>
          (acts m' = acts m \<or> acts m' = Own (Go_stabilize (Serial dev) dev) # acts m)
      else if low_battery m (Serial dev) then acts m' = acts m \<and> lowBattery m' (Serial dev) = Some dev
      else acts m' = creation m' dev # acts m)"

lemma start_or_wait_result: "gate_result dev m (start_or_wait w dev m)"
proof (cases rule: scheduleStabilization_cases [of "Serial dev" m dev])
  case no
  then show ?thesis
    using maybe_fields(1-6) [of w dev m] maybe_fields(7) [of m dev w] maybeCreatePod_frame(1) [of w dev m]
    by (simp add: gate_result_def start_or_wait_def)
next
  case already
  then show ?thesis by (simp add: gate_result_def start_or_wait_def)
next
  case timer
  then show ?thesis
    by (simp add: gate_result_def start_or_wait_def frame) (simp add: kemit_def low_battery_def batteryPercent_def)
qed

lemma gate_result_cong:
  assumes "kframe m1 = kframe m" "acts m1 = acts m" "gate_result dev m1 m'"
  shows "gate_result dev m m'"
  using assms(3) unfolding gate_result_def kframe_eqD(3,6) [OF assms(1)] low_cong [OF assms(1)] assms(2) .

text \<open>\<open>OnDeviceReady\<close>, with the state before the pods are listed.\<close>

lemma OnDeviceReady_run:
  assumes "dev = hub_adb_device (k_config m) hub" and "m' = OnDeviceReady w hub m"
    and "low \<longleftrightarrow> low_battery (note_battery (Serial dev) (hd_Info hub) m) (Serial dev)"
  shows "\<exists>m2. devices m2 (Serial dev) = Some dev \<and> k_rebooting m2 = k_rebooting m \<and> acts m2 = acts m \<and>
    low_battery m2 (Serial dev) = low \<and>
    (gate_result dev m2 m' \<or> (devices m' = devices m2 \<and> k_rebooting m' = k_rebooting m2 \<and> acts m' = acts m2)) \<and>
    (lists_none w \<and> test_image (k_config m) dev \<noteq> [] \<longrightarrow> gate_result dev m2 m')"
proof -
  define m1 where "m1 = note_battery (Serial dev) (hd_Info hub) m"
  have n: "\<exists>b. note_battery s i m = m\<lparr>batteryInfo := b\<rparr>" for s i
  proof -
    have "note_battery s i m = m\<lparr>batteryInfo := batteryInfo (note_battery s i m)\<rparr>"
      by (simp add: note_battery_def case_prod_beta split: option.split)
    then show ?thesis by blast
  qed
  then obtain b where m1: "m1 = m\<lparr>batteryInfo := b\<rparr>" unfolding m1_def by blast
  define m2 where "m2 = m1\<lparr>devices := (devices m1)(Serial dev \<mapsto> dev),
      k_endpoints := (k_endpoints m1)(Serial dev \<mapsto> ADBHost dev @ '':'' @ itoa (ADBPort dev))\<rparr>"
  have 2: "devices m2 (Serial dev) = Some dev" "k_rebooting m2 = k_rebooting m" "acts m2 = acts m" "k_config m2 = k_config m"
    by (simp_all add: m2_def m1 acts_def)
  have low: "low_battery m2 (Serial dev) = low"
    unfolding assms(3) m1_def [symmetric] by (simp add: m2_def low_battery_def batteryPercent_def)
  have m': "m' = (if test_image (k_config m2) dev = [] then m2 else unless_pod w (Serial dev) (start_or_wait w dev) m2)"
    by (simp add: assms OnDeviceReady_def Let_def m2_def m1_def)
  have run: "gate_result dev m2 (start_or_wait w dev m3)" if "kframe m3 = kframe m2" "acts m3 = acts m2" for m3
    by (rule gate_result_cong [OF that start_or_wait_result])
  have full: "gate_result dev m2 m'" if "lists_none w" "test_image (k_config m) dev \<noteq> []"
    using unless_pod_runs [OF that(1), of "Serial dev" "start_or_wait w dev" m2] run that(2) 2(4) m' by metis
  have "gate_result dev m2 m' \<or> (devices m' = devices m2 \<and> k_rebooting m' = k_rebooting m2 \<and> acts m' = acts m2)"
  proof (cases "test_image (k_config m2) dev = []")
    case False
    then have e: "m' = unless_pod w (Serial dev) (start_or_wait w dev) m2" using m' by simp
    show ?thesis
    proof (cases rule: unless_pod_cases [of w "Serial dev" "start_or_wait w dev" m2])
      case kept
      then show ?thesis using kframe_eqD(3,6) [OF kept(1)] e by simp
    next
      case (run m3)
      then show ?thesis using \<open>\<And>m3. _ \<Longrightarrow> _ \<Longrightarrow> gate_result dev m2 (start_or_wait w dev m3)\<close> [of m3] e by simp
    qed
  qed (use m' in simp)
  then show ?thesis
    using 2 full low by (intro exI [of _ m2] conjI impI) simp_all
qed



text \<open>The example: the pod of the phone ends, its reboot is asked for, and it is ready again.\<close>

lemma settling_demo:
  "\<exists>m T. fair_system m T \<and> ''r58m'' \<in> stabilizing m"
proof -
  obtain ks m1 where 1: "run_event (K_check done_k8s) demo_k8s = (ks, m1)" by (cases "run_event (K_check done_k8s) demo_k8s")
  have s1: "fair_system m1 (started demo_k8s m1 @ [])"
    unfolding demo_k8s_def by (rule fair_system.event [OF fair_system.new _ 1 [unfolded demo_k8s_def]]) simp
  define m2 where "m2 = OnDeviceReady calm_k8s demo_hub_device m1"
  have s2: "fair_system m2 (started m1 m2 @ started demo_k8s m1 @ [])"
    by (rule fair_system.event [OF s1, of "K_ready calm_k8s demo_hub_device" "[]"]) (simp_all add: m2_def)
  obtain m0 where l: "list_pods done_k8s managed_selector demo_k8s = (Inr [demo_pod], m0)"
    using done_listed [of managed_selector demo_k8s] by (metis prod.collapse)
  have k0: "kframe m0 = kframe demo_k8s" using list_pods_frame(2) [of done_k8s managed_selector demo_k8s] by (simp add: l)
  have f0: "k_reported m0 = {}" "k_config m0 = demo_k8s_config" "k_ReconcileFn m0 = False"
    using kframe_eqD(2,5,10) [OF k0] by (simp_all add: demo_k8s_def NewManager_k8s_def)
  define dev where "dev = (case devices m0 ''r58m'' of Some d \<Rightarrow> d
    | None \<Rightarrow> zero_device\<lparr>Serial := ''r58m'', Platform := pod_label demo_pod labelPlatform_k8s\<rparr>)"
  have m1: "m1 = (case collect_pod done_k8s ''r58m'' dev demo_pod m0 of
      (Pod_reported _ _, m) \<Rightarrow> if k_ReconcileFn m then kemit K_signal m else m | (_, m) \<Rightarrow> m)"
    using 1 by (simp add: CheckPods_k8s_def l case_prod_beta check_pod_def Let_def demo_pod_facts dev_def split: pod_outcome.split)
  have f1: "''r58m'' \<in> k_rebooting m1 \<and> k_config m1 = demo_k8s_config"
  proof (cases rule: collect_pod_cases [of demo_pod m0 done_k8s "''r58m''" dev])
    case stale
    then show ?thesis using f0(1) by simp
  next
    case (fresh r m')
    have "k_rebooting m' = insert ''r58m'' (k_rebooting m0)" "k_config m' = demo_k8s_config"
      using arg_cong [OF fresh(4), of k_rebooting] arg_cong [OF fresh(4), of k_config] f0(2) by simp_all
    moreover have "k_rebooting (kemit c m') = k_rebooting m'" "k_config (kemit c m') = k_config m'" for c
      by (simp_all add: kemit_def)
    ultimately show ?thesis unfolding m1 fresh(2) by (simp split: if_split)
  qed
  have t: "test_image (k_config m1) (hub_adb_device (k_config m1) demo_hub_device) \<noteq> []"
    using f1 by (simp add: test_image_def demo_k8s_config_def hub_adb_device_def Let_def hub_Platform_def demo_hub_device_def)
  have "Serial (hub_adb_device (k_config m1) demo_hub_device) = ''r58m''"
    by (simp add: hub_adb_device_def Let_def demo_hub_device_def)
  then have "''r58m'' \<in> stabilizing m2"
    using OnDeviceReady_run [OF refl m2_def refl] t calm_lists_none f1 by (auto simp: gate_result_def)
  with s2 show ?thesis by blast
qed

theorem settling_ends_witness:
  "\<exists>m T T1 d T2. ''r58m'' \<in> stabilizing m \<and> T = T1 @ Timer ''r58m'' d # T2 \<and> Serial d = ''r58m'' \<and>
    ''r58m'' \<notin> k_rebooting (end_stabilization calm_k8s ''r58m'' d m)"
proof -
  obtain m T where "fair_system m T" "''r58m'' \<in> stabilizing m" using settling_demo by blast
  from settling_ends [OF this] this(2) show ?thesis by blast
qed

text \<open>What a battery report does; \<open>devices\<close> is not touched.\<close>

lemma OnBattery_result:
  assumes "m' = OnBatteryUpdated w serial platform level temp m"
  shows "devices m' = devices m \<and>
    (if lowBattery m serial = None \<or> level < batteryResumePct
     then acts m' = acts m \<and> lowBattery m' serial = lowBattery m serial
     else acts m' = acts m \<or>
       lowBattery m' serial = None \<and> acts m' = creation m' (the (lowBattery m serial)) # acts m) \<and>
    (lists_none w \<and> lowBattery m serial = Some dev \<and> batteryResumePct \<le> level \<longrightarrow>
       lowBattery m' serial = None \<and> acts m' = creation m' dev # acts m)"
proof -
  define m1 where "m1 = m\<lparr>batteryInfo := (batteryInfo m)(serial \<mapsto> (fl (of_int level), fl (of_int temp)))\<rparr>"
  define m2 where "m2 = m1\<lparr>lowBattery := (lowBattery m)(serial := None)\<rparr>"
  have a: "acts m1 = acts m" "acts m2 = acts m" "lowBattery m1 = lowBattery m" "lowBattery m2 serial = None"
    "devices m1 = devices m" "devices m2 = devices m"
    by (simp_all add: m1_def m2_def acts_def)
  have m': "m' = (case lowBattery m serial of None \<Rightarrow> m1
      | Some dev \<Rightarrow> if level < batteryResumePct then m1 else unless_pod w (Serial dev) (\<lambda>m. snd (createPod w dev m)) m2)"
    unfolding assms OnBatteryUpdated_def Let_def m1_def [symmetric] m2_def [symmetric] a(3) ..
  have made: "acts (snd (createPod w d m3)) = creation (snd (createPod w d m3)) d # acts m \<and>
      lowBattery (snd (createPod w d m3)) serial = None \<and> devices (snd (createPod w d m3)) = devices m" if "kframe m3 = kframe m2" "acts m3 = acts m2" for d m3
    using createPod_frame [of w d m3] creation_cong [OF createPod_frame(2) [of w d m3]]
      kframe_eqD(6,8) [OF createPod_frame(2) [of w d m3]] kframe_eqD(6,8) [OF that(1)] that(2) a by simp
  show ?thesis
  proof (cases "\<exists>d. lowBattery m serial = Some d \<and> \<not> level < batteryResumePct")
    case True
    then obtain d where d: "lowBattery m serial = Some d" "\<not> level < batteryResumePct" by blast
    then have e: "m' = unless_pod w (Serial d) (\<lambda>m. snd (createPod w d m)) m2" using m' by simp
    have "devices m' = devices m \<and> (acts m' = acts m \<or> lowBattery m' serial = None \<and> acts m' = creation m' d # acts m)"
    proof (cases rule: unless_pod_cases [of w "Serial d" "\<lambda>m. snd (createPod w d m)" m2])
      case (run m3)
      then show ?thesis using made [of m3 d] e by simp
    next
      case kept
      then show ?thesis using e a kframe_eqD(6) [OF kept(1)] by simp
    qed
    moreover have "lowBattery m' serial = None \<and> acts m' = creation m' d # acts m" if "lists_none w"
      using unless_pod_runs [OF that, of "Serial d" "\<lambda>m. snd (createPod w d m)" m2] made e by metis
    ultimately show ?thesis using d by auto
  next
    case False
    then have "m' = m1" using m' by (auto split: option.splits)
    then show ?thesis using a False by auto
  qed
qed

text \<open>A device put off for its battery gets its pod only when the level is back at the resume bound, which
  is above the minimum, and then at once: it is no longer put off, and if it has no pod one is created.\<close>

theorem battery_resume:
  assumes "m' = OnBatteryUpdated w serial platform level temp m"
  shows "(acts m' = acts m \<or>
      (batteryMinPct < batteryResumePct \<and> batteryResumePct \<le> level \<and> lowBattery m' serial = None \<and>
       (\<exists>dev. lowBattery m serial = Some dev \<and> acts m' = creation m' dev # acts m))) \<and>
    (lists_none w \<and> lowBattery m serial = Some dev \<longrightarrow>
       (if level < batteryResumePct then lowBattery m' serial = Some dev
        else lowBattery m' serial = None \<and> acts m' = creation m' dev # acts m))"
proof -
  have "batteryMinPct < batteryResumePct" by (simp add: batteryMinPct_def batteryResumePct_def)
  then show ?thesis using OnBattery_result [OF assms, of dev] by (auto split: if_splits)
qed

theorem battery_resume_witness:
  "\<exists>m m'. m' = OnBatteryUpdated calm_k8s ''r58m'' ''android'' 35 310 m \<and>
    lowBattery m ''r58m'' = Some (hub_adb_device demo_k8s_config demo_hub_device) \<and>
    acts m' = creation m' (hub_adb_device demo_k8s_config demo_hub_device) # acts m"
proof -
  let ?d = "hub_adb_device demo_k8s_config demo_hub_device"
  let ?m = "demo_k8s\<lparr>lowBattery := [''r58m'' \<mapsto> ?d]\<rparr>"
  have l: "lowBattery ?m ''r58m'' = Some ?d" by simp
  show ?thesis
    by (rule exI [of _ ?m], rule exI, rule conjI [OF refl], rule conjI [OF l])
      (use battery_resume [OF refl, of calm_k8s "''r58m''" "''android''" 35 310 ?m ?d] calm_lists_none in
        \<open>simp add: batteryResumePct_def\<close>)
qed

section \<open>Properties: what a cycle touches\<close>

text \<open>The calls a step adds all satisfy \<open>P\<close>, and the client stays.\<close>

definition adds :: "(kown api_call \<Rightarrow> bool) \<Rightarrow> k8s_manager \<Rightarrow> k8s_manager \<Rightarrow> bool" where
  "adds P m m' \<longleftrightarrow> k_client m' = k_client m \<and> (\<exists>new. acts m' = new @ acts m \<and> (\<forall>a \<in> set new. P a))"

lemma adds_refl: "adds P m m"
  by (auto simp: adds_def)

lemma adds_trans:
  assumes "adds P m m1" "adds P m1 m2"
  shows "adds P m m2"
proof -
  obtain n1 n2 where n: "acts m1 = n1 @ acts m" "acts m2 = n2 @ acts m1" "\<forall>a \<in> set n1. P a" "\<forall>a \<in> set n2. P a"
    using assms unfolding adds_def by blast
  have c: "k_client m2 = k_client m" using assms by (simp add: adds_def)
  show ?thesis unfolding adds_def using n by (intro conjI c exI [of _ "n2 @ n1"]) auto
qed

lemma adds_frame:
  assumes "kframe m' = kframe m" "acts m' = new @ acts m" "\<forall>a \<in> set new. P a"
  shows "adds P m m'"
  unfolding adds_def using assms(2,3) kframe_eqD(1) [OF assms(1)] by blast

lemma adds_foldl:
  assumes "\<And>m x. k_client m = c \<Longrightarrow> x \<in> set xs \<Longrightarrow> adds P m (f m x)" "k_client m = c"
  shows "adds P m (foldl f m xs)"
  using assms
proof (induction xs arbitrary: m)
  case (Cons x xs)
  have 1: "adds P m (f m x)" using Cons.prems by simp
  then have "k_client (f m x) = c" using Cons.prems(2) by (simp add: adds_def)
  then have "adds P (f m x) (foldl f (f m x) xs)" using Cons.prems(1) by (intro Cons.IH) auto
  from adds_trans [OF 1 this] show ?case by simp
qed (simp add: adds_refl)

lemma adds_delete: "P (deletion (k_client m) n) \<Longrightarrow> adds P m (delete_pod w n m)"
  by (rule adds_frame [of _ _ "[deletion (k_client m) n]"]) (simp_all add: frame)

lemma adds_list: "adds P m (snd (list_pods w sel m))"
  by (rule adds_frame [of _ _ "[]"]) (simp_all add: frame)

lemma adds_collect:
  assumes "P (deletion (k_client m) (om_Name (pod_Metadata p)))" "\<And>r. P (Own (Go_reboot r))"
  shows "adds P m (snd (collect_pod w s dev p m))"
proof (cases rule: collect_pod_cases [of p m w s dev])
  case stale
  then show ?thesis using adds_delete assms(1) by simp
next
  case (fresh r m')
  have "k_client m' = k_client m" using arg_cong [OF fresh(4), of k_client] by simp
  then show ?thesis using fresh assms by (auto simp: adds_def)
qed

text \<open>What a cycle may do to the pods \<open>ps\<close> it has listed: delete one that has ended, or whose device is not
  among the ready ones, and start a reboot, a timer or a pod for a ready device.\<close>

definition cycle_act :: "client \<Rightarrow> pod list \<Rightarrow> string set \<Rightarrow> kown api_call \<Rightarrow> bool" where
  "cycle_act c ps ready a \<longleftrightarrow>
     (\<exists>p \<in> set ps. a = deletion c (om_Name (pod_Metadata p)) \<and> (pod_done p \<or> pod_label p labelDevice_k8s \<notin> ready)) \<or>
     (\<exists>r. a = Own (Go_reboot r)) \<or> (\<exists>s d. s \<in> ready \<and> a = Own (Go_stabilize s d)) \<or> (\<exists>m d. k_client m = c \<and> a = creation m d)"

lemma pods_by_serial_entries: "(s, p) \<in> set (pods_by_serial ps) \<Longrightarrow> p \<in> set ps \<and> pod_label p labelDevice_k8s = s"
proof -
  define f where "f = (\<lambda>m p. let s = pod_label p labelDevice_k8s in if s = [] then m else AList.update s p m)"
  have u: "set (AList.update k v xs) \<subseteq> insert (k, v) (set xs)" for k :: string and v :: pod and xs
    by (induction xs) auto
  have "(s, p) \<in> set (foldl f m ps) \<Longrightarrow> (s, p) \<in> set m \<or> (p \<in> set ps \<and> pod_label p labelDevice_k8s = s)" for m
  proof (induction ps arbitrary: m)
    case (Cons q ps)
    then show ?case using Cons.IH [of "f m q"] u [of "pod_label q labelDevice_k8s" q m] by (auto simp: f_def Let_def split: if_splits)
  qed simp
  then show "(s, p) \<in> set (pods_by_serial ps) \<Longrightarrow> p \<in> set ps \<and> pod_label p labelDevice_k8s = s"
    by (force simp: pods_by_serial_def f_def)
qed

lemma adds_reconcile_pod:
  assumes "x \<in> set (ready_devices ds)"
  shows "adds (cycle_act (k_client m) ps (fst ` set (ready_devices ds))) m (snd (reconcile_pod w (pods_by_serial ps) x m))"
proof -
  obtain s d where x: "x = (s, d)" by (cases x)
  have s: "s \<in> fst ` set (ready_devices ds)" using assms x by force
  show ?thesis
  proof (cases "map_of (pods_by_serial ps) s")
    case None
    have "adds (cycle_act (k_client m) ps (fst ` set (ready_devices ds))) m (snd (scheduleStabilization s d m))"
    proof (cases rule: scheduleStabilization_cases [of s m d])
      case timer
      have "k_client (kemit (Go_stabilize s d) (m\<lparr>stabilizing := insert s (stabilizing m)\<rparr>)) = k_client m" by (simp add: kemit_def)
      then show ?thesis using timer s by (auto simp: adds_def frame cycle_act_def)
    qed (simp_all add: adds_refl)
    moreover have "adds (cycle_act (k_client m) ps (fst ` set (ready_devices ds))) m (snd (createPod w d m))"
      by (rule adds_frame [of _ _ "[creation m d]"]) (auto simp: frame cycle_act_def)
    ultimately show ?thesis
      by (cases rule: scheduleStabilization_cases [of s m d]) (simp_all add: reconcile_pod_def x None case_prod_beta adds_refl)
  next
    case (Some p)
    then have "p \<in> set ps" using pods_by_serial_entries map_of_SomeD by metis
    then have "pod_done p \<Longrightarrow> adds (cycle_act (k_client m) ps (fst ` set (ready_devices ds))) m (snd (collect_pod w s d p m))"
      by (intro adds_collect) (auto simp: cycle_act_def)
    then show ?thesis by (simp add: reconcile_pod_def x Some adds_refl)
  qed
qed

lemma adds_reconcile_pods:
  assumes "set xs \<subseteq> set (ready_devices ds)" "k_client m = c"
  shows "adds (cycle_act c ps (fst ` set (ready_devices ds))) m (snd (reconcile_pods w (pods_by_serial ps) xs m))"
  using assms
proof (induction xs arbitrary: m)
  case (Cons x xs)
  have 1: "adds (cycle_act c ps (fst ` set (ready_devices ds))) m (snd (reconcile_pod w (pods_by_serial ps) x m))"
    using adds_reconcile_pod [of x ds m ps w] Cons.prems by simp
  then have "k_client (snd (reconcile_pod w (pods_by_serial ps) x m)) = c" using Cons.prems(2) by (simp add: adds_def)
  from adds_trans [OF 1 Cons.IH [OF _ this]] Cons.prems(1) show ?case by (simp add: case_prod_beta)
qed (simp add: adds_refl)



section \<open>Properties: names and pods\<close>

lemma trim_dashes_props:
  "set (trim_dashes s) \<subseteq> set s" "length (trim_dashes s) \<le> length s"
  "trim_dashes s \<noteq> [] \<Longrightarrow> hd (trim_dashes s) \<noteq> CHR ''-'' \<and> last (trim_dashes s) \<noteq> CHR ''-''"
  "trim_dashes (trim_dashes s) = trim_dashes s"
proof -
  let ?d = "\<lambda>c. c = CHR ''-''" and ?a = "dropWhile (\<lambda>c. c = CHR ''-'') s"
  show "set (trim_dashes s) \<subseteq> set s" by (auto simp: trim_dashes_def dest!: set_dropWhileD)
  have "length (dropWhile ?d xs) \<le> length xs" for xs by (rule length_dropWhile_le)
  then show "length (trim_dashes s) \<le> length s"
    unfolding trim_dashes_def length_rev by (metis length_rev order_trans)
  show ends: "hd (trim_dashes s) \<noteq> CHR ''-'' \<and> last (trim_dashes s) \<noteq> CHR ''-''" if "trim_dashes s \<noteq> []" for s
  proof -
    let ?b = "dropWhile (\<lambda>c. c = CHR ''-'') s"
    have ne: "dropWhile ?d (rev ?b) \<noteq> []" using that by (simp add: trim_dashes_def)
    have "last (trim_dashes s) = hd (dropWhile ?d (rev ?b))" using ne by (simp add: trim_dashes_def last_rev)
    then have l: "last (trim_dashes s) \<noteq> CHR ''-''" using hd_dropWhile [OF ne] by simp
    obtain p where p: "rev ?b = p @ dropWhile ?d (rev ?b)" by (metis takeWhile_dropWhile_id)
    have "rev (rev ?b) = rev (p @ dropWhile ?d (rev ?b))" using p by (rule arg_cong)
    then have "hd ?b = hd (rev (dropWhile ?d (rev ?b)) @ rev p)" unfolding rev_rev_ident rev_append by (rule arg_cong)
    also have "\<dots> = hd (rev (dropWhile ?d (rev ?b)))" by (rule hd_append2) (simp only: rev_is_Nil_conv ne not_False_eq_True)
    finally have h: "hd (trim_dashes s) = hd ?b" unfolding trim_dashes_def by (rule sym)
    have "?b \<noteq> []" by (rule notI) (use ne in \<open>simp only: rev.simps dropWhile.simps\<close>)
    from hd_dropWhile [OF this] have "hd (trim_dashes s) \<noteq> CHR ''-''" unfolding h .
    with l show ?thesis by (rule conjI [rotated])
  qed
  have self: "trim_dashes t = t" if "t = [] \<or> hd t \<noteq> CHR ''-'' \<and> last t \<noteq> CHR ''-''" for t
  proof -
    have "dropWhile (\<lambda>c. c = CHR ''-'') t = t" "dropWhile (\<lambda>c. c = CHR ''-'') (rev t) = rev t"
      using that by (auto intro!: dropWhile_id simp: hd_rev)
    then show ?thesis by (simp add: trim_dashes_def)
  qed
  show "trim_dashes (trim_dashes s) = trim_dashes s" by (rule self) (use ends [of s] in blast)
qed

lemma name_char_lower: "name_char c \<Longrightarrow> lower_char c = c"
  by (auto simp: name_char_def lower_char_def is_lower_def is_digit_def is_upper_def code_def)

text \<open>The sanitised serial is what Kubernetes takes in a name: lower-case letters, digits and hyphens, no hyphen
  at either end, never longer than the serial; sanitising it again changes nothing.\<close>

theorem sanitize_valid:
  assumes "n = sanitize_k8s s"
  shows "list_all name_char n \<and> (n \<noteq> [] \<longrightarrow> hd n \<noteq> CHR ''-'' \<and> last n \<noteq> CHR ''-'') \<and> length n \<le> length s \<and>
    sanitize_k8s n = n"
proof -
  let ?m = "map (\<lambda>c. if name_char c then c else CHR ''-'') (to_lower s)"
  have n: "n = trim_dashes ?m" by (simp add: assms sanitize_k8s_def)
  have "name_char (CHR ''-'')" by (simp add: name_char_def)
  then have "list_all name_char ?m" by (simp add: list.pred_map comp_def) (simp add: list_all_iff)
  moreover have "set n \<subseteq> set ?m" unfolding n by (rule trim_dashes_props(1))
  ultimately have all: "list_all name_char n" by (meson list_all_iff subsetD)
  have "length ?m = length s" by (simp add: to_lower_def)
  then have len: "length n \<le> length s" using trim_dashes_props(2) [of ?m] unfolding n by simp
  have "map (\<lambda>c. if name_char c then c else CHR ''-'') (to_lower n) = n"
    using all by (induction n) (simp_all add: to_lower_def name_char_lower)
  then have "sanitize_k8s n = n" using trim_dashes_props(4) [of ?m] by (simp add: sanitize_k8s_def n)
  with all len show ?thesis using trim_dashes_props(3) [of ?m] unfolding n by simp
qed

theorem sanitize_valid_witness: "sanitize_k8s (sanitize_k8s ''_R5.8M_'') = ''r5-8m''"
proof -
  have "sanitize_k8s ''_R5.8M_'' = ''r5-8m''"
    by code_simp
  with sanitize_valid [OF refl, of "''_R5.8M_''"] show ?thesis by simp
qed

lemma case_round:
  assumes "is_lower c \<or> is_digit c"
  shows "upper_char c \<noteq> CHR ''-'' \<and> lower_char (upper_char c) = c \<and> upper_char (upper_char c) = upper_char c"
proof (cases "is_lower c")
  case True
  then have c: "97 \<le> code c" "code c \<le> 122" by (simp_all add: is_lower_def)
  have u: "upper_char c = char_of (code c - 32)" using True by (simp add: upper_char_def)
  have cu: "code (upper_char c) = code c - 32" using c by (simp add: u code_def take_bit_nat_def)
  have "is_upper (upper_char c)" "\<not> is_lower (upper_char c)" using c cu by (auto simp: is_upper_def is_lower_def)
  moreover have "char_of (code c - 32 + 32) = c" using c by (simp add: code_def)
  moreover have "code (CHR ''-'') = 45" by (simp add: code_def)
  then have "upper_char c \<noteq> CHR ''-''" using c cu by auto
  ultimately show ?thesis by (simp add: lower_char_def upper_char_def [of "upper_char c"] cu)
next
  case False
  then have d: "48 \<le> code c" "code c \<le> 57" using assms by (simp_all add: is_digit_def)
  have "c \<noteq> CHR ''-''" using d by (auto simp: code_def)
  moreover have "\<not> is_upper c" using d by (simp add: is_upper_def)
  ultimately show ?thesis using False by (simp add: upper_char_def lower_char_def)
qed

lemma contains_char: "contains s [c] \<longleftrightarrow> c \<in> set s"
  by (induction s) (auto simp: has_prefix_def)

text \<open>The UDID of an iOS device: a serial of 24 letters and digits gets its hyphen after the eighth and upper-case
  letters, from which the serial can be read back; a UDID is not changed again.\<close>

theorem iosUDID_roundtrip:
  assumes "length s = 24" and "list_all (\<lambda>c. is_lower c \<or> is_digit c) s"
  shows "length (iosUDIDFromSerial s) = 25 \<and> iosUDIDFromSerial s ! 8 = CHR ''-'' \<and>
    to_lower (filter (\<lambda>c. c \<noteq> CHR ''-'') (iosUDIDFromSerial s)) = s \<and>
    iosUDIDFromSerial (iosUDIDFromSerial s) = iosUDIDFromSerial s"
proof -
  let ?u = "to_upper s"
  have ch: "upper_char c \<noteq> CHR ''-'' \<and> lower_char (upper_char c) = c \<and> upper_char (upper_char c) = upper_char c" if "c \<in> set s" for c
    using assms(2) that by (intro case_round) (simp add: list_all_iff)
  have nd: "CHR ''-'' \<notin> set ?u" unfolding to_upper_def set_map using ch by (metis imageE)
  have len: "length ?u = 24" using assms(1) by (simp add: to_upper_def)
  have u: "iosUDIDFromSerial s = take 8 ?u @ ''-'' @ drop 8 ?u"
    using nd len by (simp add: iosUDIDFromSerial_def Let_def contains_char)
  have "filter (\<lambda>c. c \<noteq> CHR ''-'') (take 8 ?u @ ''-'' @ drop 8 ?u) = ?u"
  proof -
    have "filter (\<lambda>c. c \<noteq> CHR ''-'') (take 8 ?u) = take 8 ?u"
      by (rule filter_True) (use nd in_set_takeD in fastforce)
    moreover have "filter (\<lambda>c. c \<noteq> CHR ''-'') (drop 8 ?u) = drop 8 ?u"
      by (rule filter_True) (use nd in_set_dropD in fastforce)
    ultimately show ?thesis by (simp only: filter_append filter.simps refl simp_thms if_False append_Nil append_take_drop_id)
  qed
  moreover have "to_lower ?u = s" using ch by (simp add: to_lower_def to_upper_def map_idI)
  moreover have up: "to_upper (take 8 ?u @ ''-'' @ drop 8 ?u) = take 8 ?u @ ''-'' @ drop 8 ?u"
  proof -
    have "map upper_char ?u = ?u" using ch by (simp add: to_upper_def)
    then have "map upper_char (take 8 ?u) = take 8 ?u" "map upper_char (drop 8 ?u) = drop 8 ?u"
      by (metis take_map, metis drop_map)
    then show ?thesis by (simp add: to_upper_def [of "_ @ _"]) (simp add: upper_char_def is_lower_def code_def)
  qed
  moreover have "contains (take 8 ?u @ ''-'' @ drop 8 ?u) ''-''" by (simp add: contains_char)
  ultimately show ?thesis
    using len unfolding u by (simp add: iosUDIDFromSerial_def [of "_ @ _"] Let_def nth_append)
qed

theorem iosUDID_roundtrip_witness: "iosUDIDFromSerial (iosUDIDFromSerial ''00008030001454190eeb802e'') = ''00008030-001454190EEB802E''"
proof -
  have "iosUDIDFromSerial ''00008030001454190eeb802e'' = ''00008030-001454190EEB802E''" by code_simp
  moreover have "list_all (\<lambda>c. is_lower c \<or> is_digit c) ''00008030001454190eeb802e''" by code_simp
  ultimately show ?thesis using iosUDID_roundtrip [of "''00008030001454190eeb802e''"] by simp
qed

lemma container_sel:
  "pc_Name (container_of n i c a e ms) = n" "pc_Image (container_of n i c a e ms) = i"
  "pc_VolumeMounts (container_of n i c a e ms) = ms"
  "pc_Name (android_hub_client conf dev) = ''hub-client''" "pc_VolumeMounts (android_hub_client conf dev) = [shared_mount]"
  "pc_Name (ios_hub_client conf dev) = ''hub-client''" "pc_VolumeMounts (ios_hub_client conf dev) = [usbmuxd_mount]"
  "vm_Name shared_mount = ''shared''" "vm_Name usbmuxd_mount = ''usbmuxd-run''" "vo_Name (empty_dir n) = n"
  by (simp_all add: container_of_def android_hub_client_def ios_hub_client_def shared_mount_def usbmuxd_mount_def
      mount_def empty_dir_def)

text \<open>C32: A pod that the manager creates is well formed: it carries the labels by which the manager finds it again,
  its containers have different names, among them the Appium and the tests container with the image of the
  device's platform, every mount names a volume of the pod, and it is never restarted.\<close>

theorem new_pod_well_formed:
  assumes "p = new_pod m dev"
  shows "pod_label p labelManaged_k8s = ''true'' \<and> pod_label p labelDevice_k8s = Serial dev \<and>
    pod_label p labelPlatform_k8s = Platform dev \<and> om_Namespace (pod_Metadata p) = cl_Namespace (k_client m) \<and>
    om_Name (pod_Metadata p) = pod_name (Serial dev) \<and> ps_RestartPolicy (pod_Spec p) = ''Never'' \<and>
    distinct (map pc_Name (ps_Containers (pod_Spec p))) \<and>
    (\<exists>a \<in> set (ps_Containers (pod_Spec p)). pc_Name a = ''appium'') \<and>
    (\<exists>t \<in> set (ps_Containers (pod_Spec p)). pc_Name t = ''tests'' \<and> pc_Image t = test_image (k_config m) dev) \<and>
    (\<forall>c \<in> set (ps_Containers (pod_Spec p)). vm_Name ` set (pc_VolumeMounts c) \<subseteq> vo_Name ` set (ps_Volumes (pod_Spec p)))"
proof -
  have meta: "pod_Metadata p = \<lparr>om_Name = pod_name (Serial dev), om_Namespace = cl_Namespace (k_client m), om_UID = '''',
        om_Labels = [(labelManaged_k8s, ''true''), (labelDevice_k8s, Serial dev), (labelPlatform_k8s, Platform dev)],
        om_ResourceVersion = ''''\<rparr>"
    unfolding assms new_pod_def device_pod_def by (simp add: case_prod_beta)
  have spec: "ps_RestartPolicy (pod_Spec p) = ''Never''" "ps_Containers (pod_Spec p) = fst (pod_parts m dev)"
    "ps_Volumes (pod_Spec p) = fst (snd (pod_parts m dev))"
    unfolding assms new_pod_def device_pod_def by (simp_all add: case_prod_beta)
  have l: "labelManaged_k8s \<noteq> labelDevice_k8s" "labelManaged_k8s \<noteq> labelPlatform_k8s" "labelDevice_k8s \<noteq> labelPlatform_k8s"
    by (simp_all add: labelManaged_k8s_def labelDevice_k8s_def labelPlatform_k8s_def)
  have meta': "pod_label p labelManaged_k8s = ''true''" "pod_label p labelDevice_k8s = Serial dev"
    "pod_label p labelPlatform_k8s = Platform dev" "om_Namespace (pod_Metadata p) = cl_Namespace (k_client m)"
    "om_Name (pod_Metadata p) = pod_name (Serial dev)"
    using l by (simp_all add: pod_label_def meta)
  define cs where "cs = fst (pod_parts m dev)"
  define vs where "vs = fst (snd (pod_parts m dev))"
  have "distinct (map pc_Name cs) \<and> (\<exists>a \<in> set cs. pc_Name a = ''appium'') \<and>
    (\<exists>t \<in> set cs. pc_Name t = ''tests'' \<and> pc_Image t = test_image (k_config m) dev) \<and>
    (\<forall>c \<in> set cs. vm_Name ` set (pc_VolumeMounts c) \<subseteq> vo_Name ` set vs)"
  proof (cases "Platform dev = ''ios''")
    case True
    then have "cs = ios_containers (k_config m) dev" "vs = [empty_dir ''shared'', empty_dir ''usbmuxd-run'']" "test_image (k_config m) dev = k_IOSTestImage (k_config m)"
      by (simp_all add: cs_def vs_def pod_parts_def test_image_def)
    then show ?thesis by (simp add: ios_containers_def Let_def container_sel)
  next
    case False
    then have "cs = android_containers (k_config m) dev (adbEndpoint_k8s m (Serial dev))" "vs = [empty_dir ''shared'']"
      "test_image (k_config m) dev = k_TestImage (k_config m)"
      by (simp_all add: cs_def vs_def pod_parts_def test_image_def)
    then show ?thesis by (simp add: android_containers_def container_sel)
  qed
  then show ?thesis using meta' spec by (simp add: cs_def vs_def)
qed

theorem new_pod_well_formed_witness:
  "pod_label (new_pod demo_k8s (hub_adb_device demo_k8s_config demo_hub_device)) labelDevice_k8s = ''r58m''"
  using new_pod_well_formed [OF refl, of demo_k8s "hub_adb_device demo_k8s_config demo_hub_device"]
  by (simp add: hub_adb_device_def demo_hub_device_def Let_def)

section \<open>Properties: three weaknesses\<close>

text \<open>The results of the pods carry no start time, so the total time of a run is never known.\<close>

text \<open>Every run that the Kubernetes manager saves has a total time of zero, however long its pod ran, and its report
  has no line for the timing.\<close>

theorem no_total_time:
  assumes "s = fst (processPodResult w serial model platform p m)"
  shows "run_TotalSeconds (run_of_summary_k8s s) = 0 \<and>
    report_text_k8s off s = report_text_k8s off (s\<lparr>sm_TestSecs := t\<rparr>)"
proof -
  have z: "totalDuration s = 0"
    using process_keeps(2) [of w serial model platform p m] by (simp add: assms totalDuration_def is_zero_def)
  have "totalDuration (s\<lparr>sm_TestSecs := t\<rparr>) = totalDuration s" by (simp add: totalDuration_def)
  with z show ?thesis
    by (simp add: run_of_summary_k8s_def report_text_k8s_def report_entry_def Let_def Seconds_def quo_def fl_def
        summary_label_def verdict_text_def)
qed

theorem no_total_time_witness:
  "run_TotalSeconds (run_of_summary_k8s (fst (processPodResult calm_k8s ''r58m'' ''SM-A52'' ''android'' demo_pod demo_k8s))) = 0"
  using no_total_time [OF refl, of calm_k8s "''r58m''" "''SM-A52''" "''android''" demo_pod demo_k8s] by simp

lemma contains_append:
  assumes "contains s t"
  shows "contains (a @ s @ b) t"
proof -
  obtain x y where "s = x @ t @ y" using assms unfolding contains_iff by blast
  then have "a @ s @ b = (a @ x) @ t @ (y @ b)" by simp
  then show ?thesis unfolding contains_iff by blast
qed

text \<open>\<open>DeletePod\<close> is to overlook that a pod is gone already, but it looks for the digits 404 in the whole text of the
  error: for a pod with them in its name every status that is an error counts as a success.\<close>

theorem DeletePod_masks_errors:
  assumes "contains name ''404''" and "CHR ''?'' \<notin> set (cl_Namespace c @ name)"
    and "api_answer w tr (api_request c DELETE (podPath c name) None) = Inr (status, body)"
  shows "fst (DeletePod w c name tr) = Inr ()"
proof -
  have "name \<noteq> []" using assms(1) by (auto simp: has_prefix_iff)
  then have p: "podPath c name = ''/api/v1/namespaces/'' @ cl_Namespace c @ ''/pods/'' @ name"
    by (simp add: podPath_def Let_def)
  have "url_path (podPath c name) = podPath c name"
    unfolding url_path_def p using assms(2) by (auto simp: takeWhile_eq_all_conv)
  then have u: "url_path (podPath c name) = (''/api/v1/namespaces/'' @ cl_Namespace c @ ''/pods/'') @ name @ []"
    using p by simp
  have "contains ((''k8s API '' @ method_text DELETE @ '' '' @ ''/api/v1/namespaces/'' @ cl_Namespace c @ ''/pods/'') @ name @
      ('': '' @ itoa status @ '' '' @ trim_space body)) ''404''"
    by (rule contains_append) (rule assms(1))
  then show ?thesis
    unfolding DeletePod_def delete_path_def doRaw_def case_prod_beta Let_def fst_conv snd_conv assms(3)
    by (simp add: api_request_def u)
qed

theorem DeletePod_masks_errors_witness:
  "fst (DeletePod (calm_k8s\<lparr>api_answer := (\<lambda>_ _. Inr (403, ''Forbidden''))\<rparr>)
     (k_client demo_k8s) (pod_name ''R404'') []) = Inr ()"
proof (rule DeletePod_masks_errors)
  have n: "pod_name ''R404'' = ''hub-test-r404''" by code_simp
  show "contains (pod_name ''R404'') ''404''" unfolding n by (simp add: has_prefix_def)
  show "CHR ''?'' \<notin> set (cl_Namespace (k_client demo_k8s) @ pod_name ''R404'')"
    unfolding n by (simp add: demo_k8s_def NewManager_k8s_def)
qed simp

text \<open>A device that was put off for its battery and is then removed from the hub server is not forgotten: the next
  battery report creates a pod for a device that is no longer there.\<close>

theorem deleted_device_gets_pod:
  assumes "lowBattery m serial = Some dev" and "batteryResumePct \<le> level" and "lists_none w" and "lists_none w'"
    and "m1 = OnDeviceDeleted w serial platform m" and "m2 = OnBatteryUpdated w' serial platform level temp m1"
  shows "devices m1 serial = None \<and> acts m1 = acts m \<and> devices m2 serial = None \<and> acts m2 = creation m2 dev # acts m1"
proof -
  define m0 where "m0 = m\<lparr>k_endpoints := (k_endpoints m)(serial := None), devices := (devices m)(serial := None)\<rparr>"
  obtain r m' where l: "list_pods w (device_selector serial) m0 = (r, m')" by (cases "list_pods w (device_selector serial) m0")
  have "r = Inr []"
    using arg_cong [OF l, of fst] assms(3) by (simp add: list_pods_def khost_def lists_none_def case_prod_beta)
  then have m1: "m1 = m'" using l by (simp add: assms(5) OnDeviceDeleted_def Let_def m0_def [symmetric])
  have k: "kframe m1 = kframe m0" "acts m1 = acts m0"
    using list_pods_frame [of w "device_selector serial" m0] by (simp_all add: l m1)
  have 1: "devices m1 serial = None" "lowBattery m1 serial = Some dev" "acts m1 = acts m"
    using kframe_eqD(6,8) [OF k(1)] k(2) assms(1) by (simp_all add: m0_def frame)
  show ?thesis using 1 OnBattery_result [OF assms(6), of dev] assms(2,4) by simp
qed

theorem deleted_device_gets_pod_witness:
  "\<exists>m m1 m2. m1 = OnDeviceDeleted calm_k8s ''r58m'' ''android'' m \<and>
    m2 = OnBatteryUpdated calm_k8s ''r58m'' ''android'' 40 310 m1 \<and> devices m2 ''r58m'' = None \<and>
    acts m2 = creation m2 (hub_adb_device demo_k8s_config demo_hub_device) # acts m1"
proof -
  let ?m = "demo_k8s\<lparr>lowBattery := [''r58m'' \<mapsto> hub_adb_device demo_k8s_config demo_hub_device]\<rparr>"
  have l: "lowBattery ?m ''r58m'' = Some (hub_adb_device demo_k8s_config demo_hub_device)" by simp
  have b: "batteryResumePct \<le> 40" by (simp add: batteryResumePct_def)
  show ?thesis
    using deleted_device_gets_pod [OF l b calm_lists_none calm_lists_none refl refl] by blast
qed

end
