(* ===== verification/Hub_Session.thy ===== *)
theory Hub_Session
  imports K8s_Facts
begin

text \<open>
  The client of the hub server and the Kubernetes manager together, as \<open>main.go\<close> joins them: what the manager
  knows after a connection, and that whatever the server sends, the manager stays in the states for which
  \<open>K8s_Facts\<close> speaks.
\<close>

section \<open>The manager as a handler\<close>

definition manager_handler :: "kworld \<Rightarrow> k8s_manager handler" where
  "manager_handler w =
     \<lparr>fn_OnWelcome = OnWelcome, fn_OnDeviceConnected = OnDeviceConnected, fn_OnDeviceReady = OnDeviceReady w,
      fn_OnDeviceOffline = OnDeviceOffline, fn_OnDeviceDeleted = OnDeviceDeleted w,
      fn_OnBatteryUpdated = OnBatteryUpdated w\<rparr>"

text \<open>The same handler with the goroutines that it starts.\<close>

definition running :: "(k8s_manager \<Rightarrow> k8s_manager) \<Rightarrow> k8s_manager \<times> task list \<Rightarrow> k8s_manager \<times> task list" where
  "running f s = (f (fst s), started (fst s) (f (fst s)) @ snd s)"

definition with_tasks :: "k8s_manager handler \<Rightarrow> (k8s_manager \<times> task list) handler" where
  "with_tasks h =
     \<lparr>fn_OnWelcome = (\<lambda>ds. running (fn_OnWelcome h ds)), fn_OnDeviceConnected = (\<lambda>d. running (fn_OnDeviceConnected h d)),
      fn_OnDeviceReady = (\<lambda>d. running (fn_OnDeviceReady h d)), fn_OnDeviceOffline = (\<lambda>i p. running (fn_OnDeviceOffline h i p)),
      fn_OnDeviceDeleted = (\<lambda>i p. running (fn_OnDeviceDeleted h i p)),
      fn_OnBatteryUpdated = (\<lambda>i p l t. running (fn_OnBatteryUpdated h i p l t))\<rparr>"

lemma started_same [simp]: "started m m = []"
  by (simp add: started_def)

lemma running_event: "hub_system (fst s) (snd s) \<Longrightarrow> run_event e (fst s) = (ks, f (fst s)) \<Longrightarrow>
    hub_system (fst (running f s)) (snd (running f s))"
  by (simp add: running_def hub_system.event)

interpretation tk: event_handler "with_tasks (manager_handler w)" "\<lambda>s. hub_system (fst s) (snd s)"
proof (unfold_locales, goal_cases)
  case (3 s d)
  show ?case by (simp add: with_tasks_def manager_handler_def) (rule running_event [OF 3, of "K_ready w d"], simp)
next
  case (4 s i p)
  show ?case by (simp add: with_tasks_def manager_handler_def) (rule running_event [OF 4, of "K_offline i p"], simp)
next
  case (5 s i p)
  show ?case by (simp add: with_tasks_def manager_handler_def) (rule running_event [OF 5, of "K_deleted w i p"], simp)
next
  case (6 s i p l t)
  show ?case by (simp add: with_tasks_def manager_handler_def) (rule running_event [OF 6, of "K_battery w i p l t"], simp)
qed (simp_all add: with_tasks_def manager_handler_def running_def OnWelcome_def OnDeviceConnected_def)

interpretation tp: handler_part "with_tasks h" h fst
  by unfold_locales (simp_all add: with_tasks_def running_def)

section \<open>What the handlers do to the devices\<close>

lemma dv_list: "devices (snd (list_pods w sel m)) = devices m" "k_config (snd (list_pods w sel m)) = k_config m"
  by (simp_all add: list_pods_def khost_def case_prod_beta)

lemma dv_delete: "devices (delete_pod w n m) = devices m" "k_config (delete_pod w n m) = k_config m"
  by (simp_all add: delete_pod_def khost_def case_prod_beta)

lemma dv_create: "devices (snd (createPod w d m)) = devices m \<and> k_config (snd (createPod w d m)) = k_config m"
proof -
  have "kframe (snd (createPod w d m)) = kframe m" by (simp add: frame)
  from kframe_eqD(2) [OF this] kframe_eqD(6) [OF this] show ?thesis by blast
qed

lemma dv_maybe: "devices (maybeCreatePod w d m) = devices m \<and> k_config (maybeCreatePod w d m) = k_config m"
  using dv_create [of w d m] by (simp add: maybeCreatePod_def Let_def)

lemma dv_start: "devices (start_or_wait w d m) = devices m \<and> k_config (start_or_wait w d m) = k_config m"
  by (simp add: start_or_wait_def scheduleStabilization_def kemit_def dv_maybe)

lemma dv_unless:
  assumes "\<And>m. devices (f m) = devices m \<and> k_config (f m) = k_config m"
  shows "devices (unless_pod w s f m) = devices m \<and> k_config (unless_pod w s f m) = k_config m"
  by (simp add: unless_pod_def case_prod_beta assms dv_list split: sum.split list.split)

lemma dv_ready:
  "devices (OnDeviceReady w d m) = (devices m)(hd_Serial d \<mapsto> hub_adb_device (k_config m) d) \<and>
    k_config (OnDeviceReady w d m) = k_config m"
proof -
  let ?dev = "hub_adb_device (k_config m) d"
  have s: "Serial ?dev = hd_Serial d" by (simp add: hub_adb_device_def Let_def)
  have n: "devices (note_battery i b m) = devices m" "k_config (note_battery i b m) = k_config m" for i b
    by (simp_all add: note_battery_def case_prod_beta split: option.split)
  show ?thesis
    by (simp add: OnDeviceReady_def Let_def dv_unless [OF dv_start] n s)
qed

lemma dv_offline: "devices (OnDeviceOffline i p m) = (devices m)(i := None)" "k_config (OnDeviceOffline i p m) = k_config m"
  by (simp_all add: OnDeviceOffline_def)

lemma dv_deleted: "devices (OnDeviceDeleted w i p m) = (devices m)(i := None) \<and> k_config (OnDeviceDeleted w i p m) = k_config m"
proof -
  have f: "devices (foldl (\<lambda>m p. delete_pod w (om_Name (pod_Metadata p)) m) m ps) = devices m \<and>
      k_config (foldl (\<lambda>m p. delete_pod w (om_Name (pod_Metadata p)) m) m ps) = k_config m" for m ps
    by (induction ps arbitrary: m) (simp_all add: dv_delete)
  show ?thesis by (simp add: OnDeviceDeleted_def Let_def case_prod_beta f dv_list split: sum.split)
qed

lemma dv_battery: "devices (OnBatteryUpdated w i p l t m) = devices m \<and> k_config (OnBatteryUpdated w i p l t m) = k_config m"
  by (simp add: OnBatteryUpdated_def Let_def dv_unless [OF dv_create] split: option.split)

section \<open>The server and what it sends\<close>

text \<open>The server knows devices by serial: the platform and, while the peer is up, its info.\<close>

type_synonym server = "string \<rightharpoonup> string \<times> (string \<times> info) list option"

datatype server_event =
    Joined string string
  | Informed string "(string \<times> info) list"
  | Unplugged string
  | Removed string
  | Charge string int int
  | New_status string

fun server_step :: "server_event \<Rightarrow> server \<Rightarrow> server" where
  "server_step (Joined s p) srv = srv(s \<mapsto> (p, None))"
| "server_step (Informed s i) srv = srv(s \<mapsto> (fst (the (srv s)), Some i))"
| "server_step (Unplugged s) srv = srv(s \<mapsto> (fst (the (srv s)), None))"
| "server_step (Removed s) srv = srv(s := None)"
| "server_step (Charge s l t) srv = srv"
| "server_step (New_status s) srv = srv"

text \<open>A device joins when it is not known, and the other events speak of known ones.\<close>

fun possible :: "server_event \<Rightarrow> server \<Rightarrow> bool" where
  "possible (Joined s p) srv \<longleftrightarrow> srv s = None"
| "possible (Informed s i) srv \<longleftrightarrow> srv s \<noteq> None"
| "possible (Unplugged s) srv \<longleftrightarrow> srv s \<noteq> None"
| "possible (Removed s) srv \<longleftrightarrow> srv s \<noteq> None"
| "possible (Charge s l t) srv \<longleftrightarrow> srv s \<noteq> None"
| "possible (New_status s) srv \<longleftrightarrow> srv s \<noteq> None"

fun history_ok :: "server_event list \<Rightarrow> server \<Rightarrow> bool" where
  "history_ok [] srv = True"
| "history_ok (e # es) srv \<longleftrightarrow> possible e srv \<and> history_ok es (server_step e srv)"

text \<open>The message of an event.\<close>

definition about :: "string \<Rightarrow> string \<Rightarrow> string \<Rightarrow> ws_msg \<Rightarrow> bool" where
  "about ev typ s msg \<longleftrightarrow> ms_Event msg = ev \<and> ms_Type msg = typ \<and> ms_Device msg = s \<and> s \<noteq> ''''"

fun carries :: "server_event \<Rightarrow> ws_msg \<Rightarrow> bool" where
  "carries (Joined s p) msg \<longleftrightarrow> about ''ADD'' ''DEVICE'' s msg \<and> ms_Platform msg = p \<and> p \<noteq> '''' \<and>
     (\<forall>d. hd_Serial (fst (into_device (ms_Data msg) d)) = hd_Serial d)"
| "carries (Informed s i) msg \<longleftrightarrow> about ''ADD'' ''INFO'' s msg \<and> as_info (ms_Data msg) = Inr (Some i)"
| "carries (Unplugged s) msg \<longleftrightarrow> about ''DELETE'' ''INFO'' s msg"
| "carries (Removed s) msg \<longleftrightarrow> about ''DELETE'' ''DEVICE'' s msg"
| "carries (Charge s l t) msg \<longleftrightarrow> about ''UPDATE'' ''BATTERY'' s msg \<and> as_battery (ms_Data msg) = Inr (l, t)"
| "carries (New_status s) msg \<longleftrightarrow> about ''UPDATE'' ''STATUS'' s msg"

definition by_serial :: "hub_device list \<Rightarrow> peers" where
  "by_serial ds = map (\<lambda>d. (hd_Serial d, d)) ds"

definition described :: "hub_device \<Rightarrow> string \<times> (string \<times> info) list option" where
  "described d = (hd_Type d, hd_Info d)"

definition welcomes :: "server \<Rightarrow> ws_msg \<Rightarrow> bool" where
  "welcomes srv msg \<longleftrightarrow> ms_Event msg = ''welcome'' \<and>
     (\<exists>ds. as_devices (ms_Data msg) = Inr (map Some ds) \<and> distinct (map hd_Serial ds) \<and>
        (\<forall>d \<in> set ds. hd_Serial d \<noteq> '''' \<and> hd_Info d \<noteq> Some []) \<and>
        srv = (\<lambda>s. map_option described (map_of (by_serial ds) s)))"

text \<open>What the manager is to know of the server: the devices whose peer is up.\<close>

definition ready_view :: "k8s_config \<Rightarrow> server \<Rightarrow> string \<rightharpoonup> device" where
  "ready_view c srv = (\<lambda>s. case srv s of
     Some (p, Some i) \<Rightarrow> Some (hub_adb_device c (zero_hub_device\<lparr>hd_Serial := s, hd_Type := p, hd_Info := Some i\<rparr>))
   | _ \<Rightarrow> None)"

section \<open>The simulation\<close>

lemma hub_adb_device_cong:
  "hd_Serial d = hd_Serial d' \<Longrightarrow> hd_Type d = hd_Type d' \<Longrightarrow> hd_Info d = hd_Info d' \<Longrightarrow> hub_adb_device c d = hub_adb_device c d'"
  by (simp add: hub_adb_device_def Let_def hub_Model_def hub_Platform_def)

text \<open>The client's map has the server's devices; the manager's has the ready ones over what it had before.\<close>

definition tracks :: "k8s_config \<Rightarrow> (string \<rightharpoonup> device) \<Rightarrow> server \<Rightarrow> peers \<times> k8s_manager \<Rightarrow> bool" where
  "tracks c B srv st \<longleftrightarrow>
     (\<forall>s. map_option (\<lambda>d. (hd_Serial d, hd_Type d)) (map_of (fst st) s) = map_option (\<lambda>x. (s, fst x)) (srv s)) \<and>
     k_config (snd st) = c \<and> devices (snd st) = B ++ ready_view c srv"

fun dropped :: "server_event \<Rightarrow> (string \<rightharpoonup> device) \<Rightarrow> string \<rightharpoonup> device" where
  "dropped (Unplugged s) B = B(s := None)"
| "dropped (Removed s) B = B(s := None)"
| "dropped e B = B"

lemma step_tracks:
  assumes "tracks c B srv st" and "possible e srv" and "carries e msg"
  shows "\<exists>st'. handle_msg rng (manager_handler w) msg st = Some st' \<and> tracks c (dropped e B) (server_step e srv) st'"
proof -
  obtain ps m where st: "st = (ps, m)" by (cases st)
  have map: "map_option (\<lambda>d. (hd_Serial d, hd_Type d)) (map_of ps s) = map_option (\<lambda>x. (s, fst x)) (srv s)"
    and c: "k_config m = c" and dv: "devices m = B ++ ready_view c srv" for s
    using assms(1) by (simp_all add: tracks_def st)
  show ?thesis
  proof (cases e)
    case (Joined s p)
    with assms(2,3) map [of s] show ?thesis
      by (auto simp: tracks_def st about_def handle_msg_def on_add_def Let_def manager_handler_def OnDeviceConnected_def
          added_device_def update_conv' c dv fun_eq_iff map map_add_def ready_view_def zero_hub_device_def)
  next
    case (Informed s i)
    then obtain p j d where s: "srv s = Some (p, j)" "map_of ps s = Some d" "hd_Serial d = s" "hd_Type d = p"
      using assms(2) map [of s] by (cases "srv s"; cases "map_of ps s") auto
    have "handle_msg rng (manager_handler w) msg st =
        Some (AList.update s (d\<lparr>hd_Info := Some i\<rparr>) ps, OnDeviceReady w (d\<lparr>hd_Info := Some i\<rparr>) m)"
      using assms(3) s by (simp add: Informed about_def handle_msg_def on_add_def Let_def st manager_handler_def)
    moreover have "hub_adb_device c (d\<lparr>hd_Info := Some i\<rparr>) =
        hub_adb_device c (zero_hub_device\<lparr>hd_Serial := s, hd_Type := p, hd_Info := Some i\<rparr>)"
      by (rule hub_adb_device_cong) (simp_all add: s)
    ultimately show ?thesis
      using map by (auto simp: tracks_def Informed dv_ready c dv s fun_eq_iff map_add_def ready_view_def update_conv' split: option.splits)
  next
    case (Unplugged s)
    with assms(2,3) map show ?thesis
      by (auto simp: tracks_def st about_def handle_msg_def on_delete_def Let_def manager_handler_def dv_offline c dv
          fun_eq_iff map_add_def ready_view_def split: option.splits)
  next
    case (Removed s)
    with assms(2,3) map show ?thesis
      by (auto simp: tracks_def st about_def handle_msg_def on_delete_def Let_def manager_handler_def dv_deleted c dv
          fun_eq_iff map_add_def ready_view_def delete_conv' split: option.splits)
  next
    case (Charge s l t)
    with assms(3) map show ?thesis
      by (auto simp: tracks_def st about_def handle_msg_def on_update_def Let_def manager_handler_def dv_battery c dv)
  next
    case (New_status s)
    have upd: "map_option (\<lambda>d. (hd_Serial d, hd_Type d)) (((map_of ps)(s \<mapsto> d\<lparr>hd_Status := a, hd_ContainerStatus := b\<rparr>)) s') =
        map_option (\<lambda>x. (s', fst x)) (srv s')" if "map_of ps s = Some d" for d a b s'
      using map [of s] map [of s'] that by simp
    from New_status assms(3) map show ?thesis
      by (auto simp: tracks_def st about_def handle_msg_def on_update_def Let_def manager_handler_def c dv update_conv' upd
          simp del: fun_upd_apply split: option.splits prod.splits)
  qed
qed

lemma run_tracks:
  assumes "tracks c B srv st" and "history_ok es srv" and "list_all2 carries es msgs"
  shows "\<exists>st'. read_loop rng (manager_handler w) msgs st = Some st' \<and>
    tracks c (foldl (\<lambda>B e. dropped e B) B es) (foldl (\<lambda>srv e. server_step e srv) srv es) st'"
  using assms
proof (induction es arbitrary: B srv st msgs)
  case (Cons e es)
  then obtain msg msgs' where msgs: "msgs = msg # msgs'" "carries e msg" "list_all2 carries es msgs'"
    by (auto simp: list_all2_Cons1)
  from Cons.prems(2) have p: "possible e srv" "history_ok es (server_step e srv)" by simp_all
  obtain st1 where 1: "handle_msg rng (manager_handler w) msg st = Some st1" "tracks c (dropped e B) (server_step e srv) st1"
    using step_tracks [OF Cons.prems(1) p(1) msgs(2)] by blast
  from Cons.IH [OF 1(2) p(2) msgs(3)] show ?case by (simp add: msgs(1) 1(1))
qed simp

lemma dropped_all:
  "foldl (\<lambda>B e. dropped e B) B es = (\<lambda>s. if Unplugged s \<in> set es \<or> Removed s \<in> set es then None else B s)"
proof (induction es arbitrary: B)
  case (Cons e es)
  then show ?case by (cases e) (auto simp: fun_eq_iff)
qed simp

text \<open>A welcome: the map of the client, and the calls for the devices of the snapshot.\<close>

lemma update_fresh: "k \<notin> fst ` set al \<Longrightarrow> AList.update k v al = al @ [(k, v)]"
  by (induction al) auto

lemma index_all:
  "distinct (map hd_Serial ds) \<Longrightarrow> \<forall>d \<in> set ds. hd_Serial d \<noteq> '''' \<and> hd_Serial d \<notin> fst ` set ps \<Longrightarrow>
    index_devices (map Some ds) ps = Some (ps @ by_serial ds)"
proof (induction ds arbitrary: ps)
  case (Cons d ds)
  then have "index_devices (map Some ds) (ps @ [(hd_Serial d, d)]) = Some ((ps @ [(hd_Serial d, d)]) @ by_serial ds)"
    by (intro Cons.IH) (auto simp: image_iff)
  with Cons.prems show ?case by (simp add: update_fresh by_serial_def)
qed (simp add: by_serial_def)

lemma greet_calls:
  assumes "distinct (map hd_Serial ds)"
  shows "k_config (greet (manager_handler w) ds m) = k_config m \<and>
    devices (greet (manager_handler w) ds m) = devices m ++
      (\<lambda>s. case map_of (by_serial ds) s of Some d \<Rightarrow> if HasInfo d then Some (hub_adb_device (k_config m) d) else None | None \<Rightarrow> None)"
proof -
  let ?f = "\<lambda>m d. if HasInfo d then OnDeviceReady w d m else m"
  have "k_config (foldl ?f m ds) = k_config m \<and> devices (foldl ?f m ds) = devices m ++
      (\<lambda>s. case map_of (by_serial ds) s of Some d \<Rightarrow> if HasInfo d then Some (hub_adb_device (k_config m) d) else None | None \<Rightarrow> None)"
    using assms
  proof (induction ds arbitrary: m)
    case (Cons d ds)
    have no: "map_of (by_serial ds) (hd_Serial d) = None"
      using Cons.prems by (auto simp: map_of_eq_None_iff by_serial_def)
    have m1: "k_config (?f m d) = k_config m" "devices (?f m d) = (if HasInfo d then (devices m)(hd_Serial d \<mapsto> hub_adb_device (k_config m) d) else devices m)"
      by (simp_all add: dv_ready)
    from Cons.IH [of "?f m d"] Cons.prems no m1 show ?case
      by (auto simp: by_serial_def fun_eq_iff map_add_def split: option.splits)
  qed (simp add: by_serial_def map_add_def fun_eq_iff)
  then show ?thesis by (simp add: greet_def manager_handler_def OnWelcome_def OnDeviceConnected_def cong: if_cong)
qed

lemma welcome_tracks:
  assumes "welcomes srv msg" and "\<And>xs :: hub_device list. mset (rng xs) = mset xs"
  shows "\<exists>st. handle_msg rng (manager_handler w) msg (ps, m) = Some st \<and> tracks (k_config m) (devices m) srv st"
proof -
  obtain ds where ds: "ms_Event msg = ''welcome''" "as_devices (ms_Data msg) = Inr (map Some ds)" "distinct (map hd_Serial ds)"
    "\<forall>d \<in> set ds. hd_Serial d \<noteq> '''' \<and> hd_Info d \<noteq> Some []" and srv: "srv = (\<lambda>s. map_option described (map_of (by_serial ds) s))"
    using assms(1) by (auto simp: welcomes_def)
  let ?m = "greet (manager_handler w) (rng ds) m"
  have snd: "map snd (by_serial ds) = ds" by (simp add: by_serial_def o_def)
  have run: "handle_msg rng (manager_handler w) msg (ps, m) = Some (by_serial ds, ?m)"
    using index_all [OF ds(3), of "[]"] ds(4) by (simp add: handle_msg_def on_welcome_def ds(1,2) snd)
  have perm: "distinct (map hd_Serial (rng ds))" "set (rng ds) = set ds"
    using ds(3) assms(2) [of ds] mset_eq_setD [OF assms(2) [of ds]]
      mset_eq_imp_distinct_iff [of "map hd_Serial (rng ds)" "map hd_Serial ds"] by simp_all
  have same: "map_of (by_serial (rng ds)) = map_of (by_serial ds)"
    by (rule map_of_eqI) (use perm ds(3) in \<open>auto simp: by_serial_def o_def image_iff map_of_eq_Some_iff\<close>)
  have ser: "hd_Serial d = s \<and> d \<in> set ds" if "map_of (by_serial ds) s = Some d" for s d
    using map_of_SomeD [OF that] by (auto simp: by_serial_def)
  have "(case map_of (by_serial ds) s of Some d \<Rightarrow> if HasInfo d then Some (hub_adb_device (k_config m) d) else None | None \<Rightarrow> None) =
      ready_view (k_config m) srv s" for s
  proof (cases "map_of (by_serial ds) s")
    case (Some d)
    show ?thesis
    proof (cases "hd_Info d")
      case (Some i)
      with ser [OF \<open>map_of (by_serial ds) s = Some d\<close>] ds(4) have "HasInfo d" by (auto simp: HasInfo_def)
      moreover have "hub_adb_device (k_config m) d = hub_adb_device (k_config m)
          (zero_hub_device\<lparr>hd_Serial := s, hd_Type := hd_Type d, hd_Info := Some i\<rparr>)"
        by (rule hub_adb_device_cong) (use ser [OF \<open>map_of (by_serial ds) s = Some d\<close>] Some in simp_all)
      ultimately show ?thesis using Some \<open>map_of (by_serial ds) s = Some d\<close> by (simp add: ready_view_def srv described_def)
    qed (simp add: ready_view_def srv described_def HasInfo_def Some)
  qed (simp add: ready_view_def srv)
  moreover have "map_option (\<lambda>d. (hd_Serial d, hd_Type d)) (map_of (by_serial ds) s) = map_option (\<lambda>x. (s, fst x)) (srv s)" for s
    using ser [of s] by (cases "map_of (by_serial ds) s") (auto simp: srv described_def)
  ultimately have "tracks (k_config m) (devices m) srv (by_serial ds, ?m)"
    using greet_calls [OF perm(1), of w m] unfolding same by (simp add: tracks_def)
  with run show ?thesis by blast
qed

lemma connection_view:
  assumes "welcomes srv hello" and "history_ok es srv" and "list_all2 carries es msgs"
    and "\<And>xs :: hub_device list. mset (rng xs) = mset xs"
  shows "\<exists>m'. runOnce rng (manager_handler w) (Inr (hello # msgs)) m = Some m' \<and>
    devices m' = (\<lambda>s. if Unplugged s \<in> set es \<or> Removed s \<in> set es then None else devices m s) ++
      ready_view (k_config m) (foldl (\<lambda>srv e. server_step e srv) srv es)"
proof -
  obtain st where 1: "handle_msg rng (manager_handler w) hello ([], m) = Some st" "tracks (k_config m) (devices m) srv st"
    using welcome_tracks [OF assms(1,4)] by blast
  obtain st' where 2: "read_loop rng (manager_handler w) msgs st = Some st'"
    "tracks (k_config m) (foldl (\<lambda>B e. dropped e B) (devices m) es) (foldl (\<lambda>srv e. server_step e srv) srv es) st'"
    using run_tracks [OF 1(2) assms(2,3)] by blast
  then show ?thesis by (simp add: runOnce_def 1(1) tracks_def dropped_all)
qed

section \<open>Properties\<close>

text \<open>C11: The manager's view of the devices is the hub server's: after a connection in which the server welcomes the
  client with its devices and then reports every change, a manager that knew of no device knows exactly the devices whose
  peer is up, each with its latest info, in any order in which a map is visited; one that knew some keeps,
  besides, those that the server did not report as gone in this connection.\<close>

theorem hub_view_tracked:
  assumes "welcomes srv hello" and "history_ok es srv" and "list_all2 carries es msgs"
    and "\<And>xs :: hub_device list. mset (rng xs) = mset xs"
  shows "\<exists>m'. runOnce rng (manager_handler w) (Inr (hello # msgs)) m = Some m' \<and>
    devices m' = (\<lambda>s. if Unplugged s \<in> set es \<or> Removed s \<in> set es then None else devices m s) ++
      ready_view (k_config m) (foldl (\<lambda>srv e. server_step e srv) srv es)"
  using connection_view [OF assms] .

text \<open>Data that parses to nothing, and the messages of an example.\<close>

definition no_data :: raw_data where
  "no_data = \<lparr>size_of = 0, as_devices = Inl ''eof'', into_device = (\<lambda>d. (d, Some ''eof'')), as_info = Inl ''eof'',
     as_battery = Inl ''eof''\<rparr>"

definition hello_msg :: "hub_device list \<Rightarrow> ws_msg" where
  "hello_msg ds = \<lparr>ms_Type = '''', ms_Event = ''welcome'', ms_Device = '''', ms_Platform = '''',
     ms_Data = no_data\<lparr>size_of := 300, as_devices := Inr (map Some ds)\<rparr>\<rparr>"

definition demo_msgs :: "ws_msg list" where
  "demo_msgs =
     [\<lparr>ms_Type = ''DEVICE'', ms_Event = ''ADD'', ms_Device = ''ip13'', ms_Platform = ''ios'', ms_Data = no_data\<rparr>,
      \<lparr>ms_Type = ''INFO'', ms_Event = ''ADD'', ms_Device = ''ip13'', ms_Platform = ''ios'',
        ms_Data = no_data\<lparr>size_of := 20, as_info := Inr (Some [(''model'', Info_text ''iPhone13'')])\<rparr>\<rparr>,
      \<lparr>ms_Type = ''INFO'', ms_Event = ''DELETE'', ms_Device = ''r58m'', ms_Platform = '''', ms_Data = no_data\<rparr>]"

definition demo_events :: "server_event list" where
  "demo_events = [Joined ''ip13'' ''ios'', Informed ''ip13'' [(''model'', Info_text ''iPhone13'')], Unplugged ''r58m'']"

definition demo_server :: server where
  "demo_server = (\<lambda>s. map_option described (map_of (by_serial [demo_hub_device]) s))"

lemma demo_welcome: "welcomes demo_server (hello_msg [demo_hub_device])"
  unfolding welcomes_def demo_server_def
  by (rule conjI, simp add: hello_msg_def, rule exI [of _ "[demo_hub_device]"])
    (simp add: hello_msg_def demo_hub_device_def)

lemma demo_history: "history_ok demo_events demo_server" "list_all2 carries demo_events demo_msgs"
  by (simp_all add: demo_events_def demo_msgs_def demo_server_def by_serial_def demo_hub_device_def about_def no_data_def)

lemma demo_view:
  "ready_view demo_k8s_config (foldl (\<lambda>srv e. server_step e srv) demo_server demo_events) =
    [''ip13'' \<mapsto> hub_adb_device demo_k8s_config (zero_hub_device\<lparr>hd_Serial := ''ip13'', hd_Type := ''ios'',
      hd_Info := Some [(''model'', Info_text ''iPhone13'')]\<rparr>)]"
  by (simp add: fun_eq_iff ready_view_def demo_events_def demo_server_def by_serial_def demo_hub_device_def described_def)

theorem hub_view_tracked_witness:
  "\<exists>m'. runOnce (\<lambda>xs. xs) (manager_handler calm_k8s) (Inr (hello_msg [demo_hub_device] # demo_msgs)) demo_k8s = Some m' \<and>
    devices m' = [''ip13'' \<mapsto> hub_adb_device demo_k8s_config (zero_hub_device\<lparr>hd_Serial := ''ip13'', hd_Type := ''ios'',
      hd_Info := Some [(''model'', Info_text ''iPhone13'')]\<rparr>)]"
proof -
  have new: "devices demo_k8s = (\<lambda>_. None)" "k_config demo_k8s = demo_k8s_config" by (simp_all add: demo_k8s_def NewManager_k8s_def)
  show ?thesis
    using hub_view_tracked [OF demo_welcome demo_history, of "\<lambda>xs. xs" calm_k8s demo_k8s] unfolding demo_view new if_cancel by simp
qed

text \<open>A connection that does not name the serial: it fails, or the server welcomes the client without it and then
  reports its changes, in which it does not join.\<close>

definition unnamed :: "string \<Rightarrow> hub_connection \<Rightarrow> bool" where
  "unnamed s c \<longleftrightarrow> (\<exists>e. c = Inl e) \<or>
     (\<exists>srv hello es msgs. c = Inr (hello # msgs) \<and> welcomes srv hello \<and> history_ok es srv \<and> list_all2 carries es msgs \<and>
        srv s = None \<and> (\<forall>p. Joined s p \<notin> set es))"

lemma never_joined:
  "history_ok es srv \<Longrightarrow> srv s = None \<Longrightarrow> \<forall>p. Joined s p \<notin> set es \<Longrightarrow>
     foldl (\<lambda>srv e. server_step e srv) srv es s = None \<and> Unplugged s \<notin> set es \<and> Removed s \<notin> set es"
proof (induction es arbitrary: srv)
  case (Cons e es)
  have "server_step e srv s = None" using Cons.prems by (cases e) auto
  with Cons show ?case by auto
qed simp

lemma unnamed_run:
  assumes "unnamed s c" and "devices m s = Some d" and "\<And>xs :: hub_device list. mset (rng xs) = mset xs"
  shows "\<exists>m'. runOnce rng (manager_handler w) c m = Some m' \<and> devices m' s = Some d"
  using assms(1) unfolding unnamed_def
proof (elim disjE exE conjE)
  fix srv hello es msgs
  assume c: "c = Inr (hello # msgs)" and h: "welcomes srv hello" "history_ok es srv" "list_all2 carries es msgs"
    and n: "srv s = None" "\<forall>p. Joined s p \<notin> set es"
  from connection_view [OF h assms(3), of w m] never_joined [OF h(2) n] assms(2) show ?thesis
    unfolding c by (auto simp: ready_view_def map_add_def)
qed (use assms(2) in \<open>simp add: runOnce_def\<close>)

lemma retry_creates:
  assumes "devices m s = Some d" and "lists_none w"
  shows "acts (retry_pod w s m) = creation m d # acts m"
proof -
  define m1 where "m1 = m\<lparr>k_trace := sleep (seconds 10) (k_trace m)\<rparr>"
  obtain m2 where m2: "unless_pod w (Serial d) (\<lambda>m. snd (createPod w d m)) m1 = snd (createPod w d m2)"
    "kframe m2 = kframe m1" "acts m2 = acts m1"
    by (rule unless_pod_runs [OF assms(2)])
  have "creation m2 d = creation m d"
    using creation_cong [OF m2(2)] by simp (rule creation_eqI, simp_all add: m1_def)
  then show ?thesis
    using assms(1) m2(1,3) createPod_frame(1) [of w d m2] by (simp add: retry_pod_def m1_def acts_def)
qed

text \<open>C23: A device that vanishes while the client is not connected is never forgotten: over any number of further
  connections, failed ones among them, in which the server neither lists it nor lets it join, the manager goes on knowing it,
  since its \<open>OnWelcome\<close> does nothing. So the goroutine after its last, failed reboot creates a pod for a device
  that is not there.\<close>

theorem vanished_device_stays:
  assumes "devices m s = Some d" and "\<forall>c \<in> set cs. unnamed s c"
    and "\<And>xs :: hub_device list. mset (rng xs) = mset xs" and "lists_none w'"
  shows "\<exists>m'. TrackHubDevices rng (manager_handler w) onReconnect cs m = Some m' \<and> devices m' s = Some d \<and>
    acts (retry_pod w' s m') = creation m' d # acts m'"
proof -
  have "\<exists>m'. Connect rng (manager_handler w) cs m = Some m' \<and> devices m' s = Some d"
    using assms(1,2)
  proof (induction cs arbitrary: m)
    case (Cons c cs)
    obtain m1 where "runOnce rng (manager_handler w) c m = Some m1" "devices m1 s = Some d"
      using unnamed_run [of s c m d rng w, OF _ Cons.prems(1) assms(3)] Cons.prems(2) by auto
    with Cons.IH [of m1] Cons.prems(2) show ?case by simp
  qed simp
  then show ?thesis using retry_creates [OF _ assms(4)] by (auto simp: TrackHubDevices_def)
qed

theorem vanished_device_stays_witness:
  "\<exists>m'. TrackHubDevices (\<lambda>xs. xs) (manager_handler calm_k8s) None
      [Inr [hello_msg []], Inl ''dial'', Inr (hello_msg [demo_hub_device] # demo_msgs)]
      (demo_k8s\<lparr>devices := [''r99'' \<mapsto> hub_adb_device demo_k8s_config (demo_hub_device\<lparr>hd_Serial := ''r99''\<rparr>)]\<rparr>) = Some m' \<and>
    devices m' ''r99'' = Some (hub_adb_device demo_k8s_config (demo_hub_device\<lparr>hd_Serial := ''r99''\<rparr>)) \<and>
    acts (retry_pod calm_k8s ''r99'' m') = creation m' (hub_adb_device demo_k8s_config (demo_hub_device\<lparr>hd_Serial := ''r99''\<rparr>)) # acts m'"
proof (rule vanished_device_stays)
  have 1: "unnamed ''r99'' (Inr [hello_msg []])"
    unfolding unnamed_def by (rule disjI2, intro exI [of _ "\<lambda>_. None"] exI [of _ "hello_msg []"] exI [of _ "[]"])
      (simp add: welcomes_def hello_msg_def by_serial_def)
  have 2: "unnamed ''r99'' (Inr (hello_msg [demo_hub_device] # demo_msgs))"
    unfolding unnamed_def
    by (rule disjI2, intro exI [of _ demo_server] exI [of _ "hello_msg [demo_hub_device]"] exI [of _ demo_events] exI [of _ demo_msgs])
      (use demo_welcome demo_history in \<open>simp add: demo_events_def demo_server_def by_serial_def demo_hub_device_def\<close>)
  have 3: "unnamed ''r99'' (Inl ''dial'')" by (simp add: unnamed_def)
  show "\<forall>c \<in> set [Inr [hello_msg []], Inl ''dial'', Inr (hello_msg [demo_hub_device] # demo_msgs)]. unnamed ''r99'' c"
    using 1 2 3 by simp
qed (simp_all add: calm_lists_none)

text \<open>C12: Whatever the hub server sends over however many connections, and however the peers answer, the manager stays in the
  states of its system: the timers that run are exactly those of the devices that stabilise, one each, so no
  device is stranded by the order of the messages.\<close>

theorem hub_messages_safe:
  assumes "hub_system m T" and "TrackHubDevices rng (manager_handler w) onReconnect cs m = Some m'"
  shows "\<exists>T'. hub_system m' T' \<and> distinct (waiting T') \<and> set (waiting T') = stabilizing m'"
proof -
  have "map_option fst (Connect rng (with_tasks (manager_handler w)) cs (m, T)) = Some m'"
    using assms(2) tp.Connect_part [of rng "manager_handler w" cs "(m, T)"] by (simp add: TrackHubDevices_def)
  then obtain s where s: "Connect rng (with_tasks (manager_handler w)) cs (m, T) = Some s" "fst s = m'" by auto
  have "hub_system (fst s) (snd s)" by (rule tk.Connect_inv [OF s(1)]) (simp add: assms(1))
  with hub_system_inv [OF this] s(2) show ?thesis by auto
qed

lemma demo_connects:
  "TrackHubDevices (\<lambda>xs. xs) (manager_handler calm_k8s) None [Inl ''dial'', Inr [hello_msg [demo_hub_device]]] demo_k8s =
    Some (OnDeviceReady calm_k8s demo_hub_device demo_k8s)"
  by (simp add: TrackHubDevices_def runOnce_def handle_msg_def hello_msg_def on_welcome_def greet_def manager_handler_def
      OnWelcome_def HasInfo_def demo_hub_device_def)

theorem hub_messages_safe_witness:
  "\<exists>T'. hub_system (OnDeviceReady calm_k8s demo_hub_device demo_k8s) T' \<and> distinct (waiting T') \<and>
    set (waiting T') = stabilizing (OnDeviceReady calm_k8s demo_hub_device demo_k8s)"
proof -
  have "hub_system demo_k8s []" unfolding demo_k8s_def by (rule hub_system.new)
  from hub_messages_safe [OF this demo_connects] show ?thesis .
qed

end
