(* ===== verification/Hub_Main.thy ===== *)
theory Hub_Main
  imports Docker_Facts K8s_Manager "HOL-Library.Char_ord" "HOL-Library.List_Lexorder"
begin

text \<open>
  \<open>main.go\<close>: the options and what becomes of them, the APK that has to be there before anything starts, the
  watch loop that turns changes of the device list into reconcile cycles, and the channel by which a
  finished test asks for a cycle.

  The environment is a function from names to values, the empty string for a name that is not set, as
  \<open>os.Getenv\<close> has it. The package \<open>flag\<close> may change every option after its default; the options are a
  record. \<open>log.Fatalf\<close> is an error value. The HTTP server is the theory \<open>Web_Server\<close>; signals and the
  tickers are the order in which the steps are taken.
\<close>

section \<open>Options\<close>

definition envOr :: "(string \<Rightarrow> string) \<Rightarrow> string \<Rightarrow> string \<Rightarrow> string" where
  "envOr e key fallback = (if e key \<noteq> [] then e key else fallback)"

definition envOrInt :: "(string \<Rightarrow> string) \<Rightarrow> string \<Rightarrow> int \<Rightarrow> int" where
  "envOrInt e key fallback =
     (if e key \<noteq> [] then (let (n, ok) = atoi (e key) in if ok then n else fallback) else fallback)"

definition envOrBool :: "(string \<Rightarrow> string) \<Rightarrow> string \<Rightarrow> bool" where
  "envOrBool e key \<longleftrightarrow> e key \<in> {''1'', ''true'', ''yes''}"

definition defaultTestImage :: "string \<Rightarrow> string" where
  "defaultTestImage version =
     (if version = ''dev'' then ''''
      else ''harbor.rnd.lanit.ru/public/hub-test-tests:'' @ trim_prefix version ''v'')"

record options =
  o_watch :: bool
  o_pull :: bool
  o_restartADB :: bool
  o_appiumImage :: string
  o_adbHost :: string
  o_basePort :: int
  o_adbPort :: int
  o_testImage :: string
  o_testBuildCtx :: string
  o_apkPath :: string
  o_apkURL :: string
  o_httpAddr :: string
  o_dbPath :: string
  o_hubURL :: string
  o_hubNamespace :: string
  o_hubClientImage :: string
  o_hubUsbmuxdHost :: string
  o_hubUsbmuxdPort :: string
  o_hubHandshakeSecret :: string
  o_hubTunnelMode :: string
  o_hubNsService :: string
  o_iosTestImage :: string
  o_iosAppiumImage :: string
  o_iosIPAURL :: string
  o_iosBundleID :: string

definition default_apk_url :: string where
  "default_apk_url = ''https://github.com/appium/android-apidemos/releases/download/v6.0.6/ApiDemos-debug.apk''"

definition default_options :: "(string \<Rightarrow> string) \<Rightarrow> string \<Rightarrow> options" where
  "default_options e version =
     \<lparr>o_watch = envOrBool e ''ADBTEST_WATCH'', o_pull = envOrBool e ''ADBTEST_PULL'',
      o_restartADB = envOrBool e ''ADBTEST_RESTART_ADB'',
      o_appiumImage = envOr e ''APPIUM_IMAGE'' ''appium/appium:latest'',
      o_adbHost = envOr e ''ADB_HOST'' ''host.docker.internal'',
      o_basePort = envOrInt e ''APPIUM_BASE_PORT'' 4723, o_adbPort = envOrInt e ''ADB_PORT'' 5037,
      o_testImage = envOr e ''TEST_IMAGE'' (defaultTestImage version),
      o_testBuildCtx = envOr e ''TEST_BUILD_CONTEXT'' '''',
      o_apkPath = envOr e ''ADBTEST_APK'' ''apk/ApiDemos-debug.apk'',
      o_apkURL = envOr e ''ADBTEST_APK_URL'' default_apk_url,
      o_httpAddr = envOr e ''ADBTEST_HTTP_ADDR'' '':8080'',
      o_dbPath = envOr e ''ADBTEST_DB'' ''reports/hub-test.db'',
      o_hubURL = envOr e ''ADBTEST_HUB_URL'' '''', o_hubNamespace = envOr e ''ADBTEST_HUB_NAMESPACE'' ''peer'',
      o_hubClientImage = envOr e ''ADBTEST_HUB_CLIENT_IMAGE'' '''',
      o_hubUsbmuxdHost = envOr e ''ADBTEST_HUB_USBMUXD_HOST'' '''',
      o_hubUsbmuxdPort = envOr e ''ADBTEST_HUB_USBMUXD_PORT'' ''27015'',
      o_hubHandshakeSecret = envOr e ''ADBTEST_HUB_HANDSHAKE_SECRET'' '''',
      o_hubTunnelMode = envOr e ''ADBTEST_HUB_TUNNEL_MODE'' '''',
      o_hubNsService = envOr e ''ADBTEST_HUB_NS_SERVICE'' ''hub-test'',
      o_iosTestImage = envOr e ''IOS_TEST_IMAGE'' '''', o_iosAppiumImage = envOr e ''IOS_APPIUM_IMAGE'' '''',
      o_iosIPAURL = envOr e ''IOS_IPA_URL'' '''', o_iosBundleID = envOr e ''IOS_BUNDLE_ID'' ''''\<rparr>"

text \<open>\<open>filepath.Base\<close> on a path with slashes.\<close>

definition base_name :: "string \<Rightarrow> string" where
  "base_name p =
     (if p = [] then ''.''
      else let s = rev (dropWhile (\<lambda>c. c = CHR ''/'') (rev p))
           in if s = [] then ''/'' else last (split_on (CHR ''/'') s))"

definition docker_config :: "options \<Rightarrow> string \<Rightarrow> config" where
  "docker_config opts apk =
     \<lparr>AppiumImage = o_appiumImage opts, TestImage = o_testImage opts, BasePort = o_basePort opts, c_ADBHost = o_adbHost opts,
      c_ADBPort = o_adbPort opts, APKServeURL = ''http://localhost'' @ o_httpAddr opts @ ''/apk/'' @ base_name apk,
      HubDNS = '''', K8sNamespace = '''', K8sConfig = ''''\<rparr>"

definition hub_config :: "options \<Rightarrow> string \<Rightarrow> k8s_config" where
  "hub_config opts apk =
     \<lparr>k_AppiumImage = o_appiumImage opts, k_TestImage = o_testImage opts, k_IOSTestImage = o_iosTestImage opts,
      k_IOSAppiumImage = o_iosAppiumImage opts, k_IPAServeURL = o_iosIPAURL opts, k_IOSBundleID = o_iosBundleID opts,
      k_HubClientImage = o_hubClientImage opts, k_HubUsbmuxdHost = o_hubUsbmuxdHost opts,
      k_HubUsbmuxdPort = o_hubUsbmuxdPort opts, k_HubHandshakeSecret = o_hubHandshakeSecret opts,
      k_AdbTunnelMode = o_hubTunnelMode opts,
      k_APKServeURL = ''http://'' @ o_hubNsService opts @ ''.'' @ o_hubNamespace opts @ ''.svc.cluster.local'' @
        o_httpAddr opts @ ''/apk/'' @ base_name apk,
      k_HubURL = o_hubURL opts, k_Namespace = o_hubNamespace opts\<rparr>"

section \<open>The APK\<close>

text \<open>The files by name, and what can go wrong with each call. A download that breaks off leaves a part of the
  body in the temporary file. The errors of \<open>Close\<close> and \<open>Remove\<close> are not looked at: \<open>close_keeps\<close> is the number of bytes in
  the file when \<open>Close\<close> could not write out the rest, and with \<open>remove_fails\<close> the temporary file stays. With
  \<open>stat_fails\<close> a file that is there is not seen.\<close>

type_synonym files = "string \<rightharpoonup> string"

record download =
  stat_fails :: bool
  mkdir_error :: "string option"
  http_reply :: "string \<Rightarrow> string + (int \<times> string)"
  create_error :: "string option"
  copy_error :: "string option"
  copied :: nat
  close_keeps :: "nat option"
  rename_error :: "string option"
  remove_fails :: bool

definition closed_file :: "download \<Rightarrow> string \<Rightarrow> string" where
  "closed_file d data = (case close_keeps d of None \<Rightarrow> data | Some n \<Rightarrow> take n data)"

definition remove_file :: "download \<Rightarrow> string \<Rightarrow> files \<Rightarrow> files" where
  "remove_file d f fs = (if remove_fails d then fs else fs(f := None))"

definition ensureAPK :: "download \<Rightarrow> string \<Rightarrow> string \<Rightarrow> files \<Rightarrow> unit res \<times> files" where
  "ensureAPK d path url fs =
     (if fs path \<noteq> None \<and> \<not> stat_fails d then (Inr (), fs)
      else if url = [] then (Inl (''APK not found at '' @ path @ '' and no --apk-url provided''), fs)
      else case mkdir_error d of
        Some e \<Rightarrow> (Inl (''mkdir: '' @ e), fs)
      | None \<Rightarrow>
          (case http_reply d url of
             Inl e \<Rightarrow> (Inl (''get: '' @ e), fs)
           | Inr (status, body) \<Rightarrow>
               if status \<noteq> 200 then (Inl (''HTTP '' @ itoa status @ '' from '' @ url), fs)
               else let tmp = path @ ''.tmp''
                    in case create_error d of
                         Some e \<Rightarrow> (Inl (''create tmp: '' @ e), fs)
                       | None \<Rightarrow>
                           (case copy_error d of
                              Some e \<Rightarrow>
                                (let written = fs(tmp \<mapsto> closed_file d (take (copied d) body))
                                 in (Inl (''write: '' @ e), remove_file d tmp written))
                            | None \<Rightarrow>
                                (let written = fs(tmp \<mapsto> closed_file d body)
                                 in case rename_error d of
                                      Some e \<Rightarrow> (Inl (''rename: '' @ e), remove_file d tmp written)
                                    | None \<Rightarrow> (Inr (), (written(path := written tmp))(tmp := None))))))"

section \<open>The watch loop\<close>

definition deviceSnapshot :: "device list \<Rightarrow> string" where
  "deviceSnapshot ds = join '','' (sort (map (\<lambda>d. Serial d @ ''='' @ State d) ds))"

text \<open>Without devices the list is fetched; both lists are made by appending to nil, so one without devices is
  nil, which ends the function.\<close>

definition reconcileDevices :: "dworld \<Rightarrow> device list \<Rightarrow> manager \<Rightarrow> manager" where
  "reconcileDevices w ds m =
     (if ds = [] then
        let (r, m1) = host (ListDevices w) m
        in case r of
             Inl _ \<Rightarrow> m1
           | Inr ds' \<Rightarrow> if ds' = [] then m1 else snd (Reconcile w ds' m1)
      else snd (Reconcile w ds m))"

text \<open>What \<open>TrackDevices\<close> calls: with a new list, and when it connects again.\<close>

datatype watch_event = Devices dworld "device list" | Reconnected

fun watch_step :: "watch_event \<Rightarrow> string \<times> manager \<Rightarrow> string \<times> manager" where
  "watch_step (Devices w ds) (prev, m) =
     (let snap = deviceSnapshot ds
      in if snap = prev then (prev, m) else (snap, reconcileDevices w ds m))"
| "watch_step Reconnected (prev, m) = ('''', m)"

definition watch_loop :: "dworld \<Rightarrow> watch_event list \<Rightarrow> manager \<Rightarrow> string \<times> manager" where
  "watch_loop w es m = foldl (\<lambda>s e. watch_step e s) ('''', reconcileDevices w [] m) es"

section \<open>Starting\<close>

text \<open>Local mode up to the first cycle: the ADB server restarted, the manager made, the test image built and the
  images pulled, the callbacks set. The configuration that is changed after the manager was made is not the
  one that the manager has copied.\<close>

definition start_local :: "dworld \<Rightarrow> string option \<Rightarrow> options \<Rightarrow> string \<Rightarrow> db option \<Rightarrow> manager res" where
  "start_local w client_error opts apk st =
     (let (adb, tr) = (if o_restartADB opts
                       then (let (r, tr) = EnsureServerListensOnAllInterfaces w [] in (r, sleep (seconds 1) tr)) else (Inr (), []));
          conf = docker_config opts apk; m = NewManager conf w st; m0 = m\<lparr>trace := trace m @ tr\<rparr>;
          tag = (if o_testImage opts = [] then ''hub-test-tests:latest'' else o_testImage opts);
          conf1 = (if o_testBuildCtx opts \<noteq> [] \<and> o_testImage opts = [] then conf\<lparr>TestImage := tag\<rparr> else conf);
          (built, m1) = (if o_testBuildCtx opts \<noteq> [] then BuildTestImage w (o_testBuildCtx opts) tag m0 else (Inr (), m0));
          (pulled, m2) = (if o_pull opts then PullImage w (o_appiumImage opts) m1 else (Inr (), m1));
          (pulled_tests, m3) = (if o_pull opts \<and> TestImage conf1 \<noteq> [] then PullImage w (TestImage conf1) m2 else (Inr (), m2))
      in case adb of
           Inl e \<Rightarrow> Inl (''Failed to restart ADB server: '' @ e)
         | Inr _ \<Rightarrow> (case client_error of
             Some e \<Rightarrow> Inl (''Docker client: '' @ e)
           | None \<Rightarrow> (case built of
               Inl e \<Rightarrow> Inl (''Build test image: '' @ e)
             | Inr _ \<Rightarrow> (case pulled of
                 Inl e \<Rightarrow> Inl (''Pull appium image: '' @ e)
               | Inr _ \<Rightarrow> (case pulled_tests of
                   Inl e \<Rightarrow> Inl (''Pull test image: '' @ e)
                 | Inr _ \<Rightarrow> Inr (SetReconcile (SetNotify m3)))))))"

text \<open>Hub mode: the manager, or why there is none.\<close>

definition start_hub :: "kworld \<Rightarrow> options \<Rightarrow> string \<Rightarrow> db option \<Rightarrow> k8s_manager res" where
  "start_hub w opts apk st =
     (case InClusterClient w (o_hubNamespace opts) [] of
        (Inl e, _) \<Rightarrow> Inl (''K8s in-cluster client: '' @ e)
      | (Inr c, tr) \<Rightarrow> Inr (SetNotify_k8s ((NewManager_k8s c (hub_config opts apk) st)\<lparr>k_trace := tr\<rparr>)))"

section \<open>The reconcile channel\<close>

text \<open>
  The channel holds at most one request; a request that finds it full is dropped. The goroutine behind it
  takes a request, sleeps, takes what has come meanwhile until it sees the channel empty, and runs a cycle.
  The history, newest first, holds the requests and the starts of cycles.
\<close>

datatype phase = Waiting | Sleeping | Draining | Drained | Running
datatype channel_event = Request | Cycle

record channel =
  full :: bool
  phase :: phase
  history :: "channel_event list"

definition new_channel :: channel where
  "new_channel = \<lparr>full = False, phase = Waiting, history = []\<rparr>"

inductive channel_step :: "channel \<Rightarrow> channel \<Rightarrow> bool" where
  request: "channel_step c (c\<lparr>full := True, history := Request # history c\<rparr>)"
| take: "full c \<Longrightarrow> phase c = Waiting \<Longrightarrow> channel_step c (c\<lparr>full := False, phase := Sleeping\<rparr>)"
| wake: "phase c = Sleeping \<Longrightarrow> channel_step c (c\<lparr>phase := Draining\<rparr>)"
| drain: "full c \<Longrightarrow> phase c = Draining \<Longrightarrow> channel_step c (c\<lparr>full := False\<rparr>)"
| empty: "\<not> full c \<Longrightarrow> phase c = Draining \<Longrightarrow> channel_step c (c\<lparr>phase := Drained\<rparr>)"
| run: "phase c = Drained \<Longrightarrow> channel_step c (c\<lparr>phase := Running, history := Cycle # history c\<rparr>)"
| finish: "phase c = Running \<Longrightarrow> channel_step c (c\<lparr>phase := Waiting\<rparr>)"

inductive_cases channel_stepE: "channel_step c c'"

text \<open>A host without devices, for the examples.\<close>

definition silent_world :: dworld where
  "silent_world = demo_world\<lparr>exec_answer := (\<lambda>_ _. (''List of devices attached'', None))\<rparr>"

section \<open>Properties\<close>

text \<open>The three ends of a call.\<close>

lemma ensureAPK_ends:
  assumes "ensureAPK d path url fs = (r, fs')" and "tmp = path @ ''.tmp''"
  shows "r = Inr () \<and> fs' = fs \<and> fs path \<noteq> None \<or>
    (\<exists>e. r = Inl e) \<and> (fs' = fs \<or> (\<exists>x. fs' = remove_file d tmp (fs(tmp \<mapsto> x)))) \<or>
    (\<exists>body. r = Inr () \<and> http_reply d url = Inr (200, body) \<and> copy_error d = None \<and>
       fs' = fs(path \<mapsto> closed_file d body, tmp := None))"
proof (cases "fs path \<noteq> None \<and> \<not> stat_fails d \<or> url = [] \<or> mkdir_error d \<noteq> None \<or> create_error d \<noteq> None \<or>
    (\<forall>body. http_reply d url \<noteq> Inr (200, body))")
  case True
  then have "r = Inr () \<and> fs' = fs \<and> fs path \<noteq> None \<or> (\<exists>e. r = Inl e) \<and> fs' = fs"
    using assms(1) by (auto simp: ensureAPK_def Let_def split: if_splits option.splits sum.splits)
  then show ?thesis by blast
next
  case False
  then obtain body where h: "http_reply d url = Inr (200, body)" by blast
  have up: "path \<noteq> tmp" unfolding assms(2) by simp
  from False have "ensureAPK d path url fs = (case copy_error d of
      Some e \<Rightarrow> (Inl (''write: '' @ e), remove_file d tmp (fs(tmp \<mapsto> closed_file d (take (copied d) body))))
    | None \<Rightarrow> (case rename_error d of
        Some e \<Rightarrow> (Inl (''rename: '' @ e), remove_file d tmp (fs(tmp \<mapsto> closed_file d body)))
      | None \<Rightarrow> (Inr (), fs(path \<mapsto> closed_file d body, tmp := None))))"
    using up h by (auto simp: ensureAPK_def Let_def assms(2) fun_upd_twist split: option.split)
  with assms(1) h show ?thesis
    by (cases "copy_error d"; cases "rename_error d") (simp_all, blast+)
qed



text \<open>C22: No request for a cycle is lost, though the channel drops some: whenever the goroutine waits at an empty
  channel, a cycle was started after the last request.\<close>

theorem no_request_lost:
  assumes "channel_step\<^sup>*\<^sup>* new_channel c"
  shows "(phase c = Waiting \<and> \<not> full c \<longrightarrow> history c = [] \<or> hd (history c) = Cycle) \<and>
    (history c \<noteq> [] \<and> hd (history c) = Request \<longrightarrow> full c \<or> phase c \<in> {Sleeping, Draining, Drained})"
proof -
  have "history c \<noteq> [] \<and> hd (history c) = Request \<longrightarrow> full c \<or> phase c \<in> {Sleeping, Draining, Drained}"
    using assms
  proof (induction rule: rtranclp_induct)
    case (step c c')
    from step.hyps(2) step.IH show ?case by (cases rule: channel_stepE) auto
  qed (simp add: new_channel_def)
  moreover have "x = Request \<or> x = Cycle" for x by (cases x) auto
  ultimately show ?thesis by fastforce
qed

theorem no_request_lost_witness:
  "\<exists>c. channel_step\<^sup>*\<^sup>* new_channel c \<and> phase c = Drained \<and> history c = [Request, Request]"
proof -
  let ?c = "\<lparr>full = False, phase = Drained, history = [Request, Request]\<rparr>"
  have s0: "channel_step new_channel \<lparr>full = True, phase = Waiting, history = [Request]\<rparr>"
    using channel_step.request [of "new_channel"] by (simp add: new_channel_def)
  have s1: "channel_step \<lparr>full = True, phase = Waiting, history = [Request]\<rparr> \<lparr>full = False, phase = Sleeping, history = [Request]\<rparr>"
    using channel_step.take [of "\<lparr>full = True, phase = Waiting, history = [Request]\<rparr>"] by (simp)
  have s2: "channel_step \<lparr>full = False, phase = Sleeping, history = [Request]\<rparr> \<lparr>full = True, phase = Sleeping, history = [Request, Request]\<rparr>"
    using channel_step.request [of "\<lparr>full = False, phase = Sleeping, history = [Request]\<rparr>"] by (simp)
  have s3: "channel_step \<lparr>full = True, phase = Sleeping, history = [Request, Request]\<rparr> \<lparr>full = True, phase = Draining, history = [Request, Request]\<rparr>"
    using channel_step.wake [of "\<lparr>full = True, phase = Sleeping, history = [Request, Request]\<rparr>"] by (simp)
  have s4: "channel_step \<lparr>full = True, phase = Draining, history = [Request, Request]\<rparr> \<lparr>full = False, phase = Draining, history = [Request, Request]\<rparr>"
    using channel_step.drain [of "\<lparr>full = True, phase = Draining, history = [Request, Request]\<rparr>"] by (simp)
  have s5: "channel_step \<lparr>full = False, phase = Draining, history = [Request, Request]\<rparr> \<lparr>full = False, phase = Drained, history = [Request, Request]\<rparr>"
    using channel_step.empty [of "\<lparr>full = False, phase = Draining, history = [Request, Request]\<rparr>"] by (simp)
  have r: "channel_step\<^sup>*\<^sup>* new_channel ?c"
    by (rule converse_rtranclp_into_rtranclp [where r = channel_step, OF s0], rule converse_rtranclp_into_rtranclp [where r = channel_step, OF s1],
        rule converse_rtranclp_into_rtranclp [where r = channel_step, OF s2], rule converse_rtranclp_into_rtranclp [where r = channel_step, OF s3],
        rule converse_rtranclp_into_rtranclp [where r = channel_step, OF s4], rule r_into_rtranclp [where r = channel_step, OF s5])
  from no_request_lost [OF r] r show ?thesis by (intro exI [of _ ?c]) simp
qed

lemma serial_state_inject:
  assumes "CHR ''='' \<notin> set t" and "CHR ''='' \<notin> set t'" and "s @ CHR ''='' # t = s' @ CHR ''='' # t'"
  shows "s = s' \<and> t = t'"
proof -
  from assms(3) obtain us where
    "s = s' @ us \<and> us @ CHR ''='' # t = CHR ''='' # t' \<or> s @ us = s' \<and> CHR ''='' # t = us @ CHR ''='' # t'"
    by (auto simp: append_eq_append_conv2)
  with assms(1,2) show ?thesis by (cases us) auto
qed

definition plain_state :: "device \<Rightarrow> bool" where
  "plain_state d \<longleftrightarrow> CHR '','' \<notin> set (Serial d) \<and> CHR '','' \<notin> set (State d) \<and> CHR ''='' \<notin> set (State d)"

lemma if_inject: "(if p then z else a) = (if q then z else b) \<Longrightarrow> a \<noteq> z \<Longrightarrow> b \<noteq> z \<Longrightarrow> (p \<Longrightarrow> q \<Longrightarrow> a = b) \<Longrightarrow> a = b"
  by (cases p; cases q) auto

lemma snapshot_keys:
  assumes "\<forall>d \<in> set ds. plain_state d" and "\<forall>d \<in> set ds'. plain_state d"
  shows "deviceSnapshot ds = deviceSnapshot ds' \<longleftrightarrow>
    mset (map (\<lambda>d. Serial d @ ''='' @ State d) ds) = mset (map (\<lambda>d. Serial d @ ''='' @ State d) ds')"
    (is "_ \<longleftrightarrow> mset (map ?k ds) = mset (map ?k ds')")
proof
  have split: "split_on (CHR '','') (deviceSnapshot xs) = (if xs = [] then [[]] else sort (map ?k xs))"
    if "\<forall>d \<in> set xs. plain_state d" for xs
  proof (cases "xs = []")
    case False
    then have "length (sort (map ?k xs)) \<noteq> 0" by simp
    then have "sort (map ?k xs) \<noteq> []" unfolding length_0_conv .
    moreover have "CHR '','' \<notin> set p" if "p \<in> set (sort (map ?k xs))" for p
      using that \<open>\<forall>d \<in> set xs. plain_state d\<close> by (auto simp: plain_state_def)
    ultimately show ?thesis using False unfolding deviceSnapshot_def
      by (simp only: if_False) (rule split_on_join)
  qed (simp add: deviceSnapshot_def)
  assume "deviceSnapshot ds = deviceSnapshot ds'"
  then have eq: "(if ds = [] then [[]] else sort (map ?k ds)) = (if ds' = [] then [[]] else sort (map ?k ds'))"
    using split [OF assms(1)] split [OF assms(2)] by simp
  have no: "sort (map ?k xs) \<noteq> [[]]" for xs
  proof
    assume "sort (map ?k xs) = [[]]"
    then have "set (sort (map ?k xs)) = set [[]]" by (rule arg_cong)
    then show False by auto
  qed
  have "sort (map ?k ds) = sort (map ?k ds')"
    by (rule if_inject [OF eq no no]) simp
  then have "mset (sort (map ?k ds)) = mset (sort (map ?k ds'))" by (rule arg_cong)
  then show "mset (map ?k ds) = mset (map ?k ds')" unfolding mset_sort .
next
  assume "mset (map ?k ds) = mset (map ?k ds')"
  then have "sort (map ?k ds) = sort (map ?k ds')" unfolding sorted_list_of_multiset_mset [symmetric] by (rule arg_cong)
  then show "deviceSnapshot ds = deviceSnapshot ds'" by (simp add: deviceSnapshot_def)
qed

text \<open>On lists whose serials and states hold no comma and whose states hold no equals sign, the watch loop
  takes two device lists for the same exactly when they have the same serials with the same states, each as
  often, in whatever order: no such change is missed and no other change starts a cycle.\<close>

theorem snapshot_exact:
  assumes "\<forall>d \<in> set ds. plain_state d" and "\<forall>d \<in> set ds'. plain_state d"
  shows "deviceSnapshot ds = deviceSnapshot ds' \<longleftrightarrow>
    mset (map (\<lambda>d. (Serial d, State d)) ds) = mset (map (\<lambda>d. (Serial d, State d)) ds')"
    (is "_ \<longleftrightarrow> mset (map ?p ds) = mset (map ?p ds')")
proof -
  let ?k = "\<lambda>(s, t). s @ ''='' @ t" and ?A = "{(s, t). CHR ''='' \<notin> set t}"
  have keys: "map (\<lambda>d. Serial d @ ''='' @ State d) xs = map ?k (map ?p xs)" for xs by simp
  have inj: "inj_on ?k ?A"
    by (auto simp: inj_on_def dest: serial_state_inject)
  have undo: "map (inv_into ?A ?k) (map ?k (map ?p xs)) = map ?p xs" if "\<forall>d \<in> set xs. plain_state d" for xs
  proof -
    have "inv_into ?A ?k (?k (?p d)) = ?p d" if "d \<in> set xs" for d
      using that \<open>\<forall>d \<in> set xs. plain_state d\<close> by (intro inv_into_f_f [OF inj]) (simp add: plain_state_def)
    then show ?thesis unfolding map_map o_def by (intro map_cong) auto
  qed
  have "mset (map ?k (map ?p ds)) = mset (map ?k (map ?p ds')) \<longleftrightarrow> mset (map ?p ds) = mset (map ?p ds')"
    (is "?l \<longleftrightarrow> ?r")
  proof
    assume ?l
    then have "mset (map (inv_into ?A ?k) (map ?k (map ?p ds))) = mset (map (inv_into ?A ?k) (map ?k (map ?p ds')))"
      unfolding mset_map [of "inv_into ?A ?k"] by (rule arg_cong)
    then show ?r unfolding undo [OF assms(1)] undo [OF assms(2)] .
  next
    assume ?r
    then show ?l unfolding mset_map [of ?k] by (rule arg_cong)
  qed
  with snapshot_keys [OF assms] show ?thesis unfolding keys by blast
qed

theorem snapshot_exact_witness:
  "deviceSnapshot [zero_device\<lparr>Serial := ''b'', State := ''device''\<rparr>, zero_device\<lparr>Serial := ''a'', State := ''offline''\<rparr>] =
     deviceSnapshot [zero_device\<lparr>Serial := ''a'', State := ''offline''\<rparr>, zero_device\<lparr>Serial := ''b'', State := ''device''\<rparr>] \<and>
   deviceSnapshot [zero_device\<lparr>Serial := ''a'', State := ''device''\<rparr>] \<noteq>
     deviceSnapshot [zero_device\<lparr>Serial := ''a'', State := ''offline''\<rparr>]"
proof -
  let ?a = "zero_device\<lparr>Serial := ''a'', State := ''offline''\<rparr>" and ?b = "zero_device\<lparr>Serial := ''b'', State := ''device''\<rparr>"
    and ?c = "zero_device\<lparr>Serial := ''a'', State := ''device''\<rparr>"
  have "\<forall>d \<in> set [?b, ?a, ?c]. plain_state d" by (simp add: plain_state_def)
  then show ?thesis
    using snapshot_exact [of "[?b, ?a]" "[?a, ?b]"] snapshot_exact [of "[?c]" "[?a]"] by (simp add: add_mset_commute)
qed

text \<open>The last device that goes away is not reconciled away: the change of the list to no devices is seen, but it
  ends before the manager is called and only lists the devices once more, and the next empty list is no
  change any more, so the containers of the device and its event stay as they were.\<close>

theorem last_device_kept:
  assumes "prev \<noteq> ''''" and "fst (ListDevices w (trace m)) = Inr []"
  shows "watch_step (Devices w' []) (watch_step (Devices w []) (prev, m)) =
    ('''', m\<lparr>trace := snd (ListDevices w (trace m))\<rparr>)"
  using assms by (simp add: deviceSnapshot_def reconcileDevices_def host_def split_beta)

theorem last_device_kept_witness:
  "watch_step (Devices silent_world []) (watch_step (Devices silent_world []) (''R58M=device'', demo_manager)) =
    ('''', demo_manager\<lparr>trace := snd (ListDevices silent_world (trace demo_manager))\<rparr>)"
proof -
  have "fst (ListDevices silent_world (trace demo_manager)) = Inr []"
    by (simp add: ListDevices_def exec_def silent_world_def after_first_line_def parseDeviceList_def nl_def)
  then show ?thesis by (intro last_device_kept) simp_all
qed

text \<open>The test image that was built is not the one the manager starts: without a name in the options the manager
  keeps its copy of the configuration, in which the tests are disabled.\<close>

lemma run_steps_cfg: "cfg (snd (BuildTestImage w dir tag m)) = cfg m" "cfg (snd (PullImage w img m)) = cfg m"
  by (simp_all add: BuildTestImage_def PullImage_def host_def emit_def Let_def split_beta)

lemma NewManager_cfg: "cfg (NewManager c w st) = c"
proof -
  have "cfg (foldl (\<lambda>m e. m\<lparr>usbCache := f m e\<rparr>) m0 es) = cfg m0" for f :: "manager \<Rightarrow> device_event \<Rightarrow> _" and m0 es
    by (induction es arbitrary: m0) simp_all
  then show ?thesis by (simp add: NewManager_def emit_def Let_def split: option.splits sum.splits)
qed

theorem test_build_ignored:
  assumes "start_local w client_error opts apk st = Inr m" and "o_testImage opts = ''''"
  shows "TestImage (cfg m) = ''''"
  using assms by (auto simp: start_local_def Let_def split_beta SetReconcile_def SetNotify_def run_steps_cfg
      NewManager_cfg docker_config_def split: sum.splits option.splits if_splits)

end
