(* ===== verification/Web_Server.thy ===== *)
theory Web_Server
  imports Docker_Manager
begin

text \<open>
  \<open>internal/web/server.go\<close>: the handlers of the dashboard, the hub that tells open pages to refresh, and the
  helpers of the template.

  A handler is a function from the request to what it answers and what it leaves behind. JSON and HTML text
  is the library's: an answer holds the value that is encoded, where an empty slice that was never made
  is \<open>null\<close>. The parameters of a request are a function with the empty string for a missing one, as
  \<open>Query().Get\<close> has it; the decoded body is given. The pages themselves are in \<open>Dash_Page\<close>,
  \<open>Dash_Usb\<close> and \<open>Dash_Modal\<close>.
\<close>

section \<open>The hub of open pages\<close>

text \<open>Channels are numbered; each has room for one signal, and \<open>pending\<close> holds those with a signal in them.\<close>

record hub =
  clients :: "nat list"
  pending :: "nat list"
  next_chan :: nat

definition NewHub :: hub where
  "NewHub = \<lparr>clients = [], pending = [], next_chan = 0\<rparr>"

definition subscribe :: "hub \<Rightarrow> nat \<times> hub" where
  "subscribe h = (next_chan h, h\<lparr>clients := next_chan h # clients h, next_chan := next_chan h + 1\<rparr>)"

definition unsubscribe :: "nat \<Rightarrow> hub \<Rightarrow> hub" where
  "unsubscribe ch h = h\<lparr>clients := filter (\<lambda>c. c \<noteq> ch) (clients h)\<rparr>"

definition Notify_hub :: "hub \<Rightarrow> hub" where
  "Notify_hub h = foldr (\<lambda>ch h. if ch \<in> set (pending h) then h else h\<lparr>pending := ch # pending h\<rparr>) (clients h) h"

text \<open>
  \<open>handleEvents\<close> for all pages at once: where each stands, and, newest first, what happened to it since it
  subscribed: the notifications and the events written to it.
\<close>

datatype stand = Unknown | Opened | Idle | Writing | Left
datatype mark = Notified | Wrote string

record pages =
  sse :: hub
  stands :: "nat \<Rightarrow> stand"
  marks :: "nat \<Rightarrow> mark list"

definition no_pages :: pages where
  "no_pages = \<lparr>sse = NewHub, stands = (\<lambda>_. Unknown), marks = (\<lambda>_. [])\<rparr>"

inductive page_step :: "pages \<Rightarrow> pages \<Rightarrow> bool" where
  arrive: "subscribe (sse s) = (ch, h) \<Longrightarrow>
    page_step s (s\<lparr>sse := h, stands := (stands s)(ch := Opened)\<rparr>)"
| greet: "stands s ch = Opened \<Longrightarrow>
    page_step s (s\<lparr>stands := (stands s)(ch := Idle), marks := (marks s)(ch := Wrote ''connected'' # marks s ch)\<rparr>)"
| notify: "page_step s (s\<lparr>sse := Notify_hub (sse s),
    marks := (\<lambda>ch. if ch \<in> set (clients (sse s)) then Notified # marks s ch else marks s ch)\<rparr>)"
| receive: "stands s ch = Idle \<Longrightarrow> ch \<in> set (pending (sse s)) \<Longrightarrow>
    page_step s (s\<lparr>sse := (sse s)\<lparr>pending := remove1 ch (pending (sse s))\<rparr>, stands := (stands s)(ch := Writing)\<rparr>)"
| refresh: "stands s ch = Writing \<Longrightarrow>
    page_step s (s\<lparr>stands := (stands s)(ch := Idle), marks := (marks s)(ch := Wrote ''refresh'' # marks s ch)\<rparr>)"
| leave: "stands s ch = Idle \<Longrightarrow>
    page_step s (s\<lparr>sse := unsubscribe ch (sse s), stands := (stands s)(ch := Left)\<rparr>)"

section \<open>Requests and answers\<close>

record request =
  Path :: string
  Method :: string
  Query :: "string \<Rightarrow> string"
  Body :: "device_config res"

record dashboard =
  db_Runs :: "run list"
  db_Stats :: "device_stats list"
  db_DeviceEvents :: "device_event list"
  db_Devices :: "string list"
  db_Serial :: string
  db_Limit :: int
  db_Period :: string

datatype payload =
    Null
  | Runs "run list" | Stats_of "device_stats list" | Events "device_event list" | Usb_events "usb_event list"
  | Running "running_device list" | Adb_devices "device list" | Usb_devices "usb_device list"
  | Configs "device_config list" | Config device_config | Empty_object

datatype answer =
    Error int string
  | Panic
  | Html dashboard
  | Usb_page
  | Plain string
  | Json payload
  | File string string
  | Event_stream

text \<open>A slice that was only appended to is encoded as \<open>null\<close> when it is empty.\<close>

definition nilable :: "('a list \<Rightarrow> payload) \<Rightarrow> 'a list \<Rightarrow> payload" where
  "nilable enc xs = (if xs = [] then Null else enc xs)"

text \<open>What the database answers: the orders it leaves open, the queries that fail, and the order in which
  Go ranges over the map of the configurations.\<close>

record queries =
  desc_rows :: "string list \<Rightarrow> nat list"
  group_rows :: "string list \<Rightarrow> string list"
  failing :: "string \<Rightarrow> string option"
  no_path :: "string \<Rightarrow> bool"
  no_battery :: "string \<Rightarrow> bool"
  range_configs :: "device_config list \<Rightarrow> device_config list"

section \<open>Parameters\<close>

definition defaultLimit :: int where "defaultLimit = 200"

definition query_limit :: "int \<Rightarrow> string \<Rightarrow> int" where
  "query_limit fallback v =
     (if v \<noteq> [] then (let (n, ok) = atoi v in if ok \<and> n > 0 then n else fallback) else fallback)"

text \<open>
  The zone of the server is a function from instants to offsets. \<open>Truncate\<close> counts from the zero time, so a
  day of \<open>Truncate\<close> is a day of UTC. \<open>AddDate\<close> keeps the reading of the local clock and finds the instant
  again with the offset at the reading taken as UTC, and when there is one, the offset at the instant that
  it gives.
\<close>

definition day :: duration where "day = 86400 * nanos"

definition truncate_day :: "time \<Rightarrow> time" where
  "truncate_day t = t - (t - zero_time) mod day"

definition add_days :: "(time \<Rightarrow> duration) \<Rightarrow> time \<Rightarrow> int \<Rightarrow> time" where
  "add_days off t n =
     (let reading = t + off t + n * day; guess = off reading
      in if guess = 0 then reading else reading - off (reading - guess))"

definition periodBounds :: "(time \<Rightarrow> duration) \<Rightarrow> time \<Rightarrow> string \<Rightarrow> time \<times> time" where
  "periodBounds off t period =
     (let today = truncate_day t
      in if period = ''today'' then (today, zero_time)
         else if period = ''yesterday'' then (add_days off today (- 1), today)
         else if period = ''7d'' then (add_days off t (- 7), zero_time)
         else if period = ''30d'' then (add_days off t (- 30), zero_time)
         else (zero_time, zero_time))"

section \<open>Handlers that read the store\<close>

text \<open>A store that is missing is a nil pointer, whose use panics.\<close>

definition answer_error :: "string \<Rightarrow> answer" where
  "answer_error e = Error 500 e"

definition handleDashboard :: "queries \<Rightarrow> (time \<Rightarrow> duration) \<Rightarrow> time \<Rightarrow> request \<Rightarrow> db option \<Rightarrow> answer" where
  "handleDashboard q off t r st =
     (if Path r \<noteq> ''/'' then Error 404 ''404 page not found''
      else let serial = Query r ''serial''; period = Query r ''period'';
               limit = query_limit defaultLimit (Query r ''limit''); (from, to) = periodBounds off t period
           in case st of
             None \<Rightarrow> Panic
           | Some d \<Rightarrow>
               (case List_runs (desc_rows q) (failing q ''runs'') serial limit from to d of
                  Inl e \<Rightarrow> answer_error e
                | Inr rs \<Rightarrow>
               (case Devices (desc_rows q) (failing q ''devices'') d of
                  Inl e \<Rightarrow> answer_error e
                | Inr serials \<Rightarrow>
               (case Stats (group_rows q) (desc_rows q) (failing q ''stats'') (no_path q) (no_battery q) from to d of
                  Inl e \<Rightarrow> answer_error e
                | Inr stats \<Rightarrow>
               (case ListEvents (desc_rows q) (failing q ''events'') serial 100 d of
                  Inl e \<Rightarrow> answer_error e
                | Inr events \<Rightarrow>
                    Html \<lparr>db_Runs = rs, db_Stats = stats, db_DeviceEvents = events, db_Devices = serials,
                          db_Serial = serial, db_Limit = limit, db_Period = period\<rparr>)))))"

definition handleAPIRuns :: "queries \<Rightarrow> (time \<Rightarrow> duration) \<Rightarrow> time \<Rightarrow> request \<Rightarrow> db option \<Rightarrow> answer" where
  "handleAPIRuns q off t r st =
     (let (from, to) = periodBounds off t (Query r ''period'')
      in case st of
           None \<Rightarrow> Panic
         | Some d \<Rightarrow>
             (case List_runs (desc_rows q) (failing q ''runs'') (Query r ''serial'')
                     (query_limit defaultLimit (Query r ''limit'')) from to d of
                Inl e \<Rightarrow> answer_error e
              | Inr rs \<Rightarrow> Json (nilable Runs rs)))"

definition handleAPIStats :: "queries \<Rightarrow> (time \<Rightarrow> duration) \<Rightarrow> time \<Rightarrow> request \<Rightarrow> db option \<Rightarrow> answer" where
  "handleAPIStats q off t r st =
     (let (from, to) = periodBounds off t (Query r ''period'')
      in case st of
           None \<Rightarrow> Panic
         | Some d \<Rightarrow>
             (case Stats (group_rows q) (desc_rows q) (failing q ''stats'') (no_path q) (no_battery q) from to d of
                Inl e \<Rightarrow> answer_error e
              | Inr stats \<Rightarrow> Json (nilable Stats_of stats)))"

definition handleAPIUSBEvents :: "queries \<Rightarrow> request \<Rightarrow> db option \<Rightarrow> answer" where
  "handleAPIUSBEvents q r st =
     (case st of
        None \<Rightarrow> Panic
      | Some d \<Rightarrow>
          (case ListUSBEvents (desc_rows q) (failing q ''usb_events'') (Query r ''serial'')
                  (query_limit 500 (Query r ''limit'')) d of
             Inl e \<Rightarrow> answer_error e
           | Inr events \<Rightarrow> Json (Usb_events events)))"

definition handleAPIDeviceEvents :: "queries \<Rightarrow> request \<Rightarrow> db option \<Rightarrow> answer" where
  "handleAPIDeviceEvents q r st =
     (case st of
        None \<Rightarrow> Panic
      | Some d \<Rightarrow>
          (case ListEvents (desc_rows q) (failing q ''events'') (Query r ''serial'')
                  (query_limit 100 (Query r ''limit'')) d of
             Inl e \<Rightarrow> answer_error e
           | Inr events \<Rightarrow> Json (nilable Events events)))"

text \<open>The configurations: the only handler that writes.\<close>

definition handleAPIDeviceConfig :: "queries \<Rightarrow> request \<Rightarrow> db option \<Rightarrow> answer \<times> db option" where
  "handleAPIDeviceConfig q r st =
     (case st of
        None \<Rightarrow> (Error 503 ''no store'', st)
      | Some d \<Rightarrow>
          if Method r = ''GET'' then
            (case AllDeviceConfigs (failing q ''configs'') d of
               Inl e \<Rightarrow> (answer_error e, st)
             | Inr m \<Rightarrow>
                 (Json (Configs (range_configs q
                    (map (\<lambda>s. the (m s)) (filter (\<lambda>s. m s \<noteq> None) (remdups (map cfg_Serial (configs d))))))), st))
          else if Method r = ''POST'' then
            (case Body r of
               Inl e \<Rightarrow> (Error 400 e, st)
             | Inr c \<Rightarrow>
                 if cfg_Serial c = [] then (Error 400 ''serial required'', st)
                 else (case SetDeviceConfig (failing q ''set_config'') c d of
                         (Inl e, d') \<Rightarrow> (answer_error e, Some d')
                       | (Inr _, d') \<Rightarrow> (Json (Config c), Some d')))
          else if Method r = ''DELETE'' then
            (let serial = Query r ''serial''
             in if serial = [] then (Error 400 ''serial required'', st)
                else (case DeleteDeviceConfig (failing q ''delete_config'') serial d of
                        (Inl e, d') \<Rightarrow> (answer_error e, Some d')
                      | (Inr _, d') \<Rightarrow> (Json Empty_object, Some d')))
          else (Error 405 ''method not allowed'', st))"

section \<open>Handlers that read the machine\<close>

text \<open>\<open>filepath.Clean\<close> and \<open>filepath.Join\<close>, on paths with slashes.\<close>

definition clean_step :: "bool \<Rightarrow> string list \<Rightarrow> string \<Rightarrow> string list" where
  "clean_step rooted out c =
     (if c = [] \<or> c = ''.'' then out
      else if c = ''..'' then
        (if out \<noteq> [] \<and> last out \<noteq> ''..'' then butlast out else if rooted then out else out @ [c])
      else out @ [c])"

definition path_clean :: "string \<Rightarrow> string" where
  "path_clean p =
     (let rooted = (p \<noteq> [] \<and> hd p = CHR ''/'');
          s = join ''/'' (foldl (clean_step rooted) [] (split_on (CHR ''/'') p))
      in if rooted then CHR ''/'' # s else if s = [] then ''.'' else s)"

definition path_join :: "string list \<Rightarrow> string" where
  "path_join es = (let es' = dropWhile (\<lambda>e. e = []) es in if es' = [] then [] else path_clean (join ''/'' es'))"

definition log_types :: "string list" where "log_types = [''test'', ''appium'', ''hub-client'']"

definition handleAPILog :: "('x, 'm) world_scheme \<Rightarrow> request \<Rightarrow> 'x call list \<Rightarrow> answer \<times> 'x call list" where
  "handleAPILog w r tr =
     (let i = Query r ''id''; typ = Query r ''type''
      in if i = [] \<or> typ \<notin> set log_types then (Error 400 ''bad request'', tr)
         else if \<not> snd (atoi i) then (Error 400 ''invalid id'', tr)
         else let (data, tr1) = read_file w (path_join [''reports'', ''logs'', i, typ @ ''.log'']) tr
              in (case data of Inl _ \<Rightarrow> Error 404 ''not found'' | Inr b \<Rightarrow> Plain b, tr1))"

text \<open>The devices that ADB lists without access; an error of the listing is an empty list.\<close>

definition listed :: "device list res \<Rightarrow> device list" where
  "listed r = (case r of Inl _ \<Rightarrow> [] | Inr ds \<Rightarrow> ds)"

definition handleAPIAdbUnauthorized :: "('x, 'm) world_scheme \<Rightarrow> 'x call list \<Rightarrow> answer \<times> 'x call list" where
  "handleAPIAdbUnauthorized w tr =
     (let (r, tr1) = ListDevices w tr
      in (Json (Adb_devices (filter (\<lambda>d. State d = ''unauthorized'') (listed r))), tr1))"

definition handleAPIUSBDevices :: "('x, 'm) world_scheme \<Rightarrow> 'x call list \<Rightarrow> answer \<times> 'x call list" where
  "handleAPIUSBDevices w tr =
     (let (us, tr1) = USBAndroidDevices w tr; (r, tr2) = ListDevices w tr1
      in (Json (Usb_devices (map (\<lambda>u. if ud_Serial u \<noteq> []
            then u\<lparr>ud_InADB := (ud_Serial u \<in> Serial ` set (listed r))\<rparr> else u) us)), tr2))"

definition handleAPIRunning :: "('s \<Rightarrow> running_device list \<times> 's) option \<Rightarrow> 's \<Rightarrow> answer \<times> 's" where
  "handleAPIRunning RunningFn s =
     (case RunningFn of
        None \<Rightarrow> (Json (Running []), s)
      | Some f \<Rightarrow> (let (ds, s') = f s in (Json (Running ds), s')))"

section \<open>The server\<close>

text \<open>
  The routes of local mode, on the state that the manager shares with the server: the store and the history
  of calls. A path that is no pattern of the mux goes to \<open>/\<close>; the file servers are the library's, and the
  answer names the directory and the rest of the path. The time is the first call of the handlers with a period.
\<close>

definition clocked :: "dworld \<Rightarrow> (time \<Rightarrow> db option \<Rightarrow> answer) \<Rightarrow> manager \<Rightarrow> answer \<times> manager" where
  "clocked w f m = (let (t, m1) = host (now w) m in (f t (store m1), m1))"

definition serve :: "dworld \<Rightarrow> queries \<Rightarrow> (time \<Rightarrow> duration) \<Rightarrow> string \<Rightarrow> request \<Rightarrow> manager \<Rightarrow> answer \<times> manager" where
  "serve w q off apk_dir r m =
     (let p = Path r
      in if p = ''/api/runs'' then clocked w (\<lambda>t. handleAPIRuns q off t r) m
         else if p = ''/api/stats'' then clocked w (\<lambda>t. handleAPIStats q off t r) m
         else if p = ''/api/device-events'' then (handleAPIDeviceEvents q r (store m), m)
         else if p = ''/api/log'' then host (handleAPILog w r) m
         else if p = ''/api/usb-devices'' then host (handleAPIUSBDevices w) m
         else if p = ''/api/adb-unauthorized'' then host (handleAPIAdbUnauthorized w) m
         else if p = ''/api/running'' then handleAPIRunning (Some (RunningDevices w)) m
         else if p = ''/api/usb-events'' then (handleAPIUSBEvents q r (store m), m)
         else if p = ''/api/device-config'' then
           (let (a, st) = handleAPIDeviceConfig q r (store m) in (a, m\<lparr>store := st\<rparr>))
         else if p = ''/usb'' then (Usb_page, m)
         else if p = ''/events'' then (Event_stream, m)
         else if has_prefix p ''/apk/'' then (File apk_dir (trim_prefix p ''/apk/''), m)
         else if has_prefix p ''/logs/'' then (File ''reports/logs'' (trim_prefix p ''/logs/''), m)
         else if p \<noteq> ''/'' then (handleDashboard q off 0 r (store m), m)
         else clocked w (\<lambda>t. handleDashboard q off t r) m)"

section \<open>Helpers of the template\<close>

definition dash :: string where
  "dash = [char_of (0xE2 :: nat), char_of (0x80 :: nat), char_of (0x94 :: nat)]"

definition seconds_ru :: string where "seconds_ru = [char_of (0xD1 :: nat), char_of (0x81 :: nat)]"
definition minutes_ru :: string where "minutes_ru = [char_of (0xD0 :: nat), char_of (0xBC :: nat)]"

definition secs_text :: "int \<Rightarrow> string" where
  "secs_text s =
     (if s < 60 then itoa s @ seconds_ru
      else itoa (quo s 60) @ minutes_ru @ '' '' @ itoa (s - quo s 60 * 60) @ seconds_ru)"

definition fmtSecs :: "float64 \<Rightarrow> string" where
  "fmtSecs secs = (if secs \<le> 0 then dash else secs_text (to_int64 secs))"

definition bootTime :: "run \<Rightarrow> string" where
  "bootTime r = (if \<not> run_BootOK r then dash else secs_text (to_int64 (run_BootSeconds r)))"

definition fmtMs :: "float64 \<Rightarrow> string" where
  "fmtMs ms = (if ms \<le> 0 then dash else fixed1 (fl (ms / 1000)) @ ''s'')"

definition limitOptions :: "int list" where "limitOptions = [50, 100, 200, 500]"

end
