(* ===== verification/Web_Facts.thy ===== *)
theory Web_Facts
  imports Web_Server Docker_Facts
begin

text \<open>
  What the web server promises: a page that is open is told of every change, a log is only read from its own
  directory, the API of the test modes is the map of the settings, and the periods of the run list.
\<close>

section \<open>Refreshing the pages\<close>

lemma pending_Notify:
  "set (pending (Notify_hub h)) = set (pending h) \<union> set (clients h)"
  "clients (Notify_hub h) = clients h" "next_chan (Notify_hub h) = next_chan h"
  "distinct (pending h) \<Longrightarrow> distinct (pending (Notify_hub h))"
proof -
  let ?f = "\<lambda>ch h. if ch \<in> set (pending h) then h else h\<lparr>pending := ch # pending h\<rparr>"
  have "set (pending (foldr ?f cs h)) = set (pending h) \<union> set cs \<and> clients (foldr ?f cs h) = clients h \<and>
    next_chan (foldr ?f cs h) = next_chan h \<and> (distinct (pending h) \<longrightarrow> distinct (pending (foldr ?f cs h)))"
    for cs and h :: hub by (induction cs) auto
  then show "set (pending (Notify_hub h)) = set (pending h) \<union> set (clients h)"
    "clients (Notify_hub h) = clients h" "next_chan (Notify_hub h) = next_chan h"
    "distinct (pending h) \<Longrightarrow> distinct (pending (Notify_hub h))"
    by (simp_all add: Notify_hub_def)
qed

text \<open>A notification that no refresh has followed yet.\<close>

abbreviation stale :: "mark list \<Rightarrow> bool" where
  "stale ms \<equiv> Notified \<in> set (takeWhile (\<lambda>m. m \<noteq> Wrote ''refresh'') ms)"

definition page_ok :: "pages \<Rightarrow> nat \<Rightarrow> bool" where
  "page_ok s ch \<longleftrightarrow>
     (stale (marks s ch) \<longrightarrow> ch \<in> set (pending (sse s)) \<or> stands s ch \<in> {Writing, Left}) \<and>
     count_list (marks s ch) (Wrote ''refresh'') + (if ch \<in> set (pending (sse s)) then 1 else 0) +
       (if stands s ch = Writing then 1 else 0) \<le> count_list (marks s ch) Notified \<and>
     (ch \<in> set (clients (sse s)) \<longleftrightarrow> stands s ch \<in> {Opened, Idle, Writing}) \<and>
     (next_chan (sse s) \<le> ch \<longrightarrow> stands s ch = Unknown \<and> marks s ch = [] \<and> ch \<notin> set (pending (sse s)))"

lemma page_step_ok:
  assumes "page_step s s'" and "\<And>ch. page_ok s ch" and "distinct (pending (sse s))"
  shows "page_ok s' c \<and> distinct (pending (sse s'))"
  using assms(1)
proof (cases rule: page_step.cases)
  case (arrive ch h)
  then have ch: "ch = next_chan (sse s)" and h: "h = (sse s)\<lparr>clients := ch # clients (sse s), next_chan := ch + 1\<rparr>"
    by (auto simp: subscribe_def)
  have "sse s' = h" "stands s' = (stands s)(ch := Opened)" "marks s' = marks s" by (simp_all add: arrive(1))
  note upd = this
  have new: "stands s ch = Unknown" "marks s ch = []" "ch \<notin> set (pending (sse s))"
    using assms(2) [of ch] by (simp_all add: page_ok_def ch)
  show ?thesis
  proof (cases "c = ch")
    case True
    with new assms(3) show ?thesis by (simp add: page_ok_def upd h)
  next
    case False
    with assms(2) [of c] assms(3) show ?thesis unfolding page_ok_def upd h by (simp add: ch)
  qed
next
  case (greet ch)
  with assms(2) [of c] assms(3) show ?thesis by (auto simp: page_ok_def)
next
  case notify
  with assms(2) [of c] assms(3) show ?thesis by (auto simp: page_ok_def pending_Notify)
next
  case (receive ch)
  with assms(2) [of c] assms(3) show ?thesis by (auto simp: page_ok_def)
next
  case (refresh ch)
  with assms(2) [of c] assms(3) show ?thesis by (auto simp: page_ok_def)
next
  case (leave ch)
  have "sse s' = unsubscribe ch (sse s)" "stands s' = (stands s)(ch := Left)" "marks s' = marks s"
    by (simp_all add: leave(1))
  note upd = this
  have "page_ok s' c"
    using assms(2) [of c] leave(2) unfolding page_ok_def upd unsubscribe_def by (cases "c = ch") simp_all
  with assms(3) show ?thesis by (simp add: upd unsubscribe_def)
qed

lemma pages_ok: "page_step\<^sup>*\<^sup>* no_pages s \<Longrightarrow> (\<forall>ch. page_ok s ch) \<and> distinct (pending (sse s))"
proof (induction rule: rtranclp_induct)
  case base
  show ?case by (simp add: no_pages_def NewHub_def page_ok_def)
next
  case (step s s')
  with page_step_ok [OF step.hyps(2)] show ?case by blast
qed

text \<open>C24: A page that is open misses no change, though signals are dropped when its channel is full: whenever it
  waits with an empty channel, a refresh was written to it after the last notification. It is never told to
  refresh more often than there were notifications, and the hub holds exactly the channels of the pages
  that are open, so none leaks.\<close>

theorem pages_refreshed:
  assumes "page_step\<^sup>*\<^sup>* no_pages s"
  shows "(stands s ch = Idle \<and> ch \<notin> set (pending (sse s)) \<longrightarrow>
      Notified \<notin> set (takeWhile (\<lambda>m. m \<noteq> Wrote ''refresh'') (marks s ch))) \<and>
    count_list (marks s ch) (Wrote ''refresh'') \<le> count_list (marks s ch) Notified \<and>
    set (clients (sse s)) = {ch. stands s ch \<in> {Opened, Idle, Writing}}"
proof -
  have "\<forall>ch. page_ok s ch" using pages_ok [OF assms] by blast
  then have "page_ok s ch" and "\<forall>c. c \<in> set (clients (sse s)) \<longleftrightarrow> stands s c \<in> {Opened, Idle, Writing}"
    by (auto simp: page_ok_def)
  then show ?thesis by (auto simp: page_ok_def)
qed

theorem pages_refreshed_witness:
  "\<exists>s. page_step\<^sup>*\<^sup>* no_pages s \<and> marks s 0 = [Notified, Notified, Wrote ''connected''] \<and> 0 \<in> set (pending (sse s)) \<and>
    set (clients (sse s)) = {ch. stands s ch \<in> {Opened, Idle, Writing}}"
proof -
  define s1 where "s1 = no_pages\<lparr>sse := snd (subscribe NewHub), stands := (\<lambda>_. Unknown)(0 := Opened)\<rparr>"
  define s2 where "s2 = s1\<lparr>stands := (stands s1)(0 := Idle), marks := (marks s1)(0 := [Wrote ''connected''])\<rparr>"
  define n where "n = (\<lambda>s :: pages. s\<lparr>sse := Notify_hub (sse s),
    marks := (\<lambda>ch. if ch \<in> set (clients (sse s)) then Notified # marks s ch else marks s ch)\<rparr>)"
  have "page_step no_pages s1"
    using page_step.arrive [of no_pages 0 "snd (subscribe NewHub)"] by (simp add: s1_def no_pages_def NewHub_def subscribe_def)
  moreover have "page_step s1 s2"
    using page_step.greet [of s1 0] by (simp add: s2_def) (simp add: s1_def no_pages_def)
  moreover have "page_step s2 (n s2)" "page_step (n s2) (n (n s2))"
    unfolding n_def by (rule page_step.notify)+
  ultimately have r: "page_step\<^sup>*\<^sup>* no_pages (n (n s2))"
    by (meson rtranclp.rtrancl_into_rtrancl rtranclp.rtrancl_refl)
  moreover have "marks (n (n s2)) 0 = [Notified, Notified, Wrote ''connected'']" "0 \<in> set (pending (sse (n (n s2))))"
    by (simp_all add: n_def pending_Notify s2_def s1_def no_pages_def NewHub_def subscribe_def)
  ultimately show ?thesis using pages_refreshed [OF r] by blast
qed

section \<open>The logs\<close>

lemma clean_parts:
  assumes "\<forall>p \<in> set ps. p \<notin> {[], ''.'', ''..''}"
  shows "foldl (clean_step b) out ps = out @ ps"
  using assms by (induction ps arbitrary: out) (auto simp: clean_step_def)

lemma clean_plain:
  assumes "ps \<noteq> []" and "\<forall>p \<in> set ps. p \<notin> {[], ''.'', ''..''} \<and> CHR ''/'' \<notin> set p"
  shows "path_clean (join ''/'' ps) = join ''/'' ps"
proof -
  have "split_on (CHR ''/'') (join ''/'' ps) = ps" by (rule split_on_join) (use assms in auto)
  moreover have h: "join ''/'' ps \<noteq> [] \<and> hd (join ''/'' ps) \<noteq> CHR ''/''"
  proof (cases ps)
    case (Cons p qs)
    with assms(2) have "p \<noteq> []" and "CHR ''/'' \<notin> set p" by simp_all
    then have "p \<noteq> [] \<and> hd p \<noteq> CHR ''/''" by (cases p) (simp_all add: eq_commute)
    with Cons show ?thesis by (cases qs) auto
  qed (use assms(1) in simp)
  moreover have "foldl (clean_step False) [] ps = ps"
  proof -
    have "\<forall>p \<in> set ps. p \<notin> {[], ''.'', ''..''}" using assms(2) by blast
    from clean_parts [OF this, of False "[]"] show ?thesis unfolding append_Nil .
  qed
  ultimately show ?thesis unfolding path_clean_def Let_def by (simp only: simp_thms if_False)
qed

text \<open>A decimal number: an optional sign and at least one digit.\<close>

definition decimal :: "string \<Rightarrow> bool" where
  "decimal s \<longleftrightarrow> (let b = (if s \<noteq> [] \<and> hd s \<in> {CHR ''-'', CHR ''+''} then tl s else s) in b \<noteq> [] \<and> list_all is_digit b)"

lemma atoi_decimal: "snd (atoi s) \<Longrightarrow> decimal s"
proof -
  let ?b = "if s \<noteq> [] \<and> (hd s = CHR ''-'' \<or> hd s = CHR ''+'') then tl s else s"
  assume "snd (atoi s)"
  then have "all_digits ?b" by (rule contrapos_pp) (simp only: atoi_def Let_def if_True snd_conv not_False_eq_True)
  then show "decimal s" unfolding decimal_def all_digits_def Let_def by simp
qed

lemma decimal_plain:
  assumes "decimal s"
  shows "s \<notin> {[], ''.'', ''..''} \<and> CHR ''/'' \<notin> set s"
proof -
  obtain b where b: "b \<noteq> []" "list_all is_digit b" "s = b \<or> s = CHR ''-'' # b \<or> s = CHR ''+'' # b"
  proof (cases "s \<noteq> [] \<and> hd s \<in> {CHR ''-'', CHR ''+''}")
    case True
    then show ?thesis using assms that [of "tl s"] by (cases s) (auto simp: decimal_def Let_def)
  next
    case False
    then have "s \<noteq> [] \<and> list_all is_digit s" using assms by (auto simp: decimal_def Let_def split: if_splits)
    then show ?thesis using that [of s] by blast
  qed
  have no: "\<not> is_digit CHR ''/''" "\<not> is_digit CHR ''.''" by (simp_all add: is_digit_def code_def)
  then have "CHR ''/'' \<notin> set b" "CHR ''.'' \<notin> set b" using b(2) by (auto simp: list_all_iff)
  with b(1,3) show ?thesis by auto
qed

text \<open>The file of a log, as \<open>saveLogs\<close> names it.\<close>

definition log_file :: "string \<Rightarrow> string \<Rightarrow> string" where
  "log_file i typ = ''reports/logs/'' @ i @ ''/'' @ typ @ ''.log''"

lemma log_path:
  assumes "decimal i" and "typ \<in> set log_types"
  shows "path_join [''reports'', ''logs'', i, typ @ ''.log''] = log_file i typ"
proof -
  have "path_clean (join ''/'' [''reports'', ''logs'', i, typ @ ''.log'']) = join ''/'' [''reports'', ''logs'', i, typ @ ''.log'']"
    by (rule clean_plain) (use decimal_plain [OF assms(1)] assms(2) in \<open>auto simp: log_types_def\<close>)
  then show ?thesis by (simp add: path_join_def log_file_def)
qed

definition log_request :: "string \<Rightarrow> request" where
  "log_request i = \<lparr>Path = ''/api/log'', Method = ''GET'',
     Query = (\<lambda>k. if k = ''id'' then i else if k = ''type'' then ''test'' else ''''), Body = Inl ''EOF''\<rparr>"

text \<open>C21: No request reads a file outside the logs: the handler refuses the request with status 400 and reads nothing,
  or it reads exactly one file, of which the directory is \<open>reports/logs\<close> and a decimal number and the name one
  of the three logs, and answers with its content or status 404. The text of every 64-bit run id is accepted.\<close>

theorem log_path_safe:
  assumes "handleAPILog w r tr = (a, tr')"
  shows "(if Query r ''type'' \<in> set log_types \<and> snd (atoi (Query r ''id''))
     then decimal (Query r ''id'') \<and>
       tr' = Read_file (log_file (Query r ''id'') (Query r ''type'')) # tr \<and>
       a = (case file_answer w tr (log_file (Query r ''id'') (Query r ''type'')) of Inl _ \<Rightarrow> Error 404 ''not found'' | Inr b \<Rightarrow> Plain b)
     else tr' = tr \<and> (\<exists>e. a = Error 400 e)) \<and>
    (\<forall>n. min_int \<le> n \<and> n \<le> max_int \<longrightarrow> snd (atoi (itoa n)))"
proof -
  have "snd (atoi [])" if "Query r ''id'' = []" "snd (atoi (Query r ''id''))" using that by simp
  moreover have "\<not> snd (atoi [])" by (simp add: atoi_def all_digits_def)
  ultimately show ?thesis
    using assms atoi_decimal [of "Query r ''id''"] atoi_itoa
    by (auto simp: handleAPILog_def Let_def read_file_def log_path split: if_splits)
qed

theorem log_path_safe_witness:
  "handleAPILog demo_world (log_request ''../../etc'') [] = (Error 400 ''invalid id'', []) \<and>
   snd (handleAPILog demo_world (log_request ''7'') []) = [Read_file ''reports/logs/7/test.log'']"
proof -
  obtain a tr a' tr' where e: "handleAPILog demo_world (log_request ''../../etc'') [] = (a, tr)"
    "handleAPILog demo_world (log_request ''7'') [] = (a', tr')" by fastforce
  have "\<not> snd (atoi ''../../etc'')" "snd (atoi ''7'')" by code_simp+
  with log_path_safe [OF e(1)] log_path_safe [OF e(2)]
  have "tr = [] \<and> tr' = [Read_file ''reports/logs/7/test.log'']"
    by (simp add: log_request_def log_types_def log_file_def)
  moreover have "handleAPILog demo_world (log_request ''../../etc'') [] = (Error 400 ''invalid id'', [])"
    using \<open>\<not> snd (atoi ''../../etc'')\<close> by (simp add: handleAPILog_def log_request_def log_types_def)
  ultimately show ?thesis using e by simp
qed

section \<open>The test modes\<close>

text \<open>What a request does to the map of the settings, and the status it gets.\<close>

definition config_reply :: "request \<Rightarrow> (string \<rightharpoonup> device_config) \<Rightarrow> int \<times> (string \<rightharpoonup> device_config)" where
  "config_reply r m =
     (if Method r = ''GET'' then (200, m)
      else if Method r = ''POST'' then
        (case Body r of
           Inl _ \<Rightarrow> (400, m)
         | Inr c \<Rightarrow> if cfg_Serial c = '''' then (400, m) else (200, m(cfg_Serial c \<mapsto> c)))
      else if Method r = ''DELETE'' then
        (if Query r ''serial'' = '''' then (400, m) else (200, m(Query r ''serial'' := None)))
      else (405, m))"

definition status_of :: "answer \<Rightarrow> int" where
  "status_of a = (case a of Error n _ \<Rightarrow> n | _ \<Rightarrow> 200)"

lemma configs_listed:
  assumes "wf_db d"
  shows "map (\<lambda>s. the (config_of d s)) (filter (\<lambda>s. config_of d s \<noteq> None) (remdups (map cfg_Serial (configs d)))) = configs d"
proof -
  have dis: "distinct (map cfg_Serial (configs d))" using assms by (simp add: wf_db_def)
  have f: "find (\<lambda>x. cfg_Serial x = cfg_Serial c) cs = Some c" if "distinct (map cfg_Serial cs)" "c \<in> set cs" for c cs
    using that by (induction cs) (auto simp: image_iff)
  have "filter (\<lambda>s. config_of d s \<noteq> None) (map cfg_Serial (configs d)) = map cfg_Serial (configs d)"
    by (rule filter_True) (use f [OF dis] in \<open>auto simp: config_of_def\<close>)
  moreover have "map (\<lambda>s. the (config_of d s)) (map cfg_Serial (configs d)) = configs d"
    by (simp add: map_idI f [OF dis] config_of_def)
  ultimately show ?thesis by (simp only: distinct_remdups_id [OF dis])
qed

lemma config_of_ran: "wf_db d \<Longrightarrow> ran (config_of d) = set (configs d)"
proof -
  assume wf: "wf_db d"
  have "c \<in> set (configs d) \<longleftrightarrow> (\<exists>s. config_of d s = Some c)" for c
  proof
    assume c: "c \<in> set (configs d)"
    have "find (\<lambda>x. cfg_Serial x = cfg_Serial c) cs = Some c" if "distinct (map cfg_Serial cs)" "c \<in> set cs" for cs
      using that by (induction cs) (auto simp: image_iff)
    with wf c show "\<exists>s. config_of d s = Some c" by (auto simp: wf_db_def config_of_def)
  next
    assume "\<exists>s. config_of d s = Some c"
    then show "c \<in> set (configs d)" by (auto simp: config_of_def find_Some_iff)
  qed
  then show "ran (config_of d) = set (configs d)" by (auto simp: ran_def)
qed

lemma config_get:
  assumes "wf_db d" and "Method r = ''GET''" and "failing q ''configs'' = None"
  shows "handleAPIDeviceConfig q r (Some d) = (Json (Configs (range_configs q (configs d))), Some d)"
  using assms by (simp add: handleAPIDeviceConfig_def AllDeviceConfigs_eq configs_listed del: not_None_eq)

lemma config_set:
  assumes "Method r = ''POST''" and "Body r = Inr c" and "cfg_Serial c \<noteq> ''''" and "failing q ''set_config'' = None"
  shows "handleAPIDeviceConfig q r (Some d) = (Json (Config c), Some (snd (SetDeviceConfig None c d)))"
  using assms by (simp add: handleAPIDeviceConfig_def SetDeviceConfig_def)

lemma config_delete:
  assumes "Method r = ''DELETE''" and "Query r ''serial'' \<noteq> ''''" and "failing q ''delete_config'' = None"
  shows "handleAPIDeviceConfig q r (Some d) =
    (Json Empty_object, Some (snd (DeleteDeviceConfig None (Query r ''serial'') d)))"
  using assms by (simp add: handleAPIDeviceConfig_def DeleteDeviceConfig_def)

text \<open>C25: The handler of the test modes implements a map from serials to settings: GET answers every setting once
  and changes nothing, POST sets one, DELETE takes one away, a body that is not JSON or a missing serial is
  status 400 and another method status 405 without a change; and where a query fails the answer is status 500
  with its error and the table is left as it was.\<close>

theorem config_api_refines_map:
  assumes "wf_db d" and "handleAPIDeviceConfig q r (Some d) = (a, st)" and "\<And>cs. mset (range_configs q cs) = mset cs"
  shows "(\<exists>d'. st = Some d' \<and> wf_db d' \<and> (status_of a, config_of d') = config_reply r (config_of d) \<and>
      (Method r = ''GET'' \<longrightarrow> (\<exists>cs. a = Json (Configs cs) \<and> distinct (map cfg_Serial cs) \<and> set cs = ran (config_of d)))) \<or>
    st = Some d \<and> (\<exists>k e. failing q k = Some e \<and> a = Error 500 e)"
proof (cases "\<exists>k e. failing q k = Some e \<and> a = Error 500 e \<and> st = Some d")
  case False
  consider "Method r = ''GET''" | (set) c where "Method r = ''POST''" "Body r = Inr c" "cfg_Serial c \<noteq> ''''"
    | (del) "Method r = ''DELETE''" "Query r ''serial'' \<noteq> ''''"
    | (other) "Method r \<noteq> ''GET''" "\<And>c. Method r = ''POST'' \<Longrightarrow> Body r = Inr c \<Longrightarrow> cfg_Serial c = ''''"
      "Method r = ''DELETE'' \<Longrightarrow> Query r ''serial'' = ''''"
    by blast
  then show ?thesis
  proof cases
    case 1
    with False assms(1,2) have ok: "failing q ''configs'' = None"
      by (cases "failing q ''configs''") (auto simp: handleAPIDeviceConfig_def AllDeviceConfigs_def answer_error_def)
    have "distinct (map cfg_Serial (range_configs q (configs d)))"
      using assms(1) mset_eq_imp_distinct_iff [of "map cfg_Serial (range_configs q (configs d))" "map cfg_Serial (configs d)"]
        assms(3) [of "configs d"] by (simp add: wf_db_def)
    moreover have "set (range_configs q (configs d)) = ran (config_of d)"
      using mset_eq_setD [OF assms(3)] config_of_ran [OF assms(1)] by simp
    ultimately show ?thesis
      using config_get [OF assms(1) 1 ok] assms(1,2) 1 by (auto simp: config_reply_def status_of_def)
  next
    case set
    with False assms(1,2) have ok: "failing q ''set_config'' = None"
      by (cases "failing q ''set_config''") (auto simp: handleAPIDeviceConfig_def SetDeviceConfig_def answer_error_def)
    show ?thesis
      using config_set [OF set ok] assms(1,2) set
      by (auto simp: config_reply_def status_of_def config_of_Set intro: wf_db_SetDeviceConfig)
  next
    case del
    with False assms(1,2) have ok: "failing q ''delete_config'' = None"
      by (cases "failing q ''delete_config''") (auto simp: handleAPIDeviceConfig_def DeleteDeviceConfig_def answer_error_def)
    show ?thesis
      using config_delete [OF del ok] assms(1,2) del
      by (auto simp: config_reply_def status_of_def config_of_Delete intro: wf_db_DeleteDeviceConfig)
  next
    case other
    then show ?thesis
      using assms(1,2) by (auto simp: handleAPIDeviceConfig_def config_reply_def status_of_def split: if_splits sum.splits)
  qed
qed blast

definition demo_queries :: queries where
  "demo_queries = \<lparr>desc_rows = stable_desc, group_rows = (\<lambda>s. s), failing = (\<lambda>_. None), no_path = (\<lambda>_. False),
     no_battery = (\<lambda>_. False), range_configs = rev\<rparr>"

definition set_mode :: request where
  "set_mode = \<lparr>Path = ''/api/device-config'', Method = ''POST'', Query = (\<lambda>_. ''''),
     Body = Inr \<lparr>cfg_Serial = ''R58M'', cfg_TestVID = ''18d1'', cfg_TestPID = ''4ee7''\<rparr>\<rparr>"

theorem config_api_refines_map_witness:
  "\<exists>d. handleAPIDeviceConfig demo_queries set_mode (Some empty_db) = (Json (Config \<lparr>cfg_Serial = ''R58M'', cfg_TestVID = ''18d1'', cfg_TestPID = ''4ee7''\<rparr>), Some d) \<and>
     config_of d ''R58M'' = Some \<lparr>cfg_Serial = ''R58M'', cfg_TestVID = ''18d1'', cfg_TestPID = ''4ee7''\<rparr>"
proof -
  let ?c = "\<lparr>cfg_Serial = ''R58M'', cfg_TestVID = ''18d1'', cfg_TestPID = ''4ee7''\<rparr>"
  obtain a st where e: "handleAPIDeviceConfig demo_queries set_mode (Some empty_db) = (a, st)" by fastforce
  have "a = Json (Config ?c)" using e by (simp add: handleAPIDeviceConfig_def set_mode_def demo_queries_def SetDeviceConfig_def)
  moreover from config_api_refines_map [OF conjunct1 [OF wf_empty_db] e]
  obtain d where "st = Some d" "config_of d = (config_of empty_db)(''R58M'' \<mapsto> ?c)"
    by (auto simp: demo_queries_def config_reply_def set_mode_def)
  ultimately show ?thesis using e by auto
qed

section \<open>The periods of the run list\<close>

lemma add_days_fixed: "add_days (\<lambda>_. z) t n = t + n * day"
  by (simp add: add_days_def Let_def)

lemma truncate_day_eq: "truncate_day t = t div day * day"
proof -
  have "t - zero_time = t + 719162 * day" by (simp add: zero_time_def day_def nanos_def)
  then have "(t - zero_time) mod day = t mod day" by (simp only: mod_mult_self1)
  then show ?thesis by (simp add: truncate_day_def minus_mod_eq_div_mult)
qed

lemma today_bounds: "truncate_day t \<le> t \<and> t < truncate_day t + day"
  using div_bounds [of day t] by (simp add: truncate_day_eq day_def nanos_def mult.commute)

lemma from_second: "a div nanos \<le> x div nanos \<longleftrightarrow> floor_sec a \<le> x"
  by (simp add: floor_sec_def nanos_def) linarith

lemma to_second: "x div nanos \<le> a div nanos \<longleftrightarrow> x < floor_sec a + nanos"
  by (simp add: floor_sec_def nanos_def) linarith

lemma day_second: "floor_sec (k * day) = k * day"
  by (simp add: floor_sec_def nanos_def day_def)

text \<open>The instants that a period takes in at the time \<open>t\<close>, to the second.\<close>

definition covers :: "time \<Rightarrow> string \<Rightarrow> time \<Rightarrow> bool" where
  "covers t period x \<longleftrightarrow>
     (if period = ''today'' then truncate_day t \<le> x
      else if period = ''yesterday'' then truncate_day t - day \<le> x \<and> x < truncate_day t + nanos
      else if period = ''7d'' then floor_sec (t - 7 * day) \<le> x
      else if period = ''30d'' then floor_sec (t - 30 * day) \<le> x
      else True)"

lemma window_covers:
  assumes "31 * day \<le> t" and "year4 t" and "year4 x" and "periodBounds (\<lambda>_. z) t period = (from, to)"
  shows "in_window from to (fmt_rfc3339 x) \<longleftrightarrow> covers t period x"
proof -
  have y: "year4 u" "\<not> is_zero u" if "t - 30 * day \<le> u \<or> truncate_day t - day \<le> u" "u \<le> t" for u
    using that assms(1,2) today_bounds [of t] by (auto simp: year4_def is_zero_def zero_time_def day_def nanos_def)
  have w: "fmt_rfc3339 u \<le> fmt_rfc3339 x \<longleftrightarrow> floor_sec u \<le> x" "fmt_rfc3339 x \<le> fmt_rfc3339 u \<longleftrightarrow> x < floor_sec u + nanos"
    if "t - 30 * day \<le> u \<or> truncate_day t - day \<le> u" "u \<le> t" for u
    using fmt_le_iff [OF y(1) [OF that] assms(3)] fmt_le_iff [OF assms(3) y(1) [OF that]] from_second [of u x] to_second [of x u] by simp_all
  have days: "floor_sec (truncate_day t) = truncate_day t" "floor_sec (truncate_day t - day) = truncate_day t - day"
    using day_second [of "t div day"] day_second [of "t div day - 1"] by (simp_all add: truncate_day_eq algebra_simps)
  have pos: "0 < day" by (simp add: day_def nanos_def)
  show ?thesis
    using assms(4) y [of "truncate_day t"] y [of "truncate_day t - day"] y [of "t - 7 * day"] y [of "t - 30 * day"]
      w [of "truncate_day t"] w [of "truncate_day t - day"] w [of "t - 7 * day"] w [of "t - 30 * day"]
      today_bounds [of t] pos
    by (auto simp: periodBounds_def Let_def add_days_fixed in_window_def covers_def days is_zero_def split: if_splits)
qed

text \<open>C29: In a zone with a fixed offset and with a limit that is not below the number of runs, the run list answers
  exactly the runs of the device that finished in the period, newest first: today is the current day of UTC, yesterday the
  day before and the first second of today, and the other periods go back whole days to the second. So no run falls
  between the periods, and one that ended in the first second of the day is on both lists.\<close>

theorem periods_exact:
  assumes "\<forall>x \<in> set (runs d). year4 (fin x) \<and> row_finished_at x = fmt_rfc3339 (fin x)"
    and "31 * day \<le> t" and "year4 t" and "desc_order (desc_rows q)" and "failing q ''runs'' = None"
    and "int (length (runs d)) \<le> query_limit defaultLimit (Query r ''limit'')"
  shows "\<exists>rs. handleAPIRuns q (\<lambda>_. z) t r (Some d) = Json (nilable Runs rs) \<and>
    mset rs = image_mset scan_run {#x \<in># mset (runs d). (Query r ''serial'' = '''' \<or> row_serial x = Query r ''serial'') \<and>
      covers t (Query r ''period'') (fin x)#} \<and>
    sorted_wrt (\<lambda>a b. run_FinishedAt b \<le> run_FinishedAt a) rs"
proof -
  obtain f u where p: "periodBounds (\<lambda>_. z) t (Query r ''period'') = (f, u)" by fastforce
  let ?sel = "select_runs (Query r ''serial'') f u d"
  let ?rows = "order_by (desc_rows q) row_finished_at ?sel"
  have sel: "?sel = filter (\<lambda>x. (Query r ''serial'' = '''' \<or> row_serial x = Query r ''serial'') \<and>
      covers t (Query r ''period'') (fin x)) (runs d)"
    unfolding select_runs_def using assms(1) window_covers [OF assms(2,3) _ p] by (intro filter_cong) auto
  have m: "mset ?rows = mset ?sel" by (rule mset_order_by [OF assms(4)])
  then have "length ?rows \<le> length (runs d)"
    using mset_eq_length [OF m] length_filter_le [of _ "runs d"] unfolding sel by simp
  then have all: "sql_limit (query_limit defaultLimit (Query r ''limit'')) ?rows = ?rows"
    using assms(6) by (simp add: sql_limit_def)
  have parse: "run_FinishedAt (scan_run x) = floor_sec (fin x)" if "x \<in> set ?rows" for x
  proof -
    from that have "x \<in> set (runs d)" unfolding set_order_by [OF assms(4)] sel by simp
    with assms(1) show ?thesis by (simp add: scan_run_def parse_or_zero_fmt)
  qed
  have "sorted_wrt (\<lambda>a b. row_finished_at b \<le> row_finished_at a) ?rows" by (rule sorted_order_by [OF assms(4)])
  then have "sorted_wrt (\<lambda>a b. floor_sec (fin b) \<le> floor_sec (fin a)) ?rows"
  proof (rule sorted_wrt_mono_rel [rotated])
    fix a b assume ab: "a \<in> set ?rows" "b \<in> set ?rows" and "row_finished_at b \<le> row_finished_at a"
    moreover from ab have "a \<in> set (runs d)" "b \<in> set (runs d)"
      unfolding set_order_by [OF assms(4)] sel by simp_all
    ultimately have "fin b div nanos \<le> fin a div nanos" using assms(1) by (simp add: fmt_le_iff)
    then show "floor_sec (fin b) \<le> floor_sec (fin a)" by (simp add: floor_sec_def nanos_def)
  qed
  then have "sorted_wrt (\<lambda>a b. run_FinishedAt b \<le> run_FinishedAt a) (map scan_run ?rows)"
    unfolding sorted_wrt_map by (rule sorted_wrt_mono_rel [rotated]) (simp add: parse)
  moreover have "handleAPIRuns q (\<lambda>_. z) t r (Some d) = Json (nilable Runs (map scan_run ?rows))"
    by (simp add: handleAPIRuns_def p assms(5) List_runs_def all scanRuns_def)
  moreover have "mset (map scan_run ?rows) = image_mset scan_run {#x \<in># mset (runs d). (Query r ''serial'' = '''' \<or> row_serial x = Query r ''serial'') \<and>
      covers t (Query r ''period'') (fin x)#}"
    unfolding mset_map m unfolding sel mset_filter ..
  ultimately show ?thesis by blast
qed

definition yesterday_request :: request where
  "yesterday_request = \<lparr>Path = ''/api/runs'', Method = ''GET'',
     Query = (\<lambda>k. if k = ''period'' then ''yesterday'' else ''''), Body = Inl ''EOF''\<rparr>"

theorem periods_exact_witness:
  "\<exists>rs. handleAPIRuns demo_queries (\<lambda>_. 0) 1700050000000000000 yesterday_request (Some (snd (Insert None sample_run empty_db))) =
     Json (nilable Runs rs) \<and> map run_ID rs = [1]"
proof -
  let ?d = "snd (Insert None sample_run empty_db)" and ?t = "1700050000000000000 :: int"
  have d: "runs ?d = [row_of_run 1 sample_run]" by (simp add: Insert_def empty_db_def)
  let ?fin = "\<lambda>_ :: run_row. run_FinishedAt sample_run"
  have 1: "\<forall>x \<in> set (runs ?d). year4 (?fin x) \<and> row_finished_at x = fmt_rfc3339 (?fin x)"
    by (simp add: d row_of_run_def year4_def nanos_def) (simp add: sample_run_def)
  have 2: "31 * day \<le> ?t" "year4 ?t" by (simp_all add: day_def year4_def nanos_def)
  have 3: "desc_order (desc_rows demo_queries)" "failing demo_queries ''runs'' = None"
    by (simp_all add: demo_queries_def desc_order_stable)
  have 4: "int (length (runs ?d)) \<le> query_limit defaultLimit (Query yesterday_request ''limit'')"
    by (simp add: d query_limit_def yesterday_request_def defaultLimit_def)
  have c: "covers ?t ''yesterday'' (run_FinishedAt sample_run)"
    by (simp add: covers_def truncate_day_eq day_def nanos_def sample_run_def)
  obtain rs where rs: "handleAPIRuns demo_queries (\<lambda>_. 0) ?t yesterday_request (Some ?d) = Json (nilable Runs rs)"
    "mset rs = image_mset scan_run {#x \<in># mset (runs ?d). (Query yesterday_request ''serial'' = '''' \<or> row_serial x = Query yesterday_request ''serial'') \<and>
      covers ?t (Query yesterday_request ''period'') (?fin x)#}"
    using periods_exact [OF 1 2 3 4, of 0] by blast
  have "mset rs = {#scan_run (row_of_run 1 sample_run)#}"
    using rs(2) c by (simp add: d yesterday_request_def)
  then have "rs = [scan_run (row_of_run 1 sample_run)]" unfolding mset_single_iff .
  then have "map run_ID rs = [run_ID (scan_run (row_of_run 1 sample_run))]" by (simp only: list.map)
  moreover have "run_ID (scan_run x) = row_id x" "row_id (row_of_run i y) = i" for x i y
    by (simp_all add: scan_run_def row_of_run_def)
  ultimately have "map run_ID rs = [1]" by (simp only:)
  then show ?thesis by (intro exI [of _ rs] conjI rs(1))
qed

section \<open>A run on the dashboard\<close>

lemma save_rows:
  assumes "wf_db d" and "rl.save l p r d = (i, d')"
  shows "\<exists>row. runs d' = runs d @ [row] \<and> row_id row = i \<and> row_serial row = run_Serial r \<and>
    row_finished_at row = fmt_rfc3339 (run_FinishedAt r)"
proof -
  let ?i = "runs_seq d + 1"
  note sv = assms(2) [unfolded rl.save_def]
  have i: "i = ?i" using sv by (simp add: Insert_None Let_def)
  have old: "row_id x \<noteq> i" if "x \<in> set (runs d)" for x using assms(1) that by (force simp: wf_db_def i)
  have upd: "runs (update_runs i f e) = runs d @ [f row]" if "runs e = runs d @ [row]" "row_id row = i" for f e row
    using that old by (simp add: update_runs_def map_idI)
  define e where "e = d\<lparr>runs := runs d @ [row_of_run i r], runs_seq := i\<rparr>"
  define row1 where "row1 = (if p then (row_of_run i r)\<lparr>row_has_screenshot := 1\<rparr> else row_of_run i r)"
  define e1 where "e1 = (if p then snd (SetHasScreenshot None i e) else e)"
  have r1: "runs e1 = runs d @ [row1]" "row_id row1 = i"
    using upd [of e "row_of_run i r"] by (simp_all add: e1_def row1_def SetHasScreenshot_def e_def row_of_run_def)
  have "d' = (if l then snd (SetHasLogs None i e1) else e1)"
    using sv by (auto simp: Insert_None Let_def i e_def e1_def)
  then have "runs d' = runs d @ [if l then row1\<lparr>row_has_logs := 1\<rparr> else row1]"
    using upd [OF r1] r1(1) by (simp add: SetHasLogs_def)
  moreover have "row_serial row1 = run_Serial r" "row_finished_at row1 = fmt_rfc3339 (run_FinishedAt r)"
    by (simp_all add: row1_def row_of_run_def)
  ultimately show ?thesis using r1(2) by (intro exI [of _ "if l then row1\<lparr>row_has_logs := 1\<rparr> else row1"]) simp
qed

lemma query_limit_pos: "0 < fallback \<Longrightarrow> 0 < query_limit fallback v"
  by (auto simp: query_limit_def split: prod.splits)

lemma newest_first:
  assumes "desc_order ob" and "x \<in> set xs" and "\<And>y. y \<in> set xs \<Longrightarrow> y \<noteq> x \<Longrightarrow> key y < key x" and "0 < n"
  shows "\<exists>ys. sql_limit n (order_by ob key xs) = x # ys \<and> set ys \<subseteq> set xs"
proof -
  let ?o = "order_by ob key xs"
  have s: "set ?o = set xs" by (rule set_order_by [OF assms(1)])
  with assms(2) obtain y ys where o: "?o = y # ys" by (cases ?o) auto
  have "key x \<le> key y"
    using sorted_order_by [OF assms(1), of key xs] assms(2) s by (auto simp: o)
  moreover have "y \<in> set xs" unfolding s [symmetric] o by simp
  ultimately have "y = x" using assms(3) [of y] by (cases "y = x") auto
  moreover have "set (take k ys) \<subseteq> set xs" for k using s set_take_subset [of k ys] by (auto simp: o)
  ultimately show ?thesis
    using assms(4) by (cases "nat n") (auto simp: sql_limit_def o)
qed

lemma notify_saved:
  assumes "store m = Some d" and "calm w" and "NotifyFn m" and "saveTestResult w s m = (s', m')"
  shows "Other Notify \<in> set (trace m')"
proof -
  have n: "sql_error w tr = None" for tr using assms(2) by (simp add: calm_def)
  obtain i d1 where ins: "Insert None (run_of_summary s) d = (Inr i, d1)" by (auto simp: Insert_def Let_def)
  let ?m1 = "emit Sql (m\<lparr>store := Some d1\<rparr>)"
  have w: "with_db w (\<lambda>e. Insert e (run_of_summary s)) d m = (Inr i, ?m1)" by (simp add: with_db_def n ins)
  let ?m2 = "saveLogs w i (s\<lparr>sm_RunID := i\<rparr>) ?m1"
  have m': "m' = writeFileReport w s' (notify ?m2)" using assms(1,4) w by (auto simp: saveTestResult_def Let_def)
  have "NotifyFn ?m2" using core_eqD(2) [OF core_saveLogs] assms(3) by (simp add: emit_def)
  then show ?thesis by (simp add: m' notify_def writeFileReport_def file_call_def emit_def Let_def)
qed

text \<open>C5: A finished test shows up on the dashboard: once the manager has saved it, the open pages have been told to
  refresh, and what the server then answers for the runs of that device begins with this run, with each value of
  its summary and the flags of its logs and screenshot, whatever the limit, when it is the device's newest.\<close>

theorem run_on_dashboard:
  assumes "calm w" and "store m = Some d" and "wf_db d" and "year4 (sm_FinishedAt s)"
    and "\<forall>x \<in> set (runs d). row_serial x = sm_Serial s \<longrightarrow> row_finished_at x < fmt_rfc3339 (sm_FinishedAt s)"
    and "saveTestResult w s m = (s', m1)" and "desc_order (desc_rows q)" and "failing q ''runs'' = None"
    and "Path r = ''/api/runs''" and "Query r ''serial'' = sm_Serial s" and "Query r ''period'' = ''''" and "sm_Serial s \<noteq> ''''"
  shows "(NotifyFn m \<longrightarrow> Other Notify \<in> set (trace m1)) \<and>
    (\<exists>rs m2. serve w' q off dir r m1 = (Json (Runs
      (\<lparr>run_ID = sm_RunID s', run_Serial = sm_Serial s, run_Model = sm_Model s, run_FinishedAt = floor_sec (sm_FinishedAt s),
        run_Passing = sm_Passing s, run_Failing = sm_Failing s, run_Pending = sm_Pending s, run_Found = sm_Found s,
        run_BootOK = False, run_BootSeconds = 0, run_TotalSeconds =
        Seconds (if is_zero (sm_StartedAt s) then 0 else time_sub (sm_FinishedAt s) (sm_StartedAt s)),
        run_TestSeconds = sm_TestSecs s, run_HasLogs = (sm_TestLog s \<noteq> [] \<or> sm_AppiumLog s \<noteq> []),
        run_HasScreenshot = (sm_Screenshot s \<noteq> []), run_BatteryPct = sm_BatteryPct s, run_BatteryTemp = 0,
        run_UsbPath = sm_UsbPath s, run_SessionMs = sm_SessionMs s, run_ApkMs = sm_ApkMs s\<rparr> # rs)), m2) \<and>
      store m2 = store m1 \<and> (\<forall>x \<in> set rs. run_Serial x = sm_Serial s))"
proof -
  let ?l = "sm_TestLog s \<noteq> [] \<or> sm_AppiumLog s \<noteq> []" and ?p = "sm_Screenshot s \<noteq> []"
  let ?run = "(run_of_summary s)\<lparr>run_ID := sm_RunID s', run_FinishedAt := floor_sec (sm_FinishedAt s),
    run_HasLogs := ?l, run_HasScreenshot := ?p\<rparr>"
  let ?n = "query_limit defaultLimit (Query r ''limit'')"
  obtain i d1 where sv: "rl.save ?l ?p (run_of_summary s) d = (i, d1)" "s' = s\<lparr>sm_RunID := i\<rparr>" "store m1 = Some d1"
    using saveTestResult_store [OF assms(1,2,6)] by blast
  have y: "year4 (run_FinishedAt (run_of_summary s))" using assms(4) by (simp add: run_of_summary_def)
  obtain row where row: "runs d1 = runs d @ [row]" "row_id row = i" "row_serial row = sm_Serial s"
    "row_finished_at row = fmt_rfc3339 (sm_FinishedAt s)"
    using save_rows [OF assms(3) sv(1)] by (auto simp: run_of_summary_def)
  have f: "fetch_run d i = None" "fetch_run d1 i = Some ?run"
    using rl.fetch_save [OF assms(3) y sv(1)] sv(2) by (simp_all add: run_of_summary_def)
  have "find (\<lambda>x. row_id x = i) (runs d) = None" using f(1) by (simp add: fetch_run_def)
  with f(2) have run: "scan_run row = ?run" by (simp add: fetch_run_def row find_append)
  let ?sel = "select_runs (sm_Serial s) zero_time zero_time d1"
  have sel: "?sel = filter (\<lambda>x. row_serial x = sm_Serial s) (runs d) @ [row]"
    using assms(12) by (simp add: select_runs_def row in_window_def is_zero_def)
  obtain ys where ys: "sql_limit ?n (order_by (desc_rows q) row_finished_at ?sel) = row # ys" "set ys \<subseteq> set ?sel"
    using newest_first [OF assms(7), of row ?sel row_finished_at ?n] assms(5) query_limit_pos [of defaultLimit]
    by (auto simp: sel row(4) defaultLimit_def)
  have "handleAPIRuns q off t r (Some d1) = Json (Runs (?run # map scan_run ys))" for t
    using ys(1) assms(8,10,11) run by (simp add: handleAPIRuns_def periodBounds_def List_runs_def scanRuns_def nilable_def)
  moreover have "\<forall>x \<in> set (map scan_run ys). run_Serial x = sm_Serial s"
    using ys(2) row(3) by (auto simp: sel scan_run_def)
  ultimately have "serve w' q off dir r m1 = (Json (Runs (?run # map scan_run ys)), snd (host (now w') m1)) \<and>
      store (snd (host (now w') m1)) = store m1 \<and> (\<forall>x \<in> set (map scan_run ys). run_Serial x = sm_Serial s)"
    by (simp add: serve_def assms(9) clocked_def host_def now_def Let_def sv(3))
  moreover have "NotifyFn m \<longrightarrow> Other Notify \<in> set (trace m1)" using notify_saved [OF assms(2,1) _ assms(6)] by blast
  ultimately show ?thesis unfolding run_of_summary_values by blast
qed

definition runs_request :: "string \<Rightarrow> request" where
  "runs_request serial = \<lparr>Path = ''/api/runs'', Method = ''GET'',
     Query = (\<lambda>k. if k = ''serial'' then serial else ''''), Body = Inl ''EOF''\<rparr>"

theorem run_on_dashboard_witness:
  "\<exists>s' m1 x rs m2. saveTestResult demo_world blank_summary demo_manager = (s', m1) \<and>
     serve demo_world demo_queries (\<lambda>_. 0) ''/apk'' (runs_request ''R58M'') m1 = (Json (Runs (x # rs)), m2) \<and>
     run_Serial x = ''R58M''"
proof -
  obtain s' m1 where s: "saveTestResult demo_world blank_summary demo_manager = (s', m1)" by fastforce
  have y: "year4 (sm_FinishedAt blank_summary)" and ser: "sm_Serial blank_summary = ''R58M''"
    by (simp_all add: blank_summary_def year4_def nanos_def)
  have none: "\<forall>x \<in> set (runs empty_db). row_serial x = sm_Serial blank_summary \<longrightarrow>
      row_finished_at x < fmt_rfc3339 (sm_FinishedAt blank_summary)" by (simp add: empty_db_def)
  have q: "desc_order (desc_rows demo_queries)" "failing demo_queries ''runs'' = None"
    by (simp_all add: demo_queries_def desc_order_stable)
  have r: "Path (runs_request ''R58M'') = ''/api/runs''" "Query (runs_request ''R58M'') ''serial'' = sm_Serial blank_summary"
    "Query (runs_request ''R58M'') ''period'' = ''''" "sm_Serial blank_summary \<noteq> ''''" by (simp_all add: runs_request_def ser)
  note d = run_on_dashboard [OF calm_demo demo_store conjunct1 [OF wf_empty_db] y none s q r,
      of demo_world "\<lambda>_. 0" "''/apk''"]
  obtain x rs m2 where "serve demo_world demo_queries (\<lambda>_. 0) ''/apk'' (runs_request ''R58M'') m1 = (Json (Runs (x # rs)), m2)"
    "run_Serial x = sm_Serial blank_summary"
    by (rule exE [OF conjunct2 [OF d]], elim exE conjE, rule that, assumption, simp)
  with s ser show ?thesis by simp
qed

end
