(* ===== verification/Dash_Page.thy ===== *)
theory Dash_Page
  imports Web_Facts
begin

text \<open>
  The dashboard of \<open>internal/web/server.go\<close> (\<open>dashboardHTML\<close>): the page that the server renders with its template,
  and the script that renders the same parts again from the JSON answers whenever the server says so.

  A page is what of it depends on data: the cells of the table with their class, colour and content, the cards
  of the devices, the counters and what is shown. Layout and fixed texts of the page are left out. \<open>html/template\<close>
  escapes each value for its place, so a value appears as text; the script builds markup, where \<open>esc\<close> makes a
  value text, and one without \<open>esc\<close> is parsed by the browser, \<open>Markup\<close>. A JSON value is the record it was made from; \<open>null\<close> is the
  empty list, which the script takes for the same. A number of seconds is below 2 to the 53, where the script's arithmetic on whole
  seconds is exact; \<open>fl\<close> rounds a quotient. The rate of success is exact, as in the store.
\<close>

section \<open>Texts\<close>

definition utf8 :: "nat list \<Rightarrow> string" where "utf8 ns = map char_of ns"

definition label_na :: string where "label_na = utf8 [0xD0, 0x9D, 0x2F, 0xD0, 0x94]"
definition label_failed :: string where "label_failed = utf8 [0xD0, 0xA3, 0xD0, 0x9F, 0xD0, 0x90, 0xD0, 0x9B]"
definition label_passed :: string where
  "label_passed = utf8 [0xD0, 0x9F, 0xD0, 0xA0, 0xD0, 0x9E, 0xD0, 0xA8, 0xD0, 0x81, 0xD0, 0x9B]"
definition label_test :: string where "label_test = utf8 [0xD1, 0x82, 0xD0, 0xB5, 0xD1, 0x81, 0xD1, 0x82]"
definition label_screen :: string where
  "label_screen = utf8 [0xF0, 0x9F, 0x93, 0xB7, 0x20, 0xD1, 0x81, 0xD0, 0xBA, 0xD1, 0x80, 0xD0, 0xB8, 0xD0, 0xBD]"
definition runs_ru :: string where
  "runs_ru = utf8 [0x20, 0xD0, 0xBF, 0xD1, 0x80, 0xD0, 0xBE, 0xD0, 0xB3, 0xD0, 0xBE, 0xD0, 0xBD, 0xD0, 0xBE, 0xD0, 0xB2]"
definition fell_ru :: string where "fell_ru = utf8 [0x20, 0xD1, 0x83, 0xD0, 0xBF, 0xD0, 0xB0, 0xD0, 0xBB, 0xD0, 0xBE]"
definition records_ru :: string where
  "records_ru = utf8 [0x20, 0xD0, 0xB7, 0xD0, 0xB0, 0xD0, 0xBF, 0xD0, 0xB8, 0xD1, 0x81, 0xD0, 0xB5, 0xD0, 0xB9]"
definition battery_sign :: string where "battery_sign = utf8 [0xF0, 0x9F, 0x94, 0x8B]"
definition thermometer :: string where "thermometer = utf8 [0xF0, 0x9F, 0x8C, 0xA1]"
definition degrees :: string where "degrees = utf8 [0xC2, 0xB0, 0x43]"

definition red :: string where "red = ''#f87171''"
definition green :: string where "green = ''#86efac''"
definition amber :: string where "amber = ''#fbbf24''"
definition grey :: string where "grey = ''#94a3b8''"
definition slate :: string where "slate = ''#64748b''"
definition dim :: string where "dim = ''#475569''"

section \<open>Cells\<close>

text \<open>What a button does: it calls a function on values, or runs code that the page built out of them.\<close>

datatype action =
    OpenLog int string
  | OpenScr int
  | Call string "string list"
  | Code string

datatype part =
    Text string
  | Markup string
  | Badge string string
  | Tinted string string
  | Block string string
  | Button string action string

record cell =
  c_class :: string
  c_colour :: string
  c_parts :: "part list"

definition td :: "string \<Rightarrow> string \<Rightarrow> part list \<Rightarrow> cell" where
  "td cl col ps = \<lparr>c_class = cl, c_colour = col, c_parts = ps\<rparr>"

text \<open>The columns of the head of the table.\<close>

datatype column =
    Time_col | Device_col | Verdict_col | Passing_col | Failing_col | Pending_col | Session_col | Apk_col | Test_col
  | Boot_col | Battery_col | Temperature_col | Usb_col | Logs_col

definition header :: "column list" where
  "header = [Time_col, Device_col, Verdict_col, Passing_col, Failing_col, Pending_col, Session_col, Apk_col, Test_col,
     Boot_col, Battery_col, Temperature_col, Usb_col, Logs_col]"

section \<open>The row that the server renders\<close>

text \<open>\<open>Format("2006-01-02 15:04:05")\<close> of a time in the zone \<open>msk\<close> of the store, three hours ahead.\<close>

definition msk :: duration where "msk = 3 * 3600 * nanos"

definition wall_clock :: "time \<Rightarrow> string" where
  "wall_clock t =
     (let s = (t + msk) div nanos; (y, m, d) = civil (s div 86400 + epoch_days); (hh, mm, ss) = clock_of (s mod 86400)
      in pad_min 4 y @ ''-'' @ pad 2 (nat m) @ ''-'' @ pad 2 (nat d) @ '' '' @
         pad 2 (nat hh) @ '':'' @ pad 2 (nat mm) @ '':'' @ pad 2 (nat ss))"

definition divF :: "int \<Rightarrow> int \<Rightarrow> rat" where "divF a b = fl (of_int a / of_int b)"

definition device_cell :: "run \<Rightarrow> part list" where
  "device_cell r = Block ''mono'' (run_Serial r) # (if run_Model r \<noteq> [] then [Block ''device'' (run_Model r)] else [])"

definition verdict_part :: "run \<Rightarrow> part" where
  "verdict_part r =
     (if \<not> run_Found r then Badge ''na'' label_na
      else if run_Failing r > 0 then Badge ''fail'' label_failed else Badge ''pass'' label_passed)"

definition counted :: "run \<Rightarrow> int \<Rightarrow> part list" where
  "counted r n = [Text (if run_Found r then itoa n else dash)]"

definition level_colour :: "int \<Rightarrow> string" where
  "level_colour p = (if p < 30 then red else if p < 50 then amber else green)"

definition server_row :: "run \<Rightarrow> cell list" where
  "server_row r =
     [td ''mono'' '''' [Text (wall_clock (run_FinishedAt r))],
      td '''' '''' (device_cell r),
      td '''' '''' [verdict_part r],
      td '''' green (counted r (run_Passing r)),
      td '''' (if run_Failing r > 0 then red else slate) (counted r (run_Failing r)),
      td '''' slate (counted r (run_Pending r)),
      td '''' grey [Text (if run_SessionMs r > 0 then fmtSecs (divF (run_SessionMs r) 1000) else dash)],
      td '''' grey [Text (if run_ApkMs r > 0 then fmtSecs (divF (run_ApkMs r) 1000) else dash)],
      td '''' grey [Text (fmtSecs (run_TestSeconds r))],
      td (if run_BootOK r then ''boot-ok'' else ''boot-fail'') '''' [Text (bootTime r)],
      td '''' '''' [if run_BatteryPct r < 0 then Text dash
                   else Tinted (level_colour (run_BatteryPct r)) (itoa (run_BatteryPct r) @ ''%'')],
      td '''' (if run_BatteryTemp r > 40 then red else if run_BatteryTemp r > 35 then amber else grey)
        [Text (if run_BatteryTemp r > 0 then fixed1 (run_BatteryTemp r) @ degrees else dash)],
      td ''mono'' dim [Text (if run_UsbPath r \<noteq> [] then run_UsbPath r else dash)],
      td '''' ''''
        ((if run_HasLogs r
          then [Button ''log-btn'' (OpenLog (run_ID r) ''test'') label_test,
                Button ''log-btn ab'' (OpenLog (run_ID r) ''appium'') ''appium'',
                Button ''log-btn ab'' (OpenLog (run_ID r) ''hub-client'') ''hub-client''] else []) @
         (if run_HasScreenshot r then [Button ''log-btn sc'' (OpenScr (run_ID r)) label_screen] else []) @
         (if \<not> run_HasLogs r \<and> \<not> run_HasScreenshot r then [Text dash] else []))]"

section \<open>The row that the script renders\<close>

definition p2 :: "int \<Rightarrow> string" where
  "p2 n = (if 0 \<le> n \<and> n < 10 then CHR ''0'' # itoa n else itoa n)"

text \<open>\<open>fmtD\<close> shifts the time by three hours and prints it as UTC.\<close>

definition fmtD :: "time \<Rightarrow> string" where
  "fmtD t =
     (let s = (t + 3 * 3600 * nanos) div nanos; (y, m, d) = civil (s div 86400 + epoch_days); (hh, mm, ss) = clock_of (s mod 86400)
      in itoa y @ ''-'' @ p2 m @ ''-'' @ p2 d @ '' '' @ p2 hh @ '':'' @ p2 mm @ '':'' @ p2 ss)"

definition fmtS :: "rat \<Rightarrow> string" where
  "fmtS s =
     (if s \<le> 0 then dash
      else let n = \<lfloor>s\<rfloor> in if n < 60 then itoa n @ seconds_ru else itoa (n div 60) @ minutes_ru @ '' '' @ itoa (n mod 60) @ seconds_ru)"

definition battFmt :: "int \<Rightarrow> part" where
  "battFmt p = (if p \<le> 0 then Text dash else Tinted (level_colour p) (battery_sign @ itoa p @ ''%''))"

definition js_row :: "run \<Rightarrow> cell list" where
  "js_row r =
     (let logs = (if run_HasLogs r
                  then [Button ''log-btn'' (OpenLog (run_ID r) ''test'') label_test,
                        Button ''log-btn ab'' (OpenLog (run_ID r) ''appium'') ''appium''] else []) @
                 (if run_HasScreenshot r then [Button ''log-btn sc'' (OpenScr (run_ID r)) label_screen] else [])
      in [td ''mono'' '''' [Text (fmtD (run_FinishedAt r))],
          td '''' '''' (device_cell r),
          td '''' '''' [verdict_part r],
          td '''' green (counted r (run_Passing r)),
          td '''' (if run_Failing r > 0 then red else slate) (counted r (run_Failing r)),
          td '''' slate (counted r (run_Pending r)),
          td '''' grey [Text (if run_SessionMs r > 0 then fmtS (fl (of_int (run_SessionMs r) / 1000)) else dash)],
          td '''' grey [Text (if run_ApkMs r > 0 then fmtS (fl (of_int (run_ApkMs r) / 1000)) else dash)],
          td '''' grey [Text (fmtS (run_TestSeconds r))],
          td (if run_BootOK r then ''boot-ok'' else ''boot-fail'') '''' [Text (if run_BootOK r then fmtS (run_BootSeconds r) else dash)],
          td '''' '''' [battFmt (run_BatteryPct r)],
          td ''mono'' dim [if run_UsbPath r \<noteq> [] then Markup (run_UsbPath r) else Text dash],
          td '''' '''' (if logs = [] then [Text dash] else logs)])"


section \<open>The cards of the devices\<close>

text \<open>Minimum, average and maximum of a time are texts; the block of the Appium session and of the APK may be missing.
  \<open>k_info\<close> is the element of the class \<open>running-info\<close> with its content, where a card has one;
  \<open>k_mode\<close> is the test mode, which only the script shows, and \<open>k_history\<close> the code behind the button.\<close>

record card =
  k_serial :: string
  k_model :: "string option"
  k_usb :: "string option"
  k_mode :: "(string \<times> string) option"
  k_badge :: part
  k_battery :: part
  k_temperature :: "string option"
  k_fail :: "string \<times> string \<times> string"
  k_rate :: "string \<times> string"
  k_tests :: "string \<times> string \<times> string"
  k_boot :: "string \<times> string \<times> string"
  k_session :: "(string \<times> string \<times> string) option"
  k_apk :: "(string \<times> string \<times> string) option"
  k_info :: "(string \<times> string option) option option"
  k_history :: action

definition some_text :: "string \<Rightarrow> string option" where
  "some_text s = (if s \<noteq> [] then Some s else None)"

definition runs_badge :: "device_stats \<Rightarrow> part" where
  "runs_badge s =
     (if st_FailedRuns s = 0 then Badge ''pass'' (itoa (st_TotalRuns s) @ runs_ru)
      else Badge ''fail'' (itoa (st_FailedRuns s) @ ''/'' @ itoa (st_TotalRuns s) @ fell_ru))"

text \<open>\<open>printf "%.0f"\<close> of a rate, and the comparison \<open>lt\<close> of the template, which on strings goes by their bytes.\<close>

definition fixed0 :: "rat \<Rightarrow> string" where "fixed0 x = itoa (round_even x)"

definition server_rate_colour :: "rat \<Rightarrow> string" where
  "server_rate_colour x = (if fixed0 x < ''80'' then red else if fixed0 x < ''100'' then amber else green)"

definition server_card :: "device_stats \<Rightarrow> card" where
  "server_card s =
     \<lparr>k_serial = st_Serial s, k_model = some_text (st_Model s), k_usb = some_text (st_UsbPath s), k_mode = None,
      k_badge = runs_badge s,
      k_battery = (if st_LastBattery s < 0 then Text dash
                   else Tinted (level_colour (st_LastBattery s)) (battery_sign @ itoa (st_LastBattery s) @ ''%'')),
      k_temperature = (if st_LastBatteryTemp s > 0 then Some (thermometer @ fixed1 (st_LastBatteryTemp s) @ degrees) else None),
      k_fail = (if st_TotalFail s > 0 then red else green, itoa (st_TotalFail s), itoa (st_TotalTests s)),
      k_rate = (server_rate_colour (PassRate s), fixed0 (PassRate s) @ ''%''),
      k_tests = (fmtSecs (st_AvgTest s), fmtSecs (st_MinTest s), fmtSecs (st_MaxTest s)),
      k_boot = (fmtSecs (st_AvgBoot s), fmtSecs (st_MinBoot s), fmtSecs (st_MaxBoot s)),
      k_session = (if st_AvgSession s > 0 then Some (fmtMs (st_AvgSession s), fmtMs (st_MinSession s), fmtMs (st_MaxSession s)) else None),
      k_apk = (if st_AvgApk s > 0 then Some (fmtMs (st_AvgApk s), fmtMs (st_MinApk s), fmtMs (st_MaxApk s)) else None),
      k_info = None, k_history = Call ''openHistory'' [st_Serial s, st_Model s]\<rparr>"

text \<open>\<open>toFixed\<close> takes the larger of two nearest numbers.\<close>

definition to_fixed0 :: "rat \<Rightarrow> string" where "to_fixed0 x = itoa \<lfloor>x + 1 / 2\<rfloor>"

definition to_fixed1 :: "rat \<Rightarrow> string" where
  "to_fixed1 x = (let n = \<lfloor>x * 10 + 1 / 2\<rfloor> in itoa (n div 10) @ ''.'' @ itoa (n mod 10))"

definition js_rate :: "device_stats \<Rightarrow> rat" where
  "js_rate s =
     (if st_TotalTests s \<noteq> 0 then of_int (st_TotalTests s - st_TotalFail s) / of_int (st_TotalTests s) * 100 else 0)"

definition js_rate_colour :: "rat \<Rightarrow> string" where
  "js_rate_colour x = (if x < 80 then red else if x < 100 then amber else green)"

text \<open>A button with texts for arguments: the template writes them as strings of the script, the script puts them
  between quotes as they are. That is the call when they have no quotes, backslashes or ends of line; else it is other
  code, which the first double quote ends, as it ends the attribute.\<close>

definition plain :: "string \<Rightarrow> bool" where
  "plain s = list_all (\<lambda>c. c \<notin> set [CHR 0x22, CHR 0x27, CHR 0x5C, CHR 0x0A, CHR 0x0D]) s"

definition quoted :: "string \<Rightarrow> string" where
  "quoted s = CHR 0x27 # s @ [CHR 0x27]"

definition onclick :: "string \<Rightarrow> string list \<Rightarrow> action" where
  "onclick f args =
     (if list_all plain args then Call f args
      else Code (takeWhile (\<lambda>c. c \<noteq> CHR 0x22) (f @ ''('' @ join '','' (map quoted args) @ '')'')))"

text \<open>The configurations by serial, as the script keeps them.\<close>

definition index_configs :: "device_config list \<Rightarrow> string \<rightharpoonup> device_config" where
  "index_configs cs = foldl (\<lambda>m c. m(cfg_Serial c \<mapsto> c)) Map.empty cs"

definition js_card :: "(string \<rightharpoonup> device_config) \<Rightarrow> device_stats \<Rightarrow> card" where
  "js_card cfgs s =
     \<lparr>k_serial = st_Serial s, k_model = some_text (st_Model s), k_usb = some_text (st_UsbPath s),
      k_mode = (case cfgs (st_Serial s) of
                  Some c \<Rightarrow> if cfg_TestVID c \<noteq> [] then Some (cfg_TestVID c, cfg_TestPID c) else None
                | None \<Rightarrow> None),
      k_badge = runs_badge s, k_battery = battFmt (st_LastBattery s),
      k_temperature = (if st_LastBatteryTemp s > 0 then Some (thermometer @ to_fixed1 (st_LastBatteryTemp s) @ degrees) else None),
      k_fail = (if st_TotalFail s > 0 then red else green, itoa (st_TotalFail s), itoa (st_TotalTests s)),
      k_rate = (js_rate_colour (js_rate s), to_fixed0 (js_rate s) @ ''%''),
      k_tests = (fmtS (st_AvgTest s), fmtS (st_MinTest s), fmtS (st_MaxTest s)),
      k_boot = (fmtS (st_AvgBoot s), fmtS (st_MinBoot s), fmtS (st_MaxBoot s)),
      k_session = (if st_AvgSession s > 0
                   then Some (fmtS (fl (st_AvgSession s / 1000)), fmtS (fl (st_MinSession s / 1000)), fmtS (fl (st_MaxSession s / 1000))) else None),
      k_apk = (if st_AvgApk s > 0
               then Some (fmtS (fl (st_AvgApk s / 1000)), fmtS (fl (st_MinApk s / 1000)), fmtS (fl (st_MaxApk s / 1000))) else None),
      k_info = None, k_history = onclick ''openHistory'' [st_Serial s, st_Model s]\<rparr>"

section \<open>The page\<close>

text \<open>The two lists above the cards hold devices that USB or ADB shows and the cards do not.\<close>

record page =
  pg_count :: string
  pg_empty_shown :: bool
  pg_table_shown :: bool
  pg_rows :: "cell list list"
  pg_panel_shown :: bool
  pg_cards :: "card list"
  pg_unauthorized :: "string list"
  pg_ghosts :: "(string \<times> string option \<times> part \<times> string) list"
  pg_configs :: "string \<rightharpoonup> device_config"

text \<open>The choices of the filter, each with whether it is selected.\<close>

definition toolbar :: "dashboard \<Rightarrow> (string \<times> bool) list \<times> (string \<times> bool) list \<times> (int \<times> bool) list \<times> bool" where
  "toolbar d =
     (('''', db_Serial d = '''') # map (\<lambda>s. (s, s = db_Serial d)) (db_Devices d),
      map (\<lambda>p. (p, p = db_Period d)) ['''', ''today'', ''yesterday'', ''7d'', ''30d''],
      map (\<lambda>n. (n, n = db_Limit d)) limitOptions,
      db_Serial d \<noteq> [])"

definition server_page :: "dashboard \<Rightarrow> page" where
  "server_page d =
     \<lparr>pg_count = itoa (int (length (db_Runs d))) @ records_ru, pg_empty_shown = (db_Runs d = []),
      pg_table_shown = (db_Runs d \<noteq> []), pg_rows = map server_row (db_Runs d), pg_panel_shown = (db_Stats d \<noteq> []),
      pg_cards = map server_card (db_Stats d), pg_unauthorized = [], pg_ghosts = [], pg_configs = Map.empty\<rparr>"

definition renderTable :: "run list \<Rightarrow> page \<Rightarrow> page" where
  "renderTable rs p =
     (let p1 = p\<lparr>pg_count := itoa (int (length rs)) @ records_ru\<rparr>
      in if rs = [] then p1\<lparr>pg_table_shown := False, pg_empty_shown := True\<rparr>
         else p1\<lparr>pg_empty_shown := False, pg_table_shown := True, pg_rows := map js_row rs\<rparr>)"

definition renderStats :: "device_stats list \<Rightarrow> page \<Rightarrow> page" where
  "renderStats ss p =
     (if ss = [] then p\<lparr>pg_panel_shown := False\<rparr>
      else p\<lparr>pg_panel_shown := True, pg_cards := map (js_card (pg_configs p)) ss\<rparr>)"

definition renderUnauthorized :: "device list \<Rightarrow> page \<Rightarrow> page" where
  "renderUnauthorized ds p = p\<lparr>pg_unauthorized := map Serial ds\<rparr>"

text \<open>A device without an ADB connection: its name, its serial, its ids and its port.\<close>

definition ghost :: "usb_device \<Rightarrow> string \<times> string option \<times> part \<times> string" where
  "ghost d =
     (if ud_Product d \<noteq> [] then ud_Product d else if ud_Vendor d \<noteq> [] then ud_Vendor d else ud_VID d @ '':'' @ ud_PID d,
      some_text (ud_Serial d), Markup (ud_VID d @ '':'' @ ud_PID d), ud_Path d)"

definition renderUSBDevices :: "usb_device list \<Rightarrow> page \<Rightarrow> page" where
  "renderUSBDevices ds p = p\<lparr>pg_ghosts := map ghost (filter (\<lambda>d. \<not> ud_InADB d) ds)\<rparr>"

text \<open>\<open>applyRunning\<close> writes how long the containers of a device have been running into the element of its card, if there is one.
  A time in JSON is never an empty text, so only \<open>has_test\<close> decides whether the test has an age.\<close>

definition hours_ru :: string where "hours_ru = utf8 [0xD1, 0x87]"

definition elapsed :: "time \<Rightarrow> time \<Rightarrow> string" where
  "elapsed clk t =
     (let s = max 0 ((clk div 1000000 - t div 1000000) div 1000)
      in if s < 60 then itoa s @ seconds_ru
         else if s < 3600 then itoa (s div 60) @ minutes_ru @ '' '' @ itoa (s mod 60) @ seconds_ru
         else itoa (s div 3600) @ hours_ru @ '' '' @ itoa (s mod 3600 div 60) @ minutes_ru)"

definition index_running :: "running_device list \<Rightarrow> string \<rightharpoonup> running_device" where
  "index_running ds = foldl (\<lambda>m d. m(rd_Serial d \<mapsto> d)) Map.empty ds"

definition running_info :: "time \<Rightarrow> running_device \<Rightarrow> string \<times> string option" where
  "running_info clk d =
     (elapsed clk (rd_AppiumStartedAt d), if rd_HasTest d then Some (elapsed clk (rd_TestStartedAt d)) else None)"

definition applyRunning :: "time \<Rightarrow> running_device list \<Rightarrow> page \<Rightarrow> page" where
  "applyRunning clk ds p =
     p\<lparr>pg_cards := map (\<lambda>c. if k_info c = None then c
         else c\<lparr>k_info := Some (map_option (running_info clk) (index_running ds (k_serial c)))\<rparr>) (pg_cards p)\<rparr>"

text \<open>\<open>refresh\<close>: what each request answers, \<open>None\<close> for one that fails or is not OK.\<close>

record answers =
  an_runs :: "run list option"
  an_stats :: "device_stats list option"
  an_usb :: "usb_device list option"
  an_unauthorized :: "device list option"
  an_running :: "running_device list option"
  an_configs :: "device_config list option"

definition refresh_lists :: "answers \<Rightarrow> page \<Rightarrow> page" where
  "refresh_lists a p =
     (let p1 = (case (an_runs a, an_stats a) of (Some rs, Some ss) \<Rightarrow> renderStats ss (renderTable rs p) | _ \<Rightarrow> p);
          p2 = (case an_usb a of Some ds \<Rightarrow> renderUSBDevices ds p1 | None \<Rightarrow> p1)
      in (case an_unauthorized a of Some ds \<Rightarrow> renderUnauthorized ds p2 | None \<Rightarrow> p2))"

definition refresh_page :: "time \<Rightarrow> answers \<Rightarrow> page \<Rightarrow> page" where
  "refresh_page clk a p =
     (let p3 = refresh_lists a p;
          p4 = (case an_running a of Some ds \<Rightarrow> applyRunning clk ds p3 | None \<Rightarrow> p3)
      in (case an_configs a of Some cs \<Rightarrow> p4\<lparr>pg_configs := index_configs cs\<rparr> | None \<Rightarrow> p4))"


text \<open>No page that the server or the script renders has a card with the element that \<open>applyRunning\<close> looks for.\<close>

definition no_info :: "page \<Rightarrow> bool" where
  "no_info p = list_all (\<lambda>c. k_info c = None) (pg_cards p)"

lemma applyRunning_idle: "no_info p \<Longrightarrow> applyRunning clk ds p = p"
proof -
  assume p: "no_info p"
  have "map (\<lambda>c. if k_info c = None then c
         else c\<lparr>k_info := Some (map_option (running_info clk) (index_running ds (k_serial c)))\<rparr>) (pg_cards p) = pg_cards p"
    using p unfolding no_info_def by (intro map_idI) (simp add: list_all_iff)
  then show ?thesis unfolding applyRunning_def by simp
qed

lemma no_info_server: "no_info (server_page d)"
  by (simp add: no_info_def server_page_def server_card_def list_all_iff)

lemma no_info_render: "no_info p \<Longrightarrow> no_info (renderTable rs p)" "no_info p \<Longrightarrow> no_info (renderStats ss p)"
  "no_info p \<Longrightarrow> no_info (renderUSBDevices us p)" "no_info p \<Longrightarrow> no_info (renderUnauthorized vs p)"
  by (simp_all add: no_info_def renderTable_def renderStats_def renderUSBDevices_def renderUnauthorized_def js_card_def list_all_iff Let_def)

lemma no_info_lists: "no_info p \<Longrightarrow> no_info (refresh_lists a p)"
  by (simp add: refresh_lists_def no_info_render Let_def split: option.split)

lemma refresh_lists_frame [simp]: "refresh_lists (a\<lparr>an_running := x\<rparr>) p = refresh_lists a p"
  by (simp add: refresh_lists_def)

lemma refresh_idle:
  assumes "no_info p"
  shows "refresh_page clk a p =
    (case an_configs a of Some cs \<Rightarrow> (refresh_lists a p)\<lparr>pg_configs := index_configs cs\<rparr> | None \<Rightarrow> refresh_lists a p)"
  using applyRunning_idle [OF no_info_lists [OF assms]] by (simp add: refresh_page_def Let_def split: option.split)

lemma refresh_no_info: "no_info p \<Longrightarrow> no_info (refresh_page clk a p)"
  using no_info_lists [of p a] by (simp add: refresh_idle no_info_def split: option.split)

section \<open>The two ways to render agree on\<close>

lemma fmtS_fmtSecs: "s < 2 ^ 53 \<Longrightarrow> fmtS s = fmtSecs s"
proof -
  assume s: "s < 2 ^ 53"
  show ?thesis
  proof (cases "s \<le> 0")
    case False
    then have "0 \<le> \<lfloor>s\<rfloor>" "\<lfloor>s\<rfloor> < 2 ^ 53" using s by (simp_all add: floor_less_iff)
    then have "to_int64 s = \<lfloor>s\<rfloor>" using False by (simp add: to_int64_def min_int_def max_int_def)
    moreover have "quo n 60 = n div 60" "n - n div 60 * 60 = n mod 60" if "0 \<le> n" for n
      using that by (simp_all add: quo_def minus_div_mult_eq_mod)
    ultimately show ?thesis using False \<open>0 \<le> \<lfloor>s\<rfloor>\<close>
      by (simp add: fmtS_def fmtSecs_def secs_text_def Let_def)
  qed (simp add: fmtS_def fmtSecs_def)
qed

lemma show_nat_step: "\<not> n < 10 \<Longrightarrow> show_nat n = show_nat (n div 10) @ [digit_char (n mod 10)]"
  and show_nat_one: "n < 10 \<Longrightarrow> show_nat n = [digit_char n]"
  by (subst show_nat.simps, simp)+

lemma two_digits: "0 \<le> n \<Longrightarrow> n < 100 \<Longrightarrow> p2 n = pad 2 (nat n)"
proof -
  assume n: "0 \<le> n" "n < 100"
  have zero: "digit_char 0 = CHR ''0''" by code_simp
  have pad: "pad 2 k = [digit_char (k div 10 mod 10), digit_char (k mod 10)]" for k by (simp add: numeral_2_eq_2)
  show ?thesis
  proof (cases "n < 10")
    case True
    with n have "nat n div 10 = 0" "nat n mod 10 = nat n" "nat n < 10" by simp_all
    then show ?thesis using n True by (simp add: p2_def itoa_def show_nat_one pad zero)
  next
    case False
    with n have "nat n div 10 < 10" "\<not> nat n < 10" by simp_all
    then show ?thesis using n False by (simp add: p2_def itoa_def show_nat_step show_nat_one pad)
  qed
qed

lemma year_digits: "1000 \<le> y \<Longrightarrow> y \<le> 9999 \<Longrightarrow> itoa y = pad_min 4 y"
proof -
  assume y: "1000 \<le> y" "y \<le> 9999"
  define n where "n = nat y"
  have n: "1000 \<le> n" "n < 10000" "y = int n" using y by (simp_all add: n_def)
  define a b c where "a = n div 10" and "b = a div 10" and "c = b div 10"
  have "\<not> n < 10" "\<not> a < 10" "\<not> b < 10" "c < 10" using n by (simp_all add: a_def b_def c_def)
  then have "show_nat n = [digit_char c, digit_char (b mod 10), digit_char (a mod 10), digit_char (n mod 10)]"
    using show_nat_step [of n] show_nat_step [of a] show_nat_step [of b] show_nat_one [of c]
    by (simp only: a_def [symmetric] b_def [symmetric] c_def [symmetric] append.simps simp_thms)
  moreover have "pad 4 n = [digit_char (c mod 10), digit_char (b mod 10), digit_char (a mod 10), digit_char (n mod 10)]"
  proof -
    have "(4 :: nat) = Suc (Suc (Suc (Suc 0)))" by simp
    then show ?thesis by (simp only: pad.simps a_def b_def c_def append.simps)
  qed
  ultimately show ?thesis using n \<open>c < 10\<close> by (simp add: itoa_def pad_min_def Let_def)
qed

lemma fmtD_wall_clock:
  assumes "1000 \<le> year_of ((t + msk) div nanos div 86400 + epoch_days)"
    and "year_of ((t + msk) div nanos div 86400 + epoch_days) \<le> 9999"
  shows "fmtD t = wall_clock t"
proof -
  define s where "s = (t + msk) div nanos"
  obtain y m d where c: "civil (s div 86400 + epoch_days) = (y, m, d)" by (metis prod_cases3)
  obtain hh mm ss where k: "clock_of (s mod 86400) = (hh, mm, ss)" by (metis prod_cases3)
  have y: "y = year_of (s div 86400 + epoch_days)" "1 \<le> m" "m \<le> 12" "1 \<le> d" "d \<le> month_lens (leap y) ! nat (m - 1)"
    using civil_spec [OF c] by blast+
  have "nat (m - 1) < 12" using y(2,3) by simp
  then have "month_lens (leap y) ! nat (m - 1) \<le> 31"
    using month_lens_le [of "nat (m - 1)"] by simp
  moreover have "0 \<le> s mod 86400" "s mod 86400 < 86400" by simp_all
  from clock_of_spec [OF k this] have "0 \<le> hh" "hh \<le> 23" "0 \<le> mm" "mm \<le> 59" "0 \<le> ss" "ss \<le> 59" by simp_all
  ultimately have "p2 m = pad 2 (nat m)" "p2 d = pad 2 (nat d)" "p2 hh = pad 2 (nat hh)" "p2 mm = pad 2 (nat mm)" "p2 ss = pad 2 (nat ss)"
    using y by (simp_all add: two_digits)
  moreover have "itoa y = pad_min 4 y" using assms unfolding s_def [symmetric] y(1) [symmetric] by (rule year_digits)
  ultimately show ?thesis unfolding fmtD_def wall_clock_def Let_def msk_def [symmetric] s_def [symmetric] c k case_prod_conv by simp
qed


text \<open>The colour of a rate goes by the text of its whole percentage.\<close>

lemma percent_colours:
  assumes "0 \<le> n" and "n \<le> 100"
  shows "(if itoa n < ''80'' then red else if itoa n < ''100'' then amber else green) =
    (if n = 9 \<or> 80 \<le> n \<and> n < 100 then green else red)"
proof -
  have "list_all (\<lambda>n. (if itoa n < ''80'' then red else if itoa n < ''100'' then amber else green) =
      (if n = 9 \<or> 80 \<le> n \<and> n < 100 then green else red)) [0..100]" by code_simp
  with assms show ?thesis by (simp add: list_all_iff)
qed

lemma round_even_bounds: "of_int a \<le> x \<Longrightarrow> x \<le> of_int b \<Longrightarrow> a \<le> round_even x \<and> round_even x \<le> b"
proof -
  assume x: "of_int a \<le> x" "x \<le> of_int b"
  have f: "a \<le> \<lfloor>x\<rfloor>" "\<lfloor>x\<rfloor> \<le> b" using x by (simp_all add: le_floor_iff floor_le_iff)
  show ?thesis
  proof (cases "\<lfloor>x\<rfloor> = b")
    case True
    then have "x - of_int \<lfloor>x\<rfloor> \<le> 0" using x by simp
    then show ?thesis using f by (simp add: round_even_def Let_def)
  next
    case False
    then show ?thesis using f by (auto simp: round_even_def Let_def)
  qed
qed

section \<open>Properties\<close>

text \<open>The colours of the success rate compare texts, not numbers: whatever the rate of a device, the server paints it green
  exactly when it is nine percent or at least eighty and below a hundred, and red otherwise, never yellow. So a device
  whose tests all pass is shown red with its 100 percent, until the script renders the card and paints it green.\<close>

theorem rate_colours_by_text:
  assumes "0 \<le> st_TotalFail s" and "st_TotalFail s \<le> st_TotalTests s"
  shows "fst (k_rate (server_card s)) = (let n = round_even (PassRate s) in if n = 9 \<or> 80 \<le> n \<and> n < 100 then green else red) \<and>
    (st_TotalTests s \<noteq> 0 \<and> st_TotalFail s = 0 \<longrightarrow>
      k_rate (server_card s) = (red, ''100%'') \<and> k_rate (js_card cfgs s) = (green, ''100%''))"
proof -
  have "0 \<le> PassRate s \<and> PassRate s \<le> 100"
    using assms by (cases "st_TotalTests s = 0") (simp_all add: PassRate_def field_simps)
  then have "of_int 0 \<le> PassRate s" "PassRate s \<le> of_int 100" by simp_all
  then have "0 \<le> round_even (PassRate s)" "round_even (PassRate s) \<le> 100" using round_even_bounds by blast+
  then have 1: "fst (k_rate (server_card s)) = (let n = round_even (PassRate s) in if n = 9 \<or> 80 \<le> n \<and> n < 100 then green else red)"
    by (simp only: server_card_def card.simps fst_conv server_rate_colour_def fixed0_def percent_colours Let_def)
  have "k_rate (server_card s) = (red, ''100%'') \<and> k_rate (js_card cfgs s) = (green, ''100%'')"
    if "st_TotalTests s \<noteq> 0" "st_TotalFail s = 0"
  proof -
    have "PassRate s = 100" "js_rate s = 100" using that by (simp_all add: PassRate_def js_rate_def)
    moreover have "server_rate_colour 100 = red" "fixed0 100 = ''100''" "to_fixed0 100 = ''100''" "js_rate_colour 100 = green" by code_simp+
    ultimately show ?thesis by (simp add: server_card_def js_card_def)
  qed
  with 1 show ?thesis by blast
qed


text \<open>Else a refresh agrees with what the server renders: on the same data, the counter, what is shown and what is hidden,
  the number of rows and, but for the colour of the rate, the test mode and the texts of the sessions, the card of each device
  whose battery level is known and not zero.\<close>

theorem refresh_agrees:
  assumes "an_runs a = Some (db_Runs d)" and "an_stats a = Some (db_Stats d)"
    and "\<And>s. s \<in> set (db_Stats d) \<Longrightarrow> st_AvgTest s < 2 ^ 53 \<and> st_MinTest s < 2 ^ 53 \<and> st_MaxTest s < 2 ^ 53 \<and>
      st_AvgBoot s < 2 ^ 53 \<and> st_MinBoot s < 2 ^ 53 \<and> st_MaxBoot s < 2 ^ 53 \<and> st_LastBattery s \<noteq> 0"
  shows "pg_count (refresh_page clk a (server_page d)) = pg_count (server_page d) \<and>
    pg_table_shown (refresh_page clk a (server_page d)) = pg_table_shown (server_page d) \<and>
    pg_empty_shown (refresh_page clk a (server_page d)) = pg_empty_shown (server_page d) \<and>
    pg_panel_shown (refresh_page clk a (server_page d)) = pg_panel_shown (server_page d) \<and>
    length (pg_rows (refresh_page clk a (server_page d))) = length (pg_rows (server_page d)) \<and>
    list_all2 (\<lambda>c c'. k_serial c = k_serial c' \<and> k_model c = k_model c' \<and> k_usb c = k_usb c' \<and> k_badge c = k_badge c' \<and>
        k_battery c = k_battery c' \<and> k_fail c = k_fail c' \<and> k_tests c = k_tests c' \<and> k_boot c = k_boot c')
      (pg_cards (refresh_page clk a (server_page d))) (pg_cards (server_page d))"
proof -
  let ?p = "renderStats (db_Stats d) (renderTable (db_Runs d) (server_page d))"
  have frame: "f (refresh_page clk a (server_page d)) = f ?p"
    if "\<And>p x. f (p\<lparr>pg_unauthorized := x\<rparr>) = f p" "\<And>p x. f (p\<lparr>pg_ghosts := x\<rparr>) = f p" "\<And>p x. f (p\<lparr>pg_configs := x\<rparr>) = f p" for f :: "page \<Rightarrow> 'b"
    using assms(1,2) that
    by (simp add: refresh_idle [OF no_info_server] refresh_lists_def renderUSBDevices_def renderUnauthorized_def Let_def split: option.split)
  have card: "k_serial (js_card c s) = k_serial (server_card s)" "k_model (js_card c s) = k_model (server_card s)"
    "k_usb (js_card c s) = k_usb (server_card s)" "k_badge (js_card c s) = k_badge (server_card s)"
    "k_fail (js_card c s) = k_fail (server_card s)" for c s by (simp_all add: js_card_def server_card_def)
  have "k_battery (js_card c s) = k_battery (server_card s)" "k_tests (js_card c s) = k_tests (server_card s)"
    "k_boot (js_card c s) = k_boot (server_card s)" if "s \<in> set (db_Stats d)" for c s
    using assms(3) [OF that] by (auto simp: js_card_def server_card_def battFmt_def fmtS_fmtSecs)
  with card have "list_all2 (\<lambda>c c'. k_serial c = k_serial c' \<and> k_model c = k_model c' \<and> k_usb c = k_usb c' \<and> k_badge c = k_badge c' \<and>
        k_battery c = k_battery c' \<and> k_fail c = k_fail c' \<and> k_tests c = k_tests c' \<and> k_boot c = k_boot c')
      (pg_cards ?p) (map server_card (db_Stats d))"
    by (auto simp: renderStats_def server_page_def renderTable_def Let_def list_all2_conv_all_nth)
  then show ?thesis
    using frame [of pg_count] frame [of pg_table_shown] frame [of pg_empty_shown] frame [of pg_panel_shown]
      frame [of pg_rows] frame [of pg_cards]
    by (simp add: renderStats_def renderTable_def server_page_def Let_def)
qed


text \<open>However often the page refreshes and whatever the server answers on the running containers, the page is the same as if it
  had never answered: no card has the element that the times are written to, in the page of the server or of the script.\<close>

theorem running_never_shown:
  "foldl (\<lambda>p (clk, a). refresh_page clk a p) (server_page d) as =
   foldl (\<lambda>p (clk, a). refresh_page clk (a\<lparr>an_running := None\<rparr>) p) (server_page d) as"
proof -
  have "foldl (\<lambda>p (clk, a). refresh_page clk a p) p as = foldl (\<lambda>p (clk, a). refresh_page clk (a\<lparr>an_running := None\<rparr>) p) p as"
    if "no_info p" for p
    using that
  proof (induction as arbitrary: p)
    case (Cons x as)
    obtain clk a where x: "x = (clk, a)" by (cases x)
    have "no_info (refresh_page clk a p)" "refresh_page clk (a\<lparr>an_running := None\<rparr>) p = refresh_page clk a p"
      using Cons.prems refresh_no_info
      by (blast, simp add: refresh_idle split: option.split)
    then show ?case using Cons.IH by (simp add: x)
  qed simp
  then show ?thesis using no_info_server by blast
qed



section \<open>The properties at an example\<close>

definition some_stats :: device_stats where
  "some_stats =
     \<lparr>st_Serial = ''R58M'', st_Model = ''SM-A515F'', st_TotalRuns = 3, st_FailedRuns = 0, st_TotalTests = 30, st_TotalFail = 0,
      st_AvgBoot = 40, st_MinBoot = 35, st_MaxBoot = 61, st_AvgTest = 200, st_MinTest = 190, st_MaxTest = 210,
      st_AvgSetup = 5, st_MinSetup = 4, st_MaxSetup = 6, st_UsbPath = ''1-2'', st_LastBattery = 80, st_LastBatteryTemp = 30,
      st_AvgSession = 0, st_MinSession = 0, st_MaxSession = 0, st_AvgApk = 0, st_MinApk = 0, st_MaxApk = 0\<rparr>"

definition some_run :: run where
  "some_run =
     \<lparr>run_ID = 7, run_Serial = ''R58M'', run_Model = ''SM-A515F'', run_FinishedAt = 1700000000 * nanos, run_Passing = 10, run_Failing = 0,
      run_Pending = 0, run_Found = True, run_BootOK = True, run_BootSeconds = 40, run_TotalSeconds = 250, run_TestSeconds = 200,
      run_HasLogs = True, run_HasScreenshot = True, run_BatteryPct = 80, run_BatteryTemp = 30, run_UsbPath = ''1-2'',
      run_SessionMs = 4000, run_ApkMs = 2500\<rparr>"

lemma rate_colours_by_text_witness:
  "fst (k_rate (server_card some_stats)) = red \<and> k_rate (js_card Map.empty some_stats) = (green, ''100%'')"
  using rate_colours_by_text [of some_stats Map.empty] by (simp add: some_stats_def)


lemma refresh_agrees_witness:
  "let d = \<lparr>db_Runs = [some_run], db_Stats = [some_stats], db_DeviceEvents = [], db_Devices = [''R58M''], db_Serial = '''', db_Limit = 100,
             db_Period = ''''\<rparr>;
       a = \<lparr>an_runs = Some [some_run], an_stats = Some [some_stats], an_usb = None, an_unauthorized = None, an_running = None,
            an_configs = None\<rparr>
   in pg_count (refresh_page 0 a (server_page d)) = ''1'' @ records_ru \<and> pg_table_shown (refresh_page 0 a (server_page d)) \<and>
      length (pg_rows (refresh_page 0 a (server_page d))) = 1"
proof -
  have one: "itoa 1 = ''1''" by code_simp
  show ?thesis
    using refresh_agrees [of "\<lparr>an_runs = Some [some_run], an_stats = Some [some_stats], an_usb = None, an_unauthorized = None, an_running = None,
            an_configs = None\<rparr>" "\<lparr>db_Runs = [some_run], db_Stats = [some_stats], db_DeviceEvents = [], db_Devices = [''R58M''], db_Serial = '''',
            db_Limit = 100, db_Period = ''''\<rparr>" 0]
    by (simp add: some_stats_def server_page_def one Let_def)
qed

end
