(* ===== verification/Dash_Usb.thy ===== *)
theory Dash_Usb
  imports Dash_Page
begin

text \<open>
  The page of the USB events of \<open>internal/web/server.go\<close> (\<open>usbPageHTML\<close>): its state, the filter, the rows, the test mode of a
  device set and taken back by a button, and the requests that it makes of the server.

  A request is answered by a function \<open>srv\<close>, with \<open>Inl\<close> the text of the exception when \<open>fetch\<close> fails; \<open>served\<close> is the
  server of the model. Each operation runs with its requests to the end: how answers overtake each other is the matter of
  \<open>Dash_Modal\<close>. The script's \<open>toLowerCase\<close> knows the letters of all alphabets, as the browser's version of Unicode has them, and
  is an argument \<open>lc\<close>; the database's \<open>LIKE\<close> knows those of ASCII.
\<close>

section \<open>Texts\<close>

definition appeared_ru :: string where
  "appeared_ru = utf8 [0xD0, 0xBF, 0xD0, 0xBE, 0xD1, 0x8F, 0xD0, 0xB2, 0xD0, 0xB8, 0xD0, 0xBB, 0xD1, 0x81, 0xD1, 0x8F]"
definition mode_ru :: string where
  "mode_ru = utf8 [0xD1, 0x81, 0xD0, 0xBC, 0xD0, 0xB5, 0xD0, 0xBD, 0xD0, 0xB0, 0x20, 0xD1, 0x80, 0xD0, 0xB5, 0xD0, 0xB6, 0xD0, 0xB8, 0xD0, 0xBC, 0xD0, 0xB0]"
definition created_ru :: string where
  "created_ru = utf8 [0x20, 0xD1, 0x81, 0xD0, 0xBE, 0xD0, 0xB7, 0xD0, 0xB4, 0xD0, 0xB0, 0xD0, 0xBD]"
definition whale :: string where "whale = utf8 [0xF0, 0x9F, 0x90, 0xB3, 0x20]"
definition tube :: string where "tube = utf8 [0xF0, 0x9F, 0xA7, 0xAA, 0x20]"
definition removed_ru :: string where
  "removed_ru = utf8 [0xF0, 0x9F, 0x97, 0x91, 0x20, 0xD0, 0xBA, 0xD0, 0xBE, 0xD0, 0xBD, 0xD1, 0x82, 0xD0, 0xB5, 0xD0, 0xB9, 0xD0, 0xBD,
     0xD0, 0xB5, 0xD1, 0x80, 0xD1, 0x8B, 0x20, 0xD1, 0x83, 0xD0, 0xB4, 0xD0, 0xB0, 0xD0, 0xBB, 0xD0, 0xB5, 0xD0, 0xBD, 0xD1, 0x8B]"
definition gone_ru :: string where "gone_ru = utf8 [0xD0, 0xB8, 0xD1, 0x81, 0xD1, 0x87, 0xD0, 0xB5, 0xD0, 0xB7]"
definition use_ru :: string where
  "use_ru = utf8 [0xD0, 0xB8, 0xD1, 0x81, 0xD0, 0xBF, 0xD0, 0xBE, 0xD0, 0xBB, 0xD1, 0x8C, 0xD0, 0xB7, 0xD0, 0xBE, 0xD0, 0xB2, 0xD0, 0xB0, 0xD1, 0x82, 0xD1, 0x8C]"
definition cross :: string where "cross = utf8 [0xE2, 0x9C, 0x95]"
definition of_ru :: string where "of_ru = utf8 [0x20, 0xD0, 0xB8, 0xD0, 0xB7, 0x20]"
definition all_ru :: string where "all_ru = utf8 [0x20, 0x28, 0xD0, 0xB2, 0xD1, 0x81, 0xD0, 0xB5, 0x29]"
definition last_ru :: string where
  "last_ru = utf8 [0x20, 0x28, 0xD0, 0xBF, 0xD0, 0xBE, 0xD1, 0x81, 0xD0, 0xBB, 0xD0, 0xB5, 0xD0, 0xB4, 0xD0, 0xBD, 0xD0, 0xB8, 0xD0, 0xB5, 0x20]"
definition loading_ru :: string where
  "loading_ru = utf8 [0xD0, 0xB7, 0xD0, 0xB0, 0xD0, 0xB3, 0xD1, 0x80, 0xD1, 0x83, 0xD0, 0xB7, 0xD0, 0xBA, 0xD0, 0xB0, 0xE2, 0x80, 0xA6]"
definition error_ru :: string where
  "error_ru = utf8 [0xD0, 0x9E, 0xD1, 0x88, 0xD0, 0xB8, 0xD0, 0xB1, 0xD0, 0xBA, 0xD0, 0xB0, 0x3A, 0x20]"

section \<open>The state of the page\<close>

text \<open>The fields of the form, the events that the server gave last, the configurations, the serial that was asked for last,
  the serial that the timer will ask for when it runs, the counter and the rows.\<close>

record form =
  f_serial :: string
  f_event :: string
  f_adb :: string
  f_bus :: string

record usb_page =
  up_form :: form
  up_events :: "usb_event list"
  up_configs :: "string \<rightharpoonup> device_config"
  up_last :: string
  up_timer :: "string option"
  up_count :: string
  up_rows :: "cell list list"

section \<open>The filter and the rows\<close>

type_synonym lower_case = "string \<Rightarrow> string"

definition pathBus :: "string \<Rightarrow> string" where
  "pathBus path = (if path \<noteq> [] then hd (split_on (CHR ''-'') path) else [])"

definition kept :: "lower_case \<Rightarrow> form \<Rightarrow> usb_event \<Rightarrow> bool" where
  "kept lc f e =
     (let serial = lc (f_serial f)
      in if serial \<noteq> [] \<and> \<not> contains (lc (ue_Serial e)) serial \<and> \<not> contains (lc (ue_Product e)) serial then False
         else if f_event f \<noteq> [] \<and> ue_Event e \<noteq> f_event f then False
         else if f_adb f = ''1'' \<and> \<not> ue_InADB e then False
         else if f_adb f = ''0'' \<and> ue_InADB e then False
         else if f_bus f \<noteq> [] \<and> pathBus (ue_Path e) \<noteq> f_bus f then False
         else True)"

definition count_text :: "nat \<Rightarrow> nat \<Rightarrow> string" where
  "count_text shown n =
     itoa (int shown) @ of_ru @ itoa (int n) @
     (if n \<ge> 10000 then all_ru else if n \<ge> 1000 then last_ru @ itoa (int n) @ '')'' else [])"

definition event_badge :: "string \<Rightarrow> part" where
  "event_badge ev =
     (if ev = ''appeared'' then Badge ''appeared'' appeared_ru
      else if ev = ''mode_change'' then Badge ''mode_change'' mode_ru
      else if ev = ''appium_create'' then Badge ''#60a5fa'' (whale @ ''appium'' @ created_ru)
      else if ev = ''test_create'' then Badge green (tube @ label_test @ created_ru)
      else if ev = ''container_remove'' then Badge red removed_ru
      else Badge ''disappeared'' gone_ru)"

text \<open>The test mode of a device is offered by the events of its changes: the mode in use with the button that takes it back, or
  the button that uses it.\<close>

definition is_set :: "lower_case \<Rightarrow> (string \<rightharpoonup> device_config) \<Rightarrow> usb_event \<Rightarrow> bool" where
  "is_set lc cfgs e =
     (case cfgs (ue_Serial e) of None \<Rightarrow> False
      | Some c \<Rightarrow> lc (cfg_TestVID c) = lc (ue_VID e) \<and> lc (cfg_TestPID c) = lc (ue_PID e))"

definition config_cell :: "lower_case \<Rightarrow> (string \<rightharpoonup> device_config) \<Rightarrow> usb_event \<Rightarrow> cell" where
  "config_cell lc cfgs e =
     td '''' ''''
       (if ue_Event e = ''mode_change'' \<and> ue_Serial e \<noteq> [] \<and> ue_VID e \<noteq> [] \<and> ue_PID e \<noteq> [] then
          (if is_set lc cfgs e
           then [Tinted green (ue_VID e @ '':'' @ ue_PID e), Button '''' (onclick ''clearTestVidPid'' [ue_Serial e]) cross]
           else [Button '''' (onclick ''setTestVidPid'' [ue_Serial e, ue_VID e, ue_PID e]) use_ru])
        else [Text dash])"

definition row_of_event :: "lower_case \<Rightarrow> (string \<rightharpoonup> device_config) \<Rightarrow> usb_event \<Rightarrow> cell list" where
  "row_of_event lc cfgs e =
     (let prod = (if ue_Product e \<noteq> [] then ue_Product e else if ue_Vendor e \<noteq> [] then ue_Vendor e else dash)
      in [td ''mono'' grey [Text (fmtD (ue_TS e))],
          td '''' '''' [event_badge (ue_Event e)],
          td '''' '''' (Block '''' prod # (if ue_Vendor e \<noteq> [] \<and> ue_Product e \<noteq> [] then [Block dim (ue_Vendor e)] else [])),
          td ''mono'' grey [Text (if ue_Serial e \<noteq> [] then ue_Serial e else dash)],
          td ''mono'' slate [Text (ue_VID e @ '':'' @ ue_PID e)],
          td ''mono'' dim [Text (ue_Path e)],
          td '''' '''' [if ue_InADB e then Badge ''inadb'' ''ADB'' else Tinted ''#334155'' dash],
          td ''mono'' slate [Text (ue_Detail e)],
          config_cell lc cfgs e])"

definition renderEvents :: "lower_case \<Rightarrow> usb_page \<Rightarrow> usb_page" where
  "renderEvents lc p =
     (let rows = filter (kept lc (up_form p)) (up_events p)
      in p\<lparr>up_count := count_text (length rows) (length (up_events p)), up_rows := map (row_of_event lc (up_configs p)) rows\<rparr>)"

section \<open>Requests\<close>

definition get :: "string \<Rightarrow> (string \<times> string) list \<Rightarrow> request" where
  "get path ps = \<lparr>Path = path, Method = ''GET'', Query = (\<lambda>k. case map_of ps k of Some v \<Rightarrow> v | None \<Rightarrow> []), Body = Inl ''EOF''\<rparr>"

definition post_config :: "device_config \<Rightarrow> request" where
  "post_config c = \<lparr>Path = ''/api/device-config'', Method = ''POST'', Query = (\<lambda>_. []), Body = Inr c\<rparr>"

definition delete_config :: "string \<Rightarrow> request" where
  "delete_config serial = (get ''/api/device-config'' [(''serial'', serial)])\<lparr>Method := ''DELETE''\<rparr>"

type_synonym 'm net = "request \<Rightarrow> 'm \<Rightarrow> (string + answer) \<times> 'm"

definition loadConfigs :: "'m net \<Rightarrow> usb_page \<Rightarrow> 'm \<Rightarrow> usb_page \<times> 'm" where
  "loadConfigs srv p m =
     (let (r, m1) = srv (get ''/api/device-config'' []) m
      in (case r of Inr (Json (Configs cs)) \<Rightarrow> p\<lparr>up_configs := index_configs cs\<rparr> | _ \<Rightarrow> p, m1))"

text \<open>The buttons: only an exception of the first request ends them, an answer with an error does not.\<close>

definition reload :: "lower_case \<Rightarrow> 'm net \<Rightarrow> request \<Rightarrow> usb_page \<Rightarrow> 'm \<Rightarrow> usb_page \<times> 'm" where
  "reload lc srv r p m =
     (case srv r m of
        (Inl _, m1) \<Rightarrow> (p, m1)
      | (Inr _, m1) \<Rightarrow> (let (p1, m2) = loadConfigs srv p m1 in (renderEvents lc p1, m2)))"

definition setTestVidPid :: "lower_case \<Rightarrow> 'm net \<Rightarrow> string \<Rightarrow> string \<Rightarrow> string \<Rightarrow> usb_page \<Rightarrow> 'm \<Rightarrow> usb_page \<times> 'm" where
  "setTestVidPid lc srv serial vid pid =
     reload lc srv (post_config \<lparr>cfg_Serial = serial, cfg_TestVID = vid, cfg_TestPID = pid\<rparr>)"

definition clearTestVidPid :: "lower_case \<Rightarrow> 'm net \<Rightarrow> string \<Rightarrow> usb_page \<Rightarrow> 'm \<Rightarrow> usb_page \<times> 'm" where
  "clearTestVidPid lc srv serial = reload lc srv (delete_config serial)"

definition fetchAndRender :: "lower_case \<Rightarrow> 'm net \<Rightarrow> string \<Rightarrow> usb_page \<Rightarrow> 'm \<Rightarrow> usb_page \<times> 'm" where
  "fetchAndRender lc srv serial p m =
     (let url = get ''/api/usb-events'' (if serial \<noteq> [] then [(''serial'', serial), (''limit'', ''10000'')] else [(''limit'', ''1000'')]);
          p1 = p\<lparr>up_count := loading_ru\<rparr>;
          (r, m1) = srv url m
      in (case r of
            Inl e \<Rightarrow> p1\<lparr>up_count := error_ru @ e\<rparr>
          | Inr (Error n _) \<Rightarrow> p1\<lparr>up_count := error_ru @ ''Error: '' @ itoa n\<rparr>
          | Inr (Json (Usb_events es)) \<Rightarrow> renderEvents lc (p1\<lparr>up_events := es\<rparr>)
          | Inr _ \<Rightarrow> p1, m1))"

text \<open>A change of the form; a change of the serial waits 400 ms for the next one and then asks the server.\<close>

definition applyFilter :: "lower_case \<Rightarrow> usb_page \<Rightarrow> usb_page" where
  "applyFilter lc p =
     (let serial = f_serial (up_form p); p1 = p\<lparr>up_timer := None\<rparr>
      in if serial \<noteq> up_last p then p1\<lparr>up_timer := Some serial\<rparr> else renderEvents lc p1)"

definition timer_runs :: "lower_case \<Rightarrow> 'm net \<Rightarrow> usb_page \<Rightarrow> 'm \<Rightarrow> usb_page \<times> 'm" where
  "timer_runs lc srv p m =
     (case up_timer p of
        None \<Rightarrow> (p, m)
      | Some serial \<Rightarrow> fetchAndRender lc srv serial (p\<lparr>up_timer := None, up_last := serial\<rparr>) m)"

definition refresh_events :: "lower_case \<Rightarrow> 'm net \<Rightarrow> usb_page \<Rightarrow> 'm \<Rightarrow> usb_page \<times> 'm" where
  "refresh_events lc srv p m = fetchAndRender lc srv (f_serial (up_form p)) p m"

definition open_usb_page :: "lower_case \<Rightarrow> 'm net \<Rightarrow> 'm \<Rightarrow> usb_page \<times> 'm" where
  "open_usb_page lc srv m =
     (let (p, m1) = loadConfigs srv
            \<lparr>up_form = \<lparr>f_serial = [], f_event = [], f_adb = [], f_bus = []\<rparr>, up_events = [], up_configs = Map.empty, up_last = [],
             up_timer = None, up_count = loading_ru, up_rows = []\<rparr> m
      in fetchAndRender lc srv [] p m1)"

text \<open>The server of the model; a handler that panics drops the connection.\<close>

definition served :: "string \<Rightarrow> dworld \<Rightarrow> queries \<Rightarrow> (time \<Rightarrow> duration) \<Rightarrow> string \<Rightarrow> manager net" where
  "served lost w q off apk_dir r m = (let (a, m1) = serve w q off apk_dir r m in (if a = Panic then Inl lost else Inr a, m1))"


section \<open>The page and the table of configurations\<close>

lemma index_configs_apply:
  "distinct (map cfg_Serial cs) \<Longrightarrow> index_configs cs s = find (\<lambda>c. cfg_Serial c = s) cs"
proof -
  have "foldl (\<lambda>m c. m(cfg_Serial c \<mapsto> c)) m cs s = (case find (\<lambda>c. cfg_Serial c = s) cs of None \<Rightarrow> m s | Some c \<Rightarrow> Some c)"
    if "distinct (map cfg_Serial cs)" for m
    using that
  proof (induction cs arbitrary: m)
    case (Cons c cs)
    have "find (\<lambda>x. cfg_Serial x = s) cs = None" if "cfg_Serial c = s"
      using Cons.prems that by (simp add: find_serial_None)
    then show ?case using Cons by auto
  qed simp
  then show "distinct (map cfg_Serial cs) \<Longrightarrow> ?thesis" by (simp add: index_configs_def split: option.split)
qed

lemma index_configs_mset:
  assumes "mset cs' = mset (configs d)" and "wf_db d"
  shows "index_configs cs' = config_of d"
proof
  fix s
  have d: "distinct (map cfg_Serial (configs d))" using assms(2) by (simp add: wf_db_def)
  have d': "distinct (map cfg_Serial cs')"
    using d mset_eq_imp_distinct_iff [of "map cfg_Serial cs'" "map cfg_Serial (configs d)"] assms(1) by simp
  have "find (\<lambda>c. cfg_Serial c = s) xs = Some c \<longleftrightarrow> c \<in> set xs \<and> cfg_Serial c = s"
    if "distinct (map cfg_Serial xs)" for xs c
    using that by (induction xs) (auto simp: image_iff)
  from this [OF d] this [OF d'] have "find (\<lambda>c. cfg_Serial c = s) cs' = Some c \<longleftrightarrow> find (\<lambda>c. cfg_Serial c = s) (configs d) = Some c" for c
    using mset_eq_setD [OF assms(1)] by simp
  then have "find (\<lambda>c. cfg_Serial c = s) cs' = find (\<lambda>c. cfg_Serial c = s) (configs d)" by (cases "find (\<lambda>c. cfg_Serial c = s) (configs d)") (auto simp del: find_Some_iff)
  then show "index_configs cs' s = config_of d s" by (simp add: index_configs_apply [OF d'] config_of_def)
qed

lemma serve_config:
  "Path r = ''/api/device-config'' \<Longrightarrow>
   serve w q off dir r m = (fst (handleAPIDeviceConfig q r (store m)), m\<lparr>store := snd (handleAPIDeviceConfig q r (store m))\<rparr>)"
  by (simp add: serve_def Let_def case_prod_beta)

lemma config_no_panic: "fst (handleAPIDeviceConfig q r st) \<noteq> Panic"
  by (simp add: handleAPIDeviceConfig_def answer_error_def Let_def split: option.split sum.split prod.split)

lemma loadConfigs_served:
  assumes "store m = Some d" and "wf_db d" and "failing q ''configs'' = None" and "\<And>cs. mset (range_configs q cs) = mset cs"
  shows "loadConfigs (served lost w q off dir) p m = (p\<lparr>up_configs := config_of d\<rparr>, m)"
proof -
  let ?r = "get ''/api/device-config'' []"
  have "Path ?r = ''/api/device-config''" "Method ?r = ''GET''" by (simp_all add: get_def)
  then have "served lost w q off dir ?r m = (Inr (Json (Configs (range_configs q (configs d)))), m)"
    using config_get [OF assms(2) _ assms(3), of ?r] assms(1) by (simp add: served_def serve_config)
  then show ?thesis by (simp add: loadConfigs_def index_configs_mset [OF assms(4,2)])
qed

text \<open>After a button has run the page shows what the store holds now, whether the store took the change or not.\<close>

lemma reload_served:
  assumes "store m = Some d" and "wf_db d" and "failing q ''configs'' = None" and "\<And>cs. mset (range_configs q cs) = mset cs"
    and "Path r = ''/api/device-config''" and "handleAPIDeviceConfig q r (Some d) = (a, Some d')" and "wf_db d'"
  shows "reload lc (served lost w q off dir) r p m = (renderEvents lc (p\<lparr>up_configs := config_of d'\<rparr>), m\<lparr>store := Some d'\<rparr>)"
proof -
  have "a \<noteq> Panic" using config_no_panic [of q r "Some d"] assms(6) by simp
  then have "served lost w q off dir r m = (Inr a, m\<lparr>store := Some d'\<rparr>)"
    using assms(1,5,6) by (simp add: served_def serve_config)
  then show ?thesis
    using loadConfigs_served [OF _ assms(7,3,4), of "m\<lparr>store := Some d'\<rparr>"] by (simp add: reload_def)
qed

section \<open>Lower case\<close>

text \<open>What the standard says of \<open>toLowerCase\<close> on ASCII, and a function that keeps it and knows the Russian letters
  besides, without \<open>yo\<close>, for the examples.\<close>

definition ascii :: "string \<Rightarrow> bool" where "ascii s \<longleftrightarrow> (\<forall>c \<in> set s. code c < 128)"

definition lowers_ascii :: "lower_case \<Rightarrow> bool" where "lowers_ascii lc \<longleftrightarrow> (\<forall>s. ascii s \<longrightarrow> lc s = to_lower s)"

fun russian_lower :: lower_case where
  "russian_lower [] = []"
| "russian_lower [c] = [lower_char c]"
| "russian_lower (c # d # s) =
     (if code c = 0xD0 \<and> 0x90 \<le> code d \<and> code d < 0xA0 then c # char_of (code d + 0x20) # russian_lower s
      else if code c = 0xD0 \<and> 0xA0 \<le> code d \<and> code d < 0xB0 then char_of (0xD1 :: nat) # char_of (code d - 0x20) # russian_lower s
      else lower_char c # russian_lower (d # s))"

lemma russian_lowers_ascii: "lowers_ascii russian_lower"
proof -
  have "russian_lower s = to_lower s" if "ascii s" for s
    using that by (induction s rule: russian_lower.induct) (auto simp: ascii_def to_lower_def)
  then show ?thesis by (simp add: lowers_ascii_def)
qed

declare russian_lower.simps [simp del]

section \<open>The filter of the page and the search of the server\<close>

lemma like_any: "sql_like ''%'' t"
  by (induction t) simp_all

lemma like_prefix:
  assumes "CHR ''%'' \<notin> set s" and "CHR ''_'' \<notin> set s"
  shows "sql_like (s @ ''%'') t \<longleftrightarrow> has_prefix (to_lower t) (to_lower s)"
  using assms
proof (induction s arbitrary: t)
  case Nil
  then show ?case by (simp add: like_any to_lower_def has_prefix_def)
next
  case (Cons c s)
  then show ?case by (cases t) (auto simp: to_lower_def has_prefix_def)
qed

lemma like_contains:
  assumes "CHR ''%'' \<notin> set s" and "CHR ''_'' \<notin> set s"
  shows "sql_like (''%'' @ s @ ''%'') t \<longleftrightarrow> contains (to_lower t) (to_lower s)"
proof (induction t)
  case Nil
  show ?case using like_prefix [OF assms, of "[]"] by (cases s) (simp_all add: to_lower_def has_prefix_def)
next
  case (Cons y t)
  show ?case using like_prefix [OF assms, of "y # t"] Cons by (simp add: to_lower_def)
qed


section \<open>Properties\<close>

lemma set_reload:
  assumes "store m = Some d" and "wf_db d" and "failing q ''configs'' = None" and "\<And>cs. mset (range_configs q cs) = mset cs"
    and "cfg_Serial c \<noteq> []"
  shows "reload lc (served lost w q off dir) (post_config c) p m =
    (renderEvents lc (p\<lparr>up_configs := config_of (snd (SetDeviceConfig (failing q ''set_config'') c d))\<rparr>),
     m\<lparr>store := Some (snd (SetDeviceConfig (failing q ''set_config'') c d))\<rparr>)"
proof (rule reload_served [OF assms(1-4) _ _ wf_db_SetDeviceConfig [OF assms(2)]])
  show "handleAPIDeviceConfig q (post_config c) (Some d) =
    (fst (handleAPIDeviceConfig q (post_config c) (Some d)), Some (snd (SetDeviceConfig (failing q ''set_config'') c d)))"
    using assms(5) by (simp add: handleAPIDeviceConfig_def post_config_def SetDeviceConfig_def split: option.split)
qed (simp add: post_config_def)

lemma clear_reload:
  assumes "store m = Some d" and "wf_db d" and "failing q ''configs'' = None" and "\<And>cs. mset (range_configs q cs) = mset cs"
    and "serial \<noteq> []"
  shows "reload lc (served lost w q off dir) (delete_config serial) p m =
    (renderEvents lc (p\<lparr>up_configs := config_of (snd (DeleteDeviceConfig (failing q ''delete_config'') serial d))\<rparr>),
     m\<lparr>store := Some (snd (DeleteDeviceConfig (failing q ''delete_config'') serial d))\<rparr>)"
proof (rule reload_served [OF assms(1-4) _ _ wf_db_DeleteDeviceConfig [OF assms(2)]])
  show "handleAPIDeviceConfig q (delete_config serial) (Some d) =
    (fst (handleAPIDeviceConfig q (delete_config serial) (Some d)), Some (snd (DeleteDeviceConfig (failing q ''delete_config'') serial d)))"
    using assms(5) by (simp add: handleAPIDeviceConfig_def delete_config_def get_def DeleteDeviceConfig_def split: option.split)
qed (simp add: delete_config_def get_def)

text \<open>C35: The buttons of the USB page and the table of test modes are one: after \<open>setTestVidPid\<close> the store holds the mode, and the
  last cell of each row of a mode change of the device shows the row's mode with the button that takes it back when it is the
  mode in use, in either case of its letters, and else the button that uses it; the rows of the other devices are as the store
  has them. After \<open>clearTestVidPid\<close> the store has no mode for the device and each of these rows offers its own.
  A change that the database refuses leaves the store alone, and the page shows the store's modes without a word of the error.\<close>

theorem test_mode_buttons:
  assumes "c = \<lparr>cfg_Serial = serial, cfg_TestVID = vid, cfg_TestPID = pid\<rparr>"
    and "store m = Some d" and "wf_db d" and "failing q ''configs'' = None" and "\<And>cs. mset (range_configs q cs) = mset cs"
    and "serial \<noteq> []" and "setTestVidPid lc (served lost w q off dir) serial vid pid p m = (pa, m1)"
    and "clearTestVidPid lc (served lost w q off dir) serial pa m1 = (pb, m2)"
    and "mode = (\<lambda>e. ue_Event e = ''mode_change'' \<and> ue_VID e \<noteq> [] \<and> ue_PID e \<noteq> [])"
  shows "(failing q ''set_config'' = None \<longrightarrow>
      map_option config_of (store m1) = Some ((config_of d)(serial \<mapsto> c)) \<and> up_configs pa = (config_of d)(serial \<mapsto> c) \<and>
      up_rows pa = map (row_of_event lc (up_configs pa)) (filter (kept lc (up_form p)) (up_events p)) \<and>
      (\<forall>e. mode e \<and> ue_Serial e = serial \<longrightarrow> row_of_event lc (up_configs pa) e ! 8 =
        td '''' '''' (if lc (ue_VID e) = lc vid \<and> lc (ue_PID e) = lc pid
          then [Tinted green (ue_VID e @ '':'' @ ue_PID e), Button '''' (onclick ''clearTestVidPid'' [serial]) cross]
          else [Button '''' (onclick ''setTestVidPid'' [serial, ue_VID e, ue_PID e]) use_ru])) \<and>
      (\<forall>e. ue_Serial e \<noteq> serial \<longrightarrow> row_of_event lc (up_configs pa) e = row_of_event lc (config_of d) e)) \<and>
    (failing q ''set_config'' \<noteq> None \<longrightarrow> pa = renderEvents lc (p\<lparr>up_configs := config_of d\<rparr>) \<and> m1 = m) \<and>
    (failing q ''delete_config'' = None \<longrightarrow>
      map_option config_of (store m2) = Some ((config_of d)(serial := None)) \<and> up_configs pb = (config_of d)(serial := None) \<and>
      up_rows pb = map (row_of_event lc (up_configs pb)) (filter (kept lc (up_form p)) (up_events p)) \<and>
      (\<forall>e. mode e \<and> ue_Serial e = serial \<longrightarrow> row_of_event lc (up_configs pb) e ! 8 =
        td '''' '''' [Button '''' (onclick ''setTestVidPid'' [serial, ue_VID e, ue_PID e]) use_ru]))"
proof -
  let ?d1 = "snd (SetDeviceConfig (failing q ''set_config'') c d)" and ?d2 = "\<lambda>d. snd (DeleteDeviceConfig (failing q ''delete_config'') serial d)"
  have c: "cfg_Serial c \<noteq> []" "cfg_Serial c = serial" using assms(1,6) by simp_all
  have 1: "pa = renderEvents lc (p\<lparr>up_configs := config_of ?d1\<rparr>)" "m1 = m\<lparr>store := Some ?d1\<rparr>"
    using set_reload [OF assms(2-5) c(1), of lc lost w off dir p] assms(1,7) by (simp_all add: setTestVidPid_def)
  have wf1: "wf_db ?d1" using assms(3) by (rule wf_db_SetDeviceConfig)
  have "store m1 = Some ?d1" using 1 by simp
  from clear_reload [OF this wf1 assms(4,5,6), of lc lost w off dir pa]
  have 2: "pb = renderEvents lc (pa\<lparr>up_configs := config_of (?d2 ?d1)\<rparr>)" "m2 = m1\<lparr>store := Some (?d2 ?d1)\<rparr>"
    using assms(8) by (simp_all add: clearTestVidPid_def)
  have again: "renderEvents lc ((renderEvents lc (p\<lparr>up_configs := x\<rparr>))\<lparr>up_configs := y\<rparr>) = renderEvents lc (p\<lparr>up_configs := y\<rparr>)" for x y
    by (simp add: renderEvents_def Let_def)
  have set: "config_of ?d1 = (config_of d)(serial \<mapsto> c)" if "failing q ''set_config'' = None"
    using config_of_Set [of c d] that c(2) by simp
  have fail: "?d1 = d" if "failing q ''set_config'' \<noteq> None" using that by (auto simp: SetDeviceConfig_def)
  have del: "config_of (?d2 ?d1) = (config_of d)(serial := None)" if "failing q ''delete_config'' = None"
    using that set fail config_of_Delete [of serial ?d1] by (cases "failing q ''set_config'' = None") auto
  have shown: "up_configs (renderEvents lc p') = up_configs p'" "up_rows (renderEvents lc p') =
      map (row_of_event lc (up_configs p')) (filter (kept lc (up_form p')) (up_events p'))" for p'
    by (simp_all add: renderEvents_def Let_def)
  have last: "row_of_event lc cs e ! 8 = config_cell lc cs e" for cs e by (simp add: row_of_event_def Let_def)
  have "row_of_event lc ((config_of d)(serial \<mapsto> c)) e ! 8 =
        td '''' '''' (if lc (ue_VID e) = lc vid \<and> lc (ue_PID e) = lc pid
          then [Tinted green (ue_VID e @ '':'' @ ue_PID e), Button '''' (onclick ''clearTestVidPid'' [serial]) cross]
          else [Button '''' (onclick ''setTestVidPid'' [serial, ue_VID e, ue_PID e]) use_ru])"
    if "mode e" "ue_Serial e = serial" for e
    using that assms(6) unfolding last by (auto simp: config_cell_def is_set_def assms(1,9))
  moreover have "row_of_event lc ((config_of d)(serial := None)) e ! 8 =
        td '''' '''' [Button '''' (onclick ''setTestVidPid'' [serial, ue_VID e, ue_PID e]) use_ru]"
    if "mode e" "ue_Serial e = serial" for e
    using that assms(6) unfolding last by (simp add: config_cell_def is_set_def assms(9))
  moreover have "row_of_event lc ((config_of d)(serial \<mapsto> c)) e = row_of_event lc (config_of d) e" if "ue_Serial e \<noteq> serial" for e
    using that by (simp add: row_of_event_def Let_def config_cell_def is_set_def)
  moreover have "m1 = m" if "failing q ''set_config'' \<noteq> None" using 1(2) fail [OF that] assms(2) by simp
  moreover have "pb = renderEvents lc (p\<lparr>up_configs := config_of (?d2 ?d1)\<rparr>)" using 1 2 again by simp
  ultimately show ?thesis using 1 2 set fail del by (simp add: shown)
qed


text \<open>A search in Russian letters: the filter keeps the phone, the answer of the server does not have it.\<close>

lemma search_misses_russian:
  assumes "capital = [char_of (0xD0 :: nat), char_of (0xA2 :: nat)]" and "small = [char_of (0xD1 :: nat), char_of (0x82 :: nat)]"
    and "ue_Product e = capital" and "f = \<lparr>f_serial = small, f_event = [], f_adb = [], f_bus = []\<rparr>"
  shows "kept russian_lower f e \<and> \<not> sql_like (''%'' @ small @ ''%'') capital"
proof -
  have "contains (russian_lower capital) (russian_lower small)" unfolding assms(1,2) by code_simp
  moreover have "\<not> sql_like (''%'' @ small @ ''%'') capital" unfolding assms(1,2) by code_simp
  ultimately show ?thesis using assms(3,4) by (auto simp: kept_def Let_def)
qed

section \<open>The properties at an example\<close>

definition mode_event :: usb_event where
  "mode_event = scan_usb \<lparr>ur_id = 1, ur_ts = ''2024-05-01T10:00:00Z'', ur_event = ''mode_change'', ur_path = ''1-2'', ur_vid = ''18D1'',
     ur_pid = ''4EE7'', ur_serial = ''R58M'', ur_product = ''SM-A515F'', ur_vendor = ''SAMSUNG'', ur_in_adb = 1, ur_detail = []\<rparr>"

definition some_usb_page :: usb_page where
  "some_usb_page =
     \<lparr>up_form = \<lparr>f_serial = ''r58'', f_event = [], f_adb = [], f_bus = []\<rparr>, up_events = [mode_event], up_configs = Map.empty, up_last = [],
      up_timer = Some ''r58'', up_count = loading_ru, up_rows = []\<rparr>"

lemma test_mode_buttons_witness:
  "\<exists>pa m1 pb m2. setTestVidPid russian_lower (served [] demo_world demo_queries (\<lambda>_. 0) ''/apk'') ''R58M'' ''18d1'' ''4ee7'' some_usb_page demo_manager = (pa, m1) \<and>
     clearTestVidPid russian_lower (served [] demo_world demo_queries (\<lambda>_. 0) ''/apk'') ''R58M'' pa m1 = (pb, m2) \<and>
     map (\<lambda>r. r ! 8) (up_rows pa) = [td '''' '''' [Tinted green ''18D1:4EE7'', Button '''' (onclick ''clearTestVidPid'' [''R58M'']) cross]] \<and>
     map (\<lambda>r. r ! 8) (up_rows pb) = [td '''' '''' [Button '''' (onclick ''setTestVidPid'' [''R58M'', ''18D1'', ''4EE7'']) use_ru]]"
proof -
  let ?s = "served [] demo_world demo_queries (\<lambda>_. 0) ''/apk''" and ?e = mode_event
  obtain pa m1 where 1: "setTestVidPid russian_lower ?s ''R58M'' ''18d1'' ''4ee7'' some_usb_page demo_manager = (pa, m1)" by fastforce
  obtain pb m2 where 2: "clearTestVidPid russian_lower ?s ''R58M'' pa m1 = (pb, m2)" by fastforce
  have q: "failing demo_queries k = None" "\<And>cs. mset (range_configs demo_queries cs) = mset cs" for k by (simp_all add: demo_queries_def)
  have e: "ue_Event ?e = ''mode_change'' \<and> ue_VID ?e \<noteq> [] \<and> ue_PID ?e \<noteq> []" "ue_Serial ?e = ''R58M''" "ue_VID ?e = ''18D1''" "ue_PID ?e = ''4EE7''"
    by (simp_all add: mode_event_def scan_usb_def)
  have f: "filter (kept russian_lower (up_form some_usb_page)) (up_events some_usb_page) = [?e]" by code_simp
  have l: "russian_lower ''18D1'' = russian_lower ''18d1''" "russian_lower ''4EE7'' = russian_lower ''4ee7''" by code_simp+
  note b = test_mode_buttons [OF refl demo_store conjunct1 [OF wf_empty_db] q _ 1 2 refl, unfolded q f, simplified]
  have "up_rows pa = [row_of_event russian_lower (up_configs pa) ?e]" "up_rows pb = [row_of_event russian_lower (up_configs pb) ?e]"
    using b by simp_all
  moreover have ca: "ue_Event e = ''mode_change'' \<and> ue_VID e \<noteq> [] \<and> ue_PID e \<noteq> [] \<and> ue_Serial e = ''R58M'' \<longrightarrow>
      row_of_event russian_lower (up_configs pa) e ! 8 =
        td '''' '''' (if russian_lower (ue_VID e) = russian_lower ''18d1'' \<and> russian_lower (ue_PID e) = russian_lower ''4ee7''
          then [Tinted green (ue_VID e @ '':'' @ ue_PID e), Button '''' (onclick ''clearTestVidPid'' [''R58M'']) cross]
          else [Button '''' (onclick ''setTestVidPid'' [''R58M'', ue_VID e, ue_PID e]) use_ru])"
    and cb: "ue_Event e = ''mode_change'' \<and> ue_VID e \<noteq> [] \<and> ue_PID e \<noteq> [] \<and> ue_Serial e = ''R58M'' \<longrightarrow>
      row_of_event russian_lower (up_configs pb) e ! 8 =
        td '''' '''' [Button '''' (onclick ''setTestVidPid'' [''R58M'', ue_VID e, ue_PID e]) use_ru]" for e
    using b by blast+
  have "row_of_event russian_lower (up_configs pa) ?e ! 8 = td '''' '''' [Tinted green ''18D1:4EE7'', Button '''' (onclick ''clearTestVidPid'' [''R58M'']) cross]"
    "row_of_event russian_lower (up_configs pb) ?e ! 8 = td '''' '''' [Button '''' (onclick ''setTestVidPid'' [''R58M'', ''18D1'', ''4EE7'']) use_ru]"
    using ca [of ?e] cb [of ?e] e l by simp_all
  ultimately show ?thesis using 1 2 by simp
qed

definition some_usb_rows :: "usb_row list" where
  "some_usb_rows =
     [\<lparr>ur_id = 1, ur_ts = ''2024-05-01T10:00:00Z'', ur_event = ''appeared'', ur_path = ''1-2'', ur_vid = ''18d1'', ur_pid = ''4ee7'',
       ur_serial = ''R58M'', ur_product = ''SM-A515F'', ur_vendor = ''SAMSUNG'', ur_in_adb = 1, ur_detail = []\<rparr>,
      \<lparr>ur_id = 2, ur_ts = ''2024-05-01T10:00:01Z'', ur_event = ''appeared'', ur_path = ''1-3'', ur_vid = ''18d1'', ur_pid = ''4ee7'',
       ur_serial = ''X1'', ur_product = ''Pixel'', ur_vendor = ''Google'', ur_in_adb = 1, ur_detail = []\<rparr>]"


end
