(* ===== verification/Dash_Modal.thy ===== *)
theory Dash_Modal
  imports Dash_Usb
begin

text \<open>
  The window over the dashboard of \<open>internal/web/server.go\<close>: the logs of a run, its screenshot, and the history of a device
  with its chart.

  The script runs one handler at a time, and between a request and its answer other handlers run: the state of the window
  holds the requests that wait for an answer, and \<open>react\<close> is what each event does to it, a click, an answer or the end of the
  loading of the picture. Coordinates of the chart are exact until the script cuts them to tenths.
\<close>

section \<open>Texts\<close>

definition wait_ru :: string where
  "wait_ru = utf8 [0xD0, 0x97, 0xD0, 0xB0, 0xD0, 0xB3, 0xD1, 0x80, 0xD1, 0x83, 0xD0, 0xB7, 0xD0, 0xBA, 0xD0, 0xB0, 0x2E, 0x2E, 0x2E]"
definition no_log_ru :: string where
  "no_log_ru = utf8 [0x3A, 0x20, 0xD0, 0xBB, 0xD0, 0xBE, 0xD0, 0xB3, 0x20, 0xD0, 0xBD, 0xD0, 0xB5, 0xD0, 0xB4, 0xD0, 0xBE, 0xD1, 0x81, 0xD1, 0x82,
     0xD1, 0x83, 0xD0, 0xBF, 0xD0, 0xB5, 0xD0, 0xBD]"
definition no_screen_ru :: string where
  "no_screen_ru = utf8 [0xD0, 0xA1, 0xD0, 0xBA, 0xD1, 0x80, 0xD0, 0xB8, 0xD0, 0xBD, 0xD1, 0x88, 0xD0, 0xBE, 0xD1, 0x82, 0x20, 0xD0, 0xBD, 0xD0, 0xB5,
     0xD0, 0xB4, 0xD0, 0xBE, 0xD1, 0x81, 0xD1, 0x82, 0xD1, 0x83, 0xD0, 0xBF, 0xD0, 0xB5, 0xD0, 0xBD]"
definition status_ru :: string where "status_ru = utf8 [0xD0, 0x9E, 0xD1, 0x88, 0xD0, 0xB8, 0xD0, 0xB1, 0xD0, 0xBA, 0xD0, 0xB0, 0x20]"
definition camera :: string where "camera = utf8 [0xF0, 0x9F, 0x93, 0xB7]"

section \<open>The chart\<close>

text \<open>A number printed by \<open>toFixed(1)\<close>.\<close>

definition tenth :: "rat \<Rightarrow> rat" where
  "tenth x = (if x < 0 then - (of_int \<lfloor>- x * 10 + 1 / 2\<rfloor> / 10) else of_int \<lfloor>x * 10 + 1 / 2\<rfloor> / 10)"

record bar =
  b_x :: rat
  b_y :: rat
  b_width :: int
  b_height :: rat
  b_fill :: string

record chart =
  ch_count :: nat
  ch_bars :: "bar list"
  ch_line :: "(rat \<times> rat) list"
  ch_labels :: "(rat \<times> string) list"

definition ms_of :: "time \<Rightarrow> int" where "ms_of t = t div 1000000"

definition highest :: "run list \<Rightarrow> int" where
  "highest rs = foldl (\<lambda>m r. if run_Found r \<and> run_Passing r + run_Failing r > m then run_Passing r + run_Failing r else m) 1 rs"

definition column_step :: "nat \<Rightarrow> rat" where "column_step n = 662 / of_nat n"

definition bar_width :: "nat \<Rightarrow> int" where "bar_width n = max 2 (min 16 (\<lfloor>column_step n\<rfloor> - 1))"

definition centre :: "nat \<Rightarrow> nat \<Rightarrow> rat" where
  "centre n i = 30 + of_nat i * column_step n + column_step n / 2"

definition run_bars :: "nat \<Rightarrow> int \<Rightarrow> nat \<Rightarrow> run \<Rightarrow> bar list" where
  "run_bars n maxT i r =
     (let w = bar_width n; x = tenth (centre n i - of_int w / 2)
      in if \<not> run_Found r then [\<lparr>b_x = x, b_y = 85, b_width = w, b_height = 3, b_fill = ''#334155''\<rparr>]
         else let pH = of_int (run_Passing r) / of_int maxT * 78; fH = of_int (run_Failing r) / of_int maxT * 78
              in (if run_Failing r > 0
                  then [\<lparr>b_x = x, b_y = tenth (88 - pH - fH), b_width = w, b_height = tenth fH, b_fill = red\<rparr>] else []) @
                 (if run_Passing r > 0
                  then [\<lparr>b_x = x, b_y = tenth (88 - pH), b_width = w, b_height = tenth pH, b_fill = green\<rparr>] else []))"

definition line_point :: "nat \<Rightarrow> nat \<Rightarrow> run \<Rightarrow> (rat \<times> rat) list" where
  "line_point n i r =
     (let total = run_Passing r + run_Failing r; rate = (if total > 0 then of_int (run_Passing r) / of_int total else 0)
      in if run_Found r then [(tenth (centre n i), tenth (88 - rate * 78))] else [])"

text \<open>The labels: the hour and the minute of the run in the zone \<open>off\<close> of the browser, with the day when the runs span a day.\<close>

definition fmtLabel :: "(time \<Rightarrow> duration) \<Rightarrow> int \<Rightarrow> time \<Rightarrow> string" where
  "fmtLabel off spn t =
     (let s = (t + off t) div nanos; (y, m, d) = civil (s div 86400 + epoch_days); (hh, mm, ss) = clock_of (s mod 86400)
      in if spn < 86400000 then p2 hh @ '':'' @ p2 mm else p2 d @ ''.'' @ p2 m @ '' '' @ p2 hh @ '':'' @ p2 mm)"

definition label_indices :: "nat \<Rightarrow> nat list" where
  "label_indices n =
     (let labelCount = (if n = 1 then 1 else min n 6)
      in map (\<lambda>li. if n = 1 then 0 else nat \<lfloor>of_nat (li * (n - 1)) / of_nat (labelCount - 1) + 1 / 2 :: rat\<rfloor>) [0..<labelCount])"

definition buildChart :: "(time \<Rightarrow> duration) \<Rightarrow> run list \<Rightarrow> chart option" where
  "buildChart off rs =
     (if rs = [] then None
      else let n = length rs; maxT = highest rs; spn = ms_of (run_FinishedAt (rs ! (n - 1))) - ms_of (run_FinishedAt (rs ! 0))
           in Some \<lparr>ch_count = n,
                    ch_bars = concat (map (\<lambda>i. run_bars n maxT i (rs ! i)) [0..<n]),
                    ch_line = concat (map (\<lambda>i. line_point n i (rs ! i)) [0..<n]),
                    ch_labels = map (\<lambda>i. (tenth (centre n i), fmtLabel off spn (run_FinishedAt (rs ! i)))) (label_indices n)\<rparr>)"

section \<open>The history of a device\<close>

datatype item = Run_item run | Event_item usb_event

fun item_ts :: "item \<Rightarrow> time" where
  "item_ts (Run_item r) = run_FinishedAt r"
| "item_ts (Event_item e) = ue_TS e"

definition history_items :: "run list \<Rightarrow> usb_event list \<Rightarrow> item list" where
  "history_items rs es = sort_key (\<lambda>i. - ms_of (item_ts i)) (map Run_item rs @ map Event_item es)"

definition history_badge :: "string \<Rightarrow> part" where
  "history_badge ev =
     (if ev = ''appeared'' then Badge ''pass'' appeared_ru
      else if ev = ''mode_change'' then Badge amber mode_ru
      else if ev = ''appium_create'' then Badge ''#60a5fa'' (whale @ ''appium'' @ created_ru)
      else if ev = ''test_create'' then Badge green (tube @ label_test @ created_ru)
      else if ev = ''container_remove'' then Badge red removed_ru
      else Badge ''fail'' gone_ru)"

fun item_row :: "item \<Rightarrow> cell list" where
  "item_row (Event_item e) =
     [td ''mono'' '''' [Text (fmtD (ue_TS e))],
      td '''' '''' [history_badge (ue_Event e)],
      td '''' slate [Text dash], td '''' slate [Text dash], td '''' slate [Text dash],
      td '''' '''' ((if ue_Path e \<noteq> [] then Tinted grey (ue_Path e) else Text dash) #
        (if ue_VID e \<noteq> [] \<and> ue_PID e \<noteq> [] then [Tinted slate ('' '' @ ue_VID e @ '':'' @ ue_PID e)] else [])),
      td '''' slate [Text dash]]"
| "item_row (Run_item r) =
     (let setup = max 0 (fl (run_TotalSeconds r - run_TestSeconds r));
          logs = (if run_HasLogs r
                  then [Button ''log-btn'' (OpenLog (run_ID r) ''test'') label_test,
                        Button ''log-btn ab'' (OpenLog (run_ID r) ''appium'') ''appium''] else []) @
                 (if run_HasScreenshot r then [Button ''log-btn sc'' (OpenScr (run_ID r)) camera] else [])
      in [td ''mono'' '''' [Text (fmtD (run_FinishedAt r))],
          td '''' '''' [verdict_part r],
          td '''' '''' [Tinted green (if run_Found r then itoa (run_Passing r) else dash), Text '' / '',
            Tinted (if run_Failing r > 0 then red else green) (if run_Found r then itoa (run_Failing r) else dash)],
          td '''' grey [Text (fmtS setup @ '' / '' @ fmtS (run_TestSeconds r))],
          td '''' '''' [battFmt (run_BatteryPct r)],
          td '''' slate [Text dash],
          td '''' '''' (if logs = [] then [Text dash] else logs)])"

datatype history = No_history | Loading_history | Empty_history | History "chart option" "cell list list" | Failed_history string

text \<open>What the answers to the two requests of \<open>openHistory\<close> make of it: \<open>Inl\<close> is an exception, \<open>None\<close> an answer that is not OK.\<close>

definition history_of :: "(time \<Rightarrow> duration) \<Rightarrow> string + run list option \<times> usb_event list option \<Rightarrow> history" where
  "history_of off a =
     (case a of
        Inl e \<Rightarrow> Failed_history (error_ru @ e)
      | Inr (re, ee) \<Rightarrow>
          let rs = (case re of Some rs \<Rightarrow> rs | None \<Rightarrow> []); es = (case ee of Some es \<Rightarrow> es | None \<Rightarrow> []);
              items = history_items rs es
          in if items = [] then Empty_history
             else History (buildChart off (sort_key (\<lambda>r. ms_of (run_FinishedAt r)) rs)) (map item_row items))"

section \<open>The window\<close>

datatype title = No_title | Log_title string int | Screen_title int | History_title string string

text \<open>\<open>m_replaced\<close> says that \<open>openScr\<close> has put its own handler on the picture, which stays for good.\<close>

record modal =
  m_shown :: bool
  m_title :: title
  m_id :: "int option"
  m_tab :: string
  m_tabs_shown :: bool
  m_scr_tab_shown :: bool
  m_pre_shown :: bool
  m_pre :: string
  m_scr_shown :: bool
  m_replaced :: bool
  m_image :: "string option"
  m_hist_shown :: bool
  m_hist :: history
  m_logs :: "(int \<times> string) list"
  m_hists :: "string list"

definition closed_window :: modal where
  "closed_window =
     \<lparr>m_shown = False, m_title = No_title, m_id = None, m_tab = ''test'', m_tabs_shown = True, m_scr_tab_shown = False, m_pre_shown = True,
      m_pre = wait_ru, m_scr_shown = True, m_replaced = False, m_image = Some [], m_hist_shown = False, m_hist = No_history, m_logs = [],
      m_hists = []\<rparr>"

definition screen_url :: "int \<Rightarrow> string" where "screen_url i = ''/logs/'' @ itoa i @ ''/screen.png''"

definition openLog :: "int \<Rightarrow> string \<Rightarrow> modal \<Rightarrow> modal" where
  "openLog i typ m =
     m\<lparr>m_id := Some i, m_title := Log_title typ i, m_tab := typ, m_tabs_shown := True, m_scr_tab_shown := False, m_hist_shown := False,
       m_hist := No_history, m_pre_shown := True, m_pre := wait_ru, m_scr_shown := True, m_image := Some (screen_url i), m_shown := True,
       m_logs := m_logs m @ [(i, typ)]\<rparr>"

definition openScr :: "int \<Rightarrow> modal \<Rightarrow> modal" where
  "openScr i m =
     m\<lparr>m_id := Some i, m_title := Screen_title i, m_tab := ''screenshot'', m_tabs_shown := True, m_scr_tab_shown := True, m_hist_shown := False,
       m_hist := No_history, m_pre_shown := False, m_pre := [], m_scr_shown := True, m_image := Some (screen_url i), m_replaced := True,
       m_shown := True\<rparr>"

definition openHistory :: "string \<Rightarrow> string \<Rightarrow> modal \<Rightarrow> modal" where
  "openHistory serial model m =
     m\<lparr>m_title := History_title serial model, m_tabs_shown := False, m_scr_tab_shown := False, m_pre_shown := False, m_pre := [],
       m_scr_shown := False, m_image := Some [], m_hist_shown := True, m_hist := Loading_history, m_shown := True,
       m_hists := m_hists m @ [serial]\<rparr>"

definition switchLog :: "string \<Rightarrow> modal \<Rightarrow> modal" where
  "switchLog t m = (case m_id m of None \<Rightarrow> m | Some i \<Rightarrow> if t = ''screenshot'' then openScr i m else openLog i t m)"

definition closeModal :: "modal \<Rightarrow> modal" where
  "closeModal m = m\<lparr>m_shown := False, m_image := Some [], m_hist_shown := False, m_hist := No_history, m_tabs_shown := True\<rparr>"

text \<open>The end of the loading of the picture. An empty address cannot be loaded.\<close>

definition image_done :: "bool \<Rightarrow> modal \<Rightarrow> modal" where
  "image_done good m =
     (case m_image m of
        None \<Rightarrow> m
      | Some url \<Rightarrow>
          let m1 = m\<lparr>m_image := None\<rparr>
          in if good \<and> url \<noteq> [] then m1
             else if m_replaced m then m1\<lparr>m_pre_shown := True, m_pre := no_screen_ru, m_scr_shown := False\<rparr>
             else m1\<lparr>m_scr_shown := False\<rparr>)"

text \<open>The answer to the \<open>k\<close>-th request that waits: it is written without a look at what the window shows by now.\<close>

definition log_text :: "string + answer \<Rightarrow> string" where
  "log_text a =
     (case a of Inl e \<Rightarrow> error_ru @ e | Inr (Plain b) \<Rightarrow> b | Inr (Error n _) \<Rightarrow> status_ru @ itoa n @ no_log_ru | Inr _ \<Rightarrow> [])"

definition without :: "nat \<Rightarrow> 'a list \<Rightarrow> 'a list" where "without k xs = take k xs @ drop (k + 1) xs"

datatype event =
    Click_log int string
  | Click_screen int
  | Click_history string string
  | Click_tab string
  | Click_close
  | Log_answered nat
  | Image_done bool
  | History_answered nat

fun react ::
  "(int \<Rightarrow> string \<Rightarrow> string + answer) \<Rightarrow> (string \<Rightarrow> string + run list option \<times> usb_event list option) \<Rightarrow> (time \<Rightarrow> duration) \<Rightarrow>
   modal \<Rightarrow> event \<Rightarrow> modal" where
  "react la ha off m (Click_log i typ) = openLog i typ m"
| "react la ha off m (Click_screen i) = openScr i m"
| "react la ha off m (Click_history s n) = openHistory s n m"
| "react la ha off m (Click_tab t) = switchLog t m"
| "react la ha off m Click_close = closeModal m"
| "react la ha off m (Log_answered k) =
     (if k < length (m_logs m)
      then m\<lparr>m_logs := without k (m_logs m), m_pre := log_text (case m_logs m ! k of (i, typ) \<Rightarrow> la i typ)\<rparr> else m)"
| "react la ha off m (Image_done good) = image_done good m"
| "react la ha off m (History_answered k) =
     (if k < length (m_hists m)
      then m\<lparr>m_hists := without k (m_hists m), m_hist := history_of off (ha (m_hists m ! k))\<rparr> else m)"


section \<open>The window shows what its title says\<close>

text \<open>Events of a window where no screenshot is opened and the answers come in the order of the requests.\<close>

fun orderly :: "event \<Rightarrow> bool" where
  "orderly (Click_screen i) = False"
| "orderly (Click_tab t) = (t \<noteq> ''screenshot'')"
| "orderly (Log_answered k) = (k = 0)"
| "orderly _ = True"

definition log_state :: "(int \<Rightarrow> string \<Rightarrow> string + answer) \<Rightarrow> modal \<Rightarrow> bool" where
  "log_state la m \<longleftrightarrow>
     \<not> m_replaced m \<and>
     (case m_title m of
        Log_title typ i \<Rightarrow> m_pre_shown m \<and> (if m_logs m = [] then m_pre m = log_text (la i typ) else last (m_logs m) = (i, typ))
      | _ \<Rightarrow> True)"

lemma log_state_openLog: "log_state la m \<Longrightarrow> log_state la (openLog i typ m)"
  by (simp add: log_state_def openLog_def)

lemma log_state_image: "log_state la m \<Longrightarrow> log_state la (image_done good m)"
  by (auto simp: log_state_def image_done_def Let_def split: option.splits title.splits)

lemma log_state_react:
  assumes "log_state la m" and "orderly ev"
  shows "log_state la (react la ha off m ev)"
proof (cases ev)
  case (Click_log i t)
  then show ?thesis using assms(1) by (simp add: log_state_openLog)
next
  case (Click_tab t)
  then show ?thesis using assms by (auto simp: switchLog_def log_state_openLog split: option.split)
next
  case (Log_answered k)
  show ?thesis
  proof (cases "m_logs m")
    case (Cons r rs)
    with assms Log_answered show ?thesis
      by (cases r; cases rs) (auto simp: log_state_def without_def split: title.splits)
  qed (use assms(1) Log_answered in simp)
next
  case (Image_done good)
  then show ?thesis using assms(1) by (simp add: log_state_image)
qed (insert assms, auto simp: log_state_def openHistory_def closeModal_def split: title.splits)

lemma log_state_run: "log_state la m \<Longrightarrow> list_all orderly evs \<Longrightarrow> log_state la (foldl (react la ha off) m evs)"
  by (induction evs arbitrary: m) (simp_all add: log_state_react)

lemma replaced_react: "m_replaced m \<Longrightarrow> m_replaced (react la ha off m ev)"
  by (cases ev) (auto simp: openLog_def openScr_def openHistory_def switchLog_def closeModal_def image_done_def Let_def split: option.split)

lemma replaced_run: "m_replaced m \<or> (\<exists>j. Click_screen j \<in> set evs) \<Longrightarrow> m_replaced (foldl (react la ha off) m evs)"
proof (induction evs arbitrary: m)
  case (Cons ev evs)
  have "m_replaced (react la ha off m ev)" if "m_replaced m \<or> ev = Click_screen j" for j
    using that replaced_react by (auto simp: openScr_def)
  then show ?case using Cons by (metis foldl_Cons set_ConsD)
qed simp

text \<open>C38: The window of the logs, from the page's opening on: while no screenshot is opened and the answers come in the order of the
  requests, a window with the title of a log and no request under way shows that log of that run, whatever was clicked in between.\<close>

theorem log_follows_title:
  assumes "list_all orderly evs" and "foldl (react la ha off) closed_window evs = m" and "m_title m = Log_title typ i" and "m_logs m = []"
  shows "m_pre_shown m \<and> m_pre m = log_text (la i typ)"
proof -
  have "log_state la closed_window" by (simp add: log_state_def closed_window_def)
  from log_state_run [OF this assms(1), of ha off] have "log_state la m" unfolding assms(2) .
  with assms(3,4) show ?thesis by (simp add: log_state_def)
qed


section \<open>The chart stays in its frame\<close>

lemma tenth_bounds:
  assumes "0 \<le> x"
  shows "x - 1 / 20 \<le> tenth x" and "tenth x \<le> x + 1 / 20"
proof -
  have "of_int \<lfloor>x * 10 + 1 / 2\<rfloor> \<le> x * 10 + 1 / 2" "x * 10 + 1 / 2 < of_int \<lfloor>x * 10 + 1 / 2\<rfloor> + 1" by linarith+
  then show "x - 1 / 20 \<le> tenth x" "tenth x \<le> x + 1 / 20" using assms by (simp_all add: tenth_def)
qed

lemma tenth_ge: "0 \<le> a \<Longrightarrow> of_int a \<le> x \<Longrightarrow> of_int a \<le> tenth x"
proof -
  assume a: "0 \<le> a" "of_int a \<le> x"
  have "(0 :: rat) \<le> of_int a" using a(1) by simp
  then have x: "0 \<le> x" using a(2) by linarith
  have "a * 10 \<le> \<lfloor>x * 10 + 1 / 2\<rfloor>" using a(2) by (simp add: le_floor_iff)
  then have "(of_int (a * 10) :: rat) \<le> of_int \<lfloor>x * 10 + 1 / 2\<rfloor>" by (simp only: of_int_le_iff)
  then show ?thesis using x by (simp add: tenth_def)
qed

lemma tenth_le: "0 \<le> x \<Longrightarrow> x \<le> of_int a \<Longrightarrow> tenth x \<le> of_int a"
proof -
  assume x: "0 \<le> x" "x \<le> of_int a"
  have "\<lfloor>x * 10 + 1 / 2\<rfloor> \<le> a * 10" using x(2) by (simp add: floor_le_iff)
  then have "of_int \<lfloor>x * 10 + 1 / 2\<rfloor> \<le> (of_int (a * 10) :: rat)" by (simp only: of_int_le_iff)
  then show ?thesis using x(1) by (simp add: tenth_def)
qed

lemma highest_ge: "1 \<le> highest rs \<and> (\<forall>r \<in> set rs. run_Found r \<longrightarrow> run_Passing r + run_Failing r \<le> highest rs)"
proof -
  let ?f = "\<lambda>m r. if run_Found r \<and> run_Passing r + run_Failing r > m then run_Passing r + run_Failing r else m"
  have "m \<le> foldl ?f m rs \<and> (\<forall>r \<in> set rs. run_Found r \<longrightarrow> run_Passing r + run_Failing r \<le> foldl ?f m rs)" for m
  proof (induction rs arbitrary: m)
    case (Cons r rs)
    have "m \<le> ?f m r" "run_Found r \<Longrightarrow> run_Passing r + run_Failing r \<le> ?f m r" by auto
    moreover note Cons [of "?f m r"]
    ultimately show ?case by (auto intro: order_trans)
  qed simp
  then show ?thesis by (simp add: highest_def)
qed

lemma highest_in: "highest rs = 1 \<or> (\<exists>r \<in> set rs. run_Found r \<and> run_Passing r + run_Failing r = highest rs)"
proof -
  let ?f = "\<lambda>m r. if run_Found r \<and> run_Passing r + run_Failing r > m then run_Passing r + run_Failing r else m"
  have "foldl ?f m rs = m \<or> (\<exists>r \<in> set rs. run_Found r \<and> run_Passing r + run_Failing r = foldl ?f m rs)" for m
  proof (induction rs arbitrary: m)
    case (Cons r rs)
    from Cons [of "?f m r"] show ?case by (auto split: if_splits)
  qed simp
  then show ?thesis unfolding highest_def .
qed

lemma centre_bounds:
  assumes "i < n"
  shows "30 + column_step n / 2 \<le> centre n i" and "centre n i \<le> 692 - column_step n / 2"
proof -
  have s: "0 < column_step n" "of_nat n * column_step n = 662" using assms by (simp_all add: column_step_def)
  have "of_nat (i + 1) * column_step n \<le> of_nat n * column_step n"
    using assms s(1) by (intro mult_right_mono of_nat_mono) simp_all
  then show "centre n i \<le> 692 - column_step n / 2" using s(2) by (simp add: centre_def distrib_right)
  show "30 + column_step n / 2 \<le> centre n i" using s(1) by (simp add: centre_def)
qed

lemma bar_width_bounds: "0 < n \<Longrightarrow> 2 \<le> bar_width n \<and> of_int (bar_width n) / 2 \<le> 1 + column_step n / 2"
proof -
  assume "0 < n"
  then have s: "0 < column_step n" by (simp add: column_step_def)
  have "(of_int (bar_width n) :: rat) \<le> 2 + column_step n"
  proof (cases "bar_width n = 2")
    case False
    then have "bar_width n \<le> \<lfloor>column_step n\<rfloor> - 1" unfolding bar_width_def by linarith
    then have "(of_int (bar_width n) :: rat) \<le> of_int (\<lfloor>column_step n\<rfloor> - 1)" by (simp only: of_int_le_iff)
    then show ?thesis using of_int_floor_le [of "column_step n"] by (simp only: of_int_diff of_int_1)
  qed (use s in simp)
  then show ?thesis by (simp add: bar_width_def)
qed


text \<open>Where a bar stands: in the frame from 30 to 692, but for its half that a bar of the least width may stick out, and on
  the line at 88, with the tenths that the rounding may add.\<close>

definition in_frame :: "bar \<Rightarrow> bool" where
  "in_frame b \<longleftrightarrow> 29 \<le> b_x b \<and> b_x b + of_int (b_width b) \<le> 6931 / 10 \<and> 10 \<le> b_y b \<and> 0 \<le> b_height b \<and> b_y b + b_height b \<le> 881 / 10"

lemma column_in_frame:
  assumes "i < n"
  shows "29 \<le> tenth (centre n i - of_int (bar_width n) / 2)"
    and "tenth (centre n i - of_int (bar_width n) / 2) + of_int (bar_width n) \<le> 6931 / 10"
proof -
  let ?x = "centre n i - of_int (bar_width n) / 2"
  have w: "of_int (bar_width n) / 2 \<le> 1 + column_step n / 2" using bar_width_bounds [of n] assms by simp
  then have x: "29 \<le> ?x" using centre_bounds(1) [OF assms] by linarith
  then show "29 \<le> tenth ?x" using tenth_ge [of 29 ?x] by simp
  have "tenth ?x \<le> ?x + 1 / 20" using tenth_bounds(2) [of ?x] x by simp
  moreover have "centre n i \<le> 692 - column_step n / 2" by (rule centre_bounds(2) [OF assms])
  ultimately have "tenth ?x + of_int (bar_width n) \<le> 692 - column_step n / 2 + of_int (bar_width n) / 2 + 1 / 20" by (simp add: field_simps)
  with w show "tenth ?x + of_int (bar_width n) \<le> 6931 / 10" by linarith
qed

lemma stack_in_frame:
  fixes pH fH :: rat
  assumes "0 \<le> pH" and "0 \<le> fH" and "pH + fH \<le> 78"
  shows "10 \<le> tenth (88 - pH - fH)" and "0 \<le> tenth fH" and "tenth (88 - pH - fH) + tenth fH \<le> 881 / 10"
proof -
  have x: "10 \<le> 88 - pH - fH" using assms by linarith
  show "10 \<le> tenth (88 - pH - fH)" using tenth_ge [of 10 "88 - pH - fH"] x by simp
  show "0 \<le> tenth fH" using tenth_ge [of 0 fH] assms(2) by simp
  show "tenth (88 - pH - fH) + tenth fH \<le> 881 / 10"
    using tenth_bounds(2) [of "88 - pH - fH"] tenth_bounds(2) [OF assms(2)] x assms(1) by linarith
qed

lemma run_bars_in_frame:
  assumes "i < n" and "1 \<le> maxT" and "0 \<le> run_Passing r" and "0 \<le> run_Failing r"
    and "run_Found r \<Longrightarrow> run_Passing r + run_Failing r \<le> maxT"
  shows "\<forall>b \<in> set (run_bars n maxT i r). in_frame b"
proof (cases "run_Found r")
  case True
  define pH fH :: rat where "pH = of_int (run_Passing r) / of_int maxT * 78" and "fH = of_int (run_Failing r) / of_int maxT * 78"
  have m: "(0 :: rat) < of_int maxT" using assms(2) by simp
  have "(of_int (run_Passing r + run_Failing r) :: rat) \<le> of_int maxT" using assms(5) [OF True] by (simp only: of_int_le_iff)
  then have "of_int (run_Passing r + run_Failing r) / of_int maxT \<le> (1 :: rat)" using m by (simp add: divide_le_eq)
  then have "of_int (run_Passing r + run_Failing r) / of_int maxT * 78 \<le> (1 * 78 :: rat)" by (rule mult_right_mono) simp
  moreover have "pH + fH = of_int (run_Passing r + run_Failing r) / of_int maxT * 78"
    by (simp only: pH_def fH_def of_int_add add_divide_distrib distrib_right)
  ultimately have "pH + fH \<le> 78" by (simp only: mult_1)
  then have h: "0 \<le> pH" "0 \<le> fH" "pH + fH \<le> 78" using assms(2-4) by (simp_all add: pH_def fH_def)
  define w x where "w = bar_width n" and "x = tenth (centre n i - of_int w / 2)"
  have bars: "run_bars n maxT i r =
      (if run_Failing r > 0 then [\<lparr>b_x = x, b_y = tenth (88 - pH - fH), b_width = w, b_height = tenth fH, b_fill = red\<rparr>] else []) @
      (if run_Passing r > 0 then [\<lparr>b_x = x, b_y = tenth (88 - pH), b_width = w, b_height = tenth pH, b_fill = green\<rparr>] else [])"
    using True by (simp add: run_bars_def Let_def w_def x_def pH_def fH_def)
  have "29 \<le> x" "x + of_int w \<le> 6931 / 10" using column_in_frame [OF assms(1)] by (simp_all only: w_def x_def)
  then have "in_frame b" if "b \<in> set (run_bars n maxT i r)" for b
    using that stack_in_frame [OF h] stack_in_frame [of 0 pH] h by (auto simp: bars in_frame_def split: if_splits)
  then show ?thesis by blast
qed (use column_in_frame [OF assms(1)] in \<open>simp add: run_bars_def in_frame_def Let_def\<close>)

text \<open>How the bars of a run stand: on the line at 88 or on the bar below, up to what the rounding of two tenths may leave, over
  the column of the run, and as high as its counts.\<close>

fun stacked :: "rat \<Rightarrow> bar list \<Rightarrow> bool" where
  "stacked y [] = True"
| "stacked y (b # bs) \<longleftrightarrow> \<bar>b_y b + b_height b - y\<bar> \<le> 3 / 20 \<and> stacked (b_y b) bs"

definition over :: "rat \<Rightarrow> bar \<Rightarrow> bool" where "over x b \<longleftrightarrow> \<bar>b_x b + of_int (b_width b) / 2 - x\<bar> \<le> 1 / 20"

definition tall :: "rat \<Rightarrow> bar \<Rightarrow> bool" where "tall h b \<longleftrightarrow> \<bar>b_height b - h\<bar> \<le> 1 / 20"

lemma run_bars_stand:
  assumes "i < n" and "1 \<le> maxT" and "0 \<le> run_Passing r" and "0 \<le> run_Failing r"
    and "run_Found r \<Longrightarrow> run_Passing r + run_Failing r \<le> maxT"
  shows "stacked 88 (rev (run_bars n maxT i r)) \<and> (\<forall>b \<in> set (run_bars n maxT i r). over (centre n i) b) \<and>
    (if run_Found r
     then map b_fill (run_bars n maxT i r) = (if run_Failing r > 0 then [red] else []) @ (if run_Passing r > 0 then [green] else []) \<and>
       (\<forall>b \<in> set (run_bars n maxT i r). tall (of_int (if b_fill b = red then run_Failing r else run_Passing r) / of_int maxT * 78) b)
     else map b_fill (run_bars n maxT i r) = [''#334155''] \<and> map b_height (run_bars n maxT i r) = [3])"
proof -
  define pH fH :: rat where "pH = of_int (run_Passing r) / of_int maxT * 78" and "fH = of_int (run_Failing r) / of_int maxT * 78"
  define w x where "w = bar_width n" and "x = tenth (centre n i - of_int w / 2)"
  have bars: "run_bars n maxT i r =
      (if \<not> run_Found r then [\<lparr>b_x = x, b_y = 85, b_width = w, b_height = 3, b_fill = ''#334155''\<rparr>]
       else (if run_Failing r > 0 then [\<lparr>b_x = x, b_y = tenth (88 - pH - fH), b_width = w, b_height = tenth fH, b_fill = red\<rparr>] else []) @
      (if run_Passing r > 0 then [\<lparr>b_x = x, b_y = tenth (88 - pH), b_width = w, b_height = tenth pH, b_fill = green\<rparr>] else []))"
    by (simp add: run_bars_def Let_def w_def x_def pH_def fH_def)
  have "of_int w / 2 \<le> 1 + column_step n / 2" using bar_width_bounds [of n] assms(1) by (simp add: w_def)
  then have "0 \<le> centre n i - of_int w / 2" using centre_bounds(1) [OF assms(1)] by linarith
  then have x: "\<bar>x + of_int w / 2 - centre n i\<bar> \<le> 1 / 20"
    using tenth_bounds [of "centre n i - of_int w / 2"] unfolding x_def by linarith
  have colours: "red \<noteq> green" "green \<noteq> red" by code_simp+
  show ?thesis
  proof (cases "run_Found r")
    case True
    have m: "(0 :: rat) < of_int maxT" using assms(2) by simp
    have "(of_int (run_Passing r + run_Failing r) :: rat) \<le> of_int maxT" using assms(5) [OF True] by (simp only: of_int_le_iff)
    then have "of_int (run_Passing r + run_Failing r) / of_int maxT \<le> (1 :: rat)" using m by (simp add: divide_le_eq)
    then have "of_int (run_Passing r + run_Failing r) / of_int maxT * 78 \<le> (1 * 78 :: rat)" by (rule mult_right_mono) simp
    moreover have "pH + fH = of_int (run_Passing r + run_Failing r) / of_int maxT * 78"
      by (simp only: pH_def fH_def of_int_add add_divide_distrib distrib_right)
    ultimately have h: "0 \<le> pH" "0 \<le> fH" "pH + fH \<le> 78" using assms(2-4) by (simp_all add: pH_def fH_def)
    have p: "\<bar>tenth pH - pH\<bar> \<le> 1 / 20" and f: "\<bar>tenth fH - fH\<bar> \<le> 1 / 20"
      using tenth_bounds [OF h(1)] tenth_bounds [OF h(2)] by linarith+
    have pY: "\<bar>tenth (88 - pH) - (88 - pH)\<bar> \<le> 1 / 20" and fY: "\<bar>tenth (88 - pH - fH) - (88 - pH - fH)\<bar> \<le> 1 / 20"
      using tenth_bounds [of "88 - pH"] tenth_bounds [of "88 - pH - fH"] h by linarith+
    have base: "\<bar>tenth (88 - pH) + tenth pH - 88\<bar> \<le> 3 / 20"
      "\<bar>tenth (88 - pH - fH) + tenth fH - tenth (88 - pH)\<bar> \<le> 3 / 20" using p f pY fY by linarith+
    have fails: "\<bar>tenth (88 - pH - fH) + tenth fH - 88\<bar> \<le> 3 / 20" if "\<not> run_Passing r > 0"
    proof -
      have "pH = 0" using that assms(3) by (simp add: pH_def)
      with f fY show ?thesis by linarith
    qed
    have tall: "tall (of_int (run_Passing r) * 78 / of_int maxT) b \<longleftrightarrow> \<bar>b_height b - pH\<bar> \<le> 1 / 20"
      "tall (of_int (run_Failing r) * 78 / of_int maxT) b \<longleftrightarrow> \<bar>b_height b - fH\<bar> \<le> 1 / 20" for b
      by (simp_all add: tall_def pH_def fH_def)
    show ?thesis
      using True x base fails p f colours by (simp add: bars over_def tall)
  qed (use x in \<open>simp add: bars over_def\<close>)
qed

lemma line_in_frame:
  assumes "i < n" and "0 \<le> run_Passing r" and "0 \<le> run_Failing r" and "(x, y) \<in> set (line_point n i r)"
  shows "30 \<le> x \<and> x \<le> 692 \<and> 10 \<le> y \<and> y \<le> 88"
proof -
  define q :: rat where
    "q = (if run_Passing r + run_Failing r > 0 then of_int (run_Passing r) / of_int (run_Passing r + run_Failing r) else 0)"
  have xy: "x = tenth (centre n i)" "y = tenth (88 - q * 78)"
    using assms(4) by (auto simp: line_point_def q_def Let_def split: if_splits)
  have "0 \<le> q \<and> q \<le> 1" using assms(2,3) by (simp add: q_def divide_le_eq)
  then have y: "10 \<le> 88 - q * 78" "88 - q * 78 \<le> 88" by simp_all
  have "0 < column_step n" using assms(1) by (simp add: column_step_def)
  then have c: "30 \<le> centre n i" "centre n i \<le> 692" using centre_bounds [OF assms(1)] by linarith+
  show ?thesis
    using tenth_ge [of 30 "centre n i"] tenth_le [of "centre n i" 692] tenth_ge [of 10 "88 - q * 78"] tenth_le [of "88 - q * 78" 88] c y
    by (simp add: xy)
qed

text \<open>The labels: as many as there are runs, six at most, from the first run to the last, each of a later run than the one before.\<close>

lemma label_index_step:
  assumes "2 \<le> k" and "k \<le> n"
  shows "nat \<lfloor>of_nat (li * (n - 1)) / of_nat (k - 1) + 1 / 2 :: rat\<rfloor> < nat \<lfloor>of_nat (Suc li * (n - 1)) / of_nat (k - 1) + 1 / 2 :: rat\<rfloor>"
proof -
  let ?a = "of_nat (li * (n - 1)) / of_nat (k - 1) + 1 / 2 :: rat" and ?b = "of_nat (Suc li * (n - 1)) / of_nat (k - 1) + 1 / 2 :: rat"
  have k: "(0 :: rat) < of_nat (k - 1)" using assms by simp
  have "(of_nat (k - 1) :: rat) \<le> of_nat (n - 1)" using assms by (intro of_nat_mono) simp
  then have "1 \<le> of_nat (n - 1) / (of_nat (k - 1) :: rat)" using k by (simp add: le_divide_eq)
  moreover have "?b = ?a + of_nat (n - 1) / of_nat (k - 1)" by (simp add: add_divide_distrib del: of_nat_diff)
  ultimately have "?a + 1 \<le> ?b" by linarith
  moreover have "nat \<lfloor>a\<rfloor> < nat \<lfloor>b\<rfloor>" if "0 \<le> a" "a + 1 \<le> b" for a b :: rat
    using that floor_mono [OF that(2)] by simp
  moreover have "0 \<le> ?a" by simp
  ultimately show ?thesis by blast
qed

lemma label_indices_props:
  assumes "0 < n"
  shows "length (label_indices n) = min n 6 \<and> sorted_wrt (<) (label_indices n) \<and> hd (label_indices n) = 0 \<and> last (label_indices n) = n - 1"
proof (cases "n = 1")
  case False
  define k where "k = min n 6"
  define f where "f = (\<lambda>li. nat \<lfloor>of_nat (li * (n - 1)) / of_nat (k - 1) + 1 / 2 :: rat\<rfloor>)"
  have k: "2 \<le> k" "k \<le> n" using assms False by (simp_all add: k_def)
  have l: "label_indices n = map f [0..<k]" using False by (simp add: label_indices_def f_def k_def Let_def)
  have step: "f i < f (Suc i)" for i unfolding f_def by (rule label_index_step [OF k])
  have "f i < f j" if "i < j" for i j by (rule lift_Suc_mono_less [of f, OF step that])
  then have "sorted_wrt (<) (map f [0..<k])" by (simp add: sorted_wrt_map sorted_wrt_upt sorted_wrt_iff_nth_less)
  moreover have "f 0 = 0" by (simp add: f_def)
  moreover have "f (k - 1) = n - 1"
  proof -
    have "of_nat ((k - 1) * (n - 1)) / of_nat (k - 1) = (of_nat (n - 1) :: rat)" using k by simp
    moreover have "\<lfloor>of_nat (n - 1) + 1 / 2 :: rat\<rfloor> = int (n - 1)" by (simp add: floor_eq_iff)
    ultimately show ?thesis unfolding f_def by simp
  qed
  ultimately show ?thesis using k by (simp add: l hd_map last_map k_def [symmetric])
qed (simp add: label_indices_def)



section \<open>The properties at an example\<close>

lemma log_follows_title_witness:
  "m_pre (foldl (react (\<lambda>i t. Inr (Plain (t @ itoa i))) (\<lambda>_. Inl []) (\<lambda>_. 0)) closed_window
     [Click_log 7 ''test'', Click_tab ''appium'', Log_answered 0, Image_done False, Log_answered 0]) = ''appium7''"
proof -
  let ?evs = "[Click_log 7 ''test'', Click_tab ''appium'', Log_answered 0, Image_done False, Log_answered 0]"
  let ?la = "\<lambda>i t. Inr (Plain (t @ itoa i)) :: string + answer"
  have "list_all orderly ?evs" by simp
  moreover have "m_title (foldl (react ?la (\<lambda>_. Inl []) (\<lambda>_. 0)) closed_window ?evs) = Log_title ''appium'' 7"
    "m_logs (foldl (react ?la (\<lambda>_. Inl []) (\<lambda>_. 0)) closed_window ?evs) = []" by code_simp+
  ultimately have "m_pre (foldl (react ?la (\<lambda>_. Inl []) (\<lambda>_. 0)) closed_window ?evs) = log_text (?la 7 ''appium'')"
    using log_follows_title [OF _ refl] by blast
  also have "log_text (?la 7 ''appium'') = ''appium7''" by code_simp
  finally show ?thesis .
qed



end
