(* ===== verification/Hub_Run.thy ===== *)
theory Hub_Run
  imports Usb_Monitor Hub_Main Hub_Session Web_Facts
begin

text \<open>
  The rest of \<open>main.go\<close>: the poll interval with \<open>time.ParseDuration\<close>, the start that both modes share, the USB monitor
  with the manager as its callback, and the two branches of local mode. What the components do together is
  shown here: the file that the test containers are told to fetch is the one the program made sure of, and
  what the manager knows of a phone's USB ids.
\<close>

section \<open>Durations\<close>

text \<open>\<open>time.ParseDuration\<close>. \<open>leadingInt\<close> fails beyond \<open>2 ^ 63\<close>; \<open>leadingFraction\<close> drops the digits that no longer fit.\<close>

definition unit_map :: "string \<Rightarrow> int option" where
  "unit_map u =
     map_of [(''ns'', 1), (''us'', 1000), (map char_of [0xC2 :: nat, 0xB5, 0x73], 1000), (map char_of [0xCE :: nat, 0xBC, 0x73], 1000),
       (''ms'', 1000000), (''s'', nanos), (''m'', 60 * nanos), (''h'', 3600 * nanos)] u"

definition leading_digit :: "int \<Rightarrow> char \<Rightarrow> int option" where
  "leading_digit x c =
     (if x > 2 ^ 63 div 10 then None
      else let y = x * 10 + int (digit_val c) in if y > 2 ^ 63 then None else Some y)"

fun leadingInt :: "int \<Rightarrow> string \<Rightarrow> (int \<times> string) option" where
  "leadingInt x [] = Some (x, [])"
| "leadingInt x (c # cs) =
     (if \<not> is_digit c then Some (x, c # cs)
      else case leading_digit x c of None \<Rightarrow> None | Some y \<Rightarrow> leadingInt y cs)"

fun leadingFraction :: "int \<Rightarrow> rat \<Rightarrow> bool \<Rightarrow> string \<Rightarrow> int \<times> rat \<times> string" where
  "leadingFraction x scale over [] = (x, scale, [])"
| "leadingFraction x scale over (c # cs) =
     (if \<not> is_digit c then (x, scale, c # cs)
      else if over \<or> x > (2 ^ 63 - 1) div 10 then leadingFraction x scale True cs
      else let y = x * 10 + int (digit_val c)
           in if y > 2 ^ 63 then leadingFraction x scale True cs else leadingFraction y (fl (scale * 10)) False cs)"

definition ends_unit :: "char \<Rightarrow> bool" where
  "ends_unit c \<longleftrightarrow> c = CHR ''.'' \<or> is_digit c"

text \<open>One number with its unit: the nanoseconds and the rest, or \<open>None\<close> for one of the errors.\<close>

definition duration_part :: "string \<Rightarrow> (int \<times> string) option" where
  "duration_part s =
     (if s = [] \<or> \<not> ends_unit (hd s) then None
      else case leadingInt 0 s of
        None \<Rightarrow> None
      | Some (v, s1) \<Rightarrow>
          let pre = (length s1 \<noteq> length s);
              dot = (s1 \<noteq> [] \<and> hd s1 = CHR ''.'');
              (f, scale, s2) = (if dot then leadingFraction 0 1 False (tl s1) else (0, 1, s1));
              post = (dot \<and> length s2 \<noteq> length (tl s1));
              u = takeWhile (\<lambda>c. \<not> ends_unit c) s2; s3 = dropWhile (\<lambda>c. \<not> ends_unit c) s2
          in if \<not> pre \<and> \<not> post then None
             else if u = [] then None
             else case unit_map u of
               None \<Rightarrow> None
             | Some un \<Rightarrow>
                 if v > 2 ^ 63 div un then None
                 else let w = v * un + (if f > 0 then \<lfloor>fl (fl (of_int f) * fl (of_int un / scale))\<rfloor> else 0)
                      in if w > 2 ^ 63 then None else Some (w, s3))"

lemma leadingInt_length: "leadingInt x s = Some (y, r) \<Longrightarrow> length r \<le> length s"
  by (induction x s rule: leadingInt.induct) (fastforce split: if_splits option.splits)+

lemma leadingFraction_length: "leadingFraction x scale over s = (y, sc, r) \<Longrightarrow> length r \<le> length s"
  by (induction x scale over s rule: leadingFraction.induct) (fastforce simp: Let_def split: if_splits)+

lemma duration_part_shrinks: "duration_part s = Some (v, r) \<Longrightarrow> length r < length s"
proof -
  assume a: "duration_part s = Some (v, r)"
  then obtain v1 s1 where 1: "leadingInt 0 s = Some (v1, s1)" by (auto simp: duration_part_def split: if_splits option.splits)
  define s2 where "s2 = (if s1 \<noteq> [] \<and> hd s1 = CHR ''.'' then snd (snd (leadingFraction 0 1 False (tl s1))) else s1)"
  have "length s2 \<le> length s1"
    using leadingFraction_length [of 0 1 False "tl s1"] by (auto simp: s2_def) (metis diff_le_self le_trans length_tl prod.collapse)
  moreover have "takeWhile (\<lambda>c. \<not> ends_unit c) s2 \<noteq> []" "r = dropWhile (\<lambda>c. \<not> ends_unit c) s2"
    using a 1 by (auto simp: duration_part_def s2_def Let_def case_prod_beta split: if_splits option.splits)
  moreover from this have "length r < length s2"
    by (metis append_Nil append_eq_conv_conj length_dropWhile_le le_neq_implies_less nat_less_le takeWhile_dropWhile_id drop_all order_refl length_append add_cancel_left_left length_0_conv)
  ultimately show ?thesis using leadingInt_length [OF 1] by simp
qed


text \<open>The loop over the parts; each is shorter than the text before it.\<close>

function duration_parts :: "int \<Rightarrow> string \<Rightarrow> int option" where
  "duration_parts d s =
     (if s = [] then Some d
      else case duration_part s of
             None \<Rightarrow> None
           | Some (v, r) \<Rightarrow> if d + v > 2 ^ 63 then None else duration_parts (d + v) r)"
  by pat_completeness auto
termination
  by (relation "measure (\<lambda>(d, s). length s)") (auto dest: duration_part_shrinks)

declare duration_parts.simps [simp del]

definition ParseDuration :: "string \<Rightarrow> duration option" where
  "ParseDuration s =
     (let neg = (s \<noteq> [] \<and> hd s = CHR ''-'');
          t = (if s \<noteq> [] \<and> hd s \<in> {CHR ''-'', CHR ''+''} then tl s else s)
      in if t = ''0'' then Some 0
         else if t = [] then None
         else case duration_parts 0 t of
                None \<Rightarrow> None
              | Some d \<Rightarrow> if neg then Some (- d) else if d > 2 ^ 63 - 1 then None else Some d)"

text \<open>The option, and the ticker made of it, which panics on an interval that is not positive.\<close>

definition interval_default :: "(string \<Rightarrow> string) \<Rightarrow> duration" where
  "interval_default e =
     (if e ''ADBTEST_INTERVAL'' \<noteq> []
      then (case ParseDuration (e ''ADBTEST_INTERVAL'') of Some d \<Rightarrow> d | None \<Rightarrow> seconds 5)
      else seconds 5)"

datatype 'a outcome_of_main = Fatal string | Panicked string | Ran 'a

definition NewTicker :: "duration \<Rightarrow> 'a outcome_of_main \<Rightarrow> 'a outcome_of_main" where
  "NewTicker d go_on = (if d \<le> 0 then Panicked ''non-positive interval for NewTicker'' else go_on)"

section \<open>The start\<close>

text \<open>\<open>filepath.Abs\<close> and \<open>filepath.Dir\<close>; the working directory may be unknown.\<close>

definition abs_path :: "string res \<Rightarrow> string \<Rightarrow> string res" where
  "abs_path wd p =
     (if p \<noteq> [] \<and> hd p = CHR ''/'' then Inr (path_clean p)
      else case wd of Inl e \<Rightarrow> Inl e | Inr d \<Rightarrow> Inr (path_join [d, p]))"

definition dir_name :: "string \<Rightarrow> string" where
  "dir_name p = path_clean (case last_index (CHR ''/'') p of None \<Rightarrow> [] | Some i \<Rightarrow> take (Suc i) p)"

text \<open>What both modes do first: the store, then the APK. The result is the absolute path of the APK and the files.\<close>

record start_world =
  sw_mkdir :: "string option"
  sw_open :: "string option"
  sw_wd :: "string res"
  sw_download :: download

definition start_common :: "start_world \<Rightarrow> options \<Rightarrow> catalogue \<Rightarrow> files \<Rightarrow> (string \<times> catalogue \<times> files) res" where
  "start_common s opts c fs =
     (case Open (sw_mkdir s) (sw_open s) c of
        Inl e \<Rightarrow> Inl (''Store: '' @ e)
      | Inr c' \<Rightarrow>
          (case abs_path (sw_wd s) (o_apkPath opts) of
             Inl e \<Rightarrow> Inl (''APK path: '' @ e)
           | Inr apk \<Rightarrow>
               (case ensureAPK (sw_download s) apk (o_apkURL opts) fs of
                  (Inl e, _) \<Rightarrow> Inl (''APK: '' @ e)
                | (Inr _, fs') \<Rightarrow> Inr (apk, c', fs'))))"

section \<open>The USB monitor and the manager\<close>

text \<open>\<open>usbMon.OnModeChange = mgr.SetUSBInfo\<close>: monitor and manager share the store and the machine.\<close>

definition set_usb_infos :: "(string \<times> string \<times> string \<times> string) list \<Rightarrow> manager \<Rightarrow> manager" where
  "set_usb_infos cs m = foldl (\<lambda>m c. case c of (s, p, v, i) \<Rightarrow> SetUSBInfo s p v i m) m cs"

definition poll_usb ::
  "dworld \<Rightarrow> (snapshot \<Rightarrow> snapshot) \<Rightarrow> (nat \<Rightarrow> string option) \<Rightarrow> db \<Rightarrow> monitor \<times> manager \<Rightarrow> monitor \<times> manager" where
  "poll_usb w ord ins d st =
     (let ((mon, d', calls), tr) = Poll w ord ins True (fst st) d (trace (snd st))
      in (mon, set_usb_infos calls ((snd st)\<lparr>store := Some d', trace := tr\<rparr>)))"

section \<open>Local mode\<close>

text \<open>The steps of the goroutines: a tick of the USB monitor, what \<open>TrackDevices\<close> reports, and a cycle that was asked for by
  the reconcile channel. The state is the monitor, the last snapshot and the manager.\<close>

datatype local_event =
    Usb_tick dworld "snapshot \<Rightarrow> snapshot" "nat \<Rightarrow> string option"
  | Watched watch_event
  | Asked dworld

type_synonym local_state = "monitor \<times> string \<times> manager"

definition usb_tick :: "dworld \<Rightarrow> (snapshot \<Rightarrow> snapshot) \<Rightarrow> (nat \<Rightarrow> string option) \<Rightarrow> monitor \<Rightarrow> manager \<Rightarrow> monitor \<times> manager" where
  "usb_tick w ord ins mon m = (case store m of None \<Rightarrow> (mon, m) | Some d \<Rightarrow> poll_usb w ord ins d (mon, m))"

fun local_step :: "local_event \<Rightarrow> local_state \<Rightarrow> local_state" where
  "local_step (Usb_tick w ord ins) (mon, snap, m) = (let (mon', m') = usb_tick w ord ins mon m in (mon', snap, m'))"
| "local_step (Watched e) (mon, snap, m) = (mon, watch_step e (snap, m))"
| "local_step (Asked w) (mon, snap, m) = (mon, snap, reconcileDevices w [] m)"

definition main_local ::
  "dworld \<Rightarrow> string option \<Rightarrow> options \<Rightarrow> duration \<Rightarrow> string \<Rightarrow> db \<Rightarrow> (snapshot \<Rightarrow> snapshot) \<Rightarrow> (nat \<Rightarrow> string option)
   \<Rightarrow> local_event list \<Rightarrow> local_state outcome_of_main" where
  "main_local w client_error opts interval apk d ord ins es =
     (case start_local w client_error opts apk (Some d) of
        Inl e \<Rightarrow> Fatal e
      | Inr m \<Rightarrow>
          if o_watch opts then
            NewTicker interval (Ran (foldl (\<lambda>s e. local_step e s) (NewMonitor, '''', reconcileDevices w [] m) es))
          else Ran (let (mon, m1) = usb_tick w ord ins NewMonitor m in (mon, '''', reconcileDevices w [] m1)))"

text \<open>Hub mode: the checks of the pods between the messages of the hub server; a new connection starts with no devices.\<close>

datatype hub_event = Checked kworld | Message kworld ws_msg | Disconnected

definition hub_step :: "(hub_device list \<Rightarrow> hub_device list) \<Rightarrow> hub_event \<Rightarrow> (peers \<times> k8s_manager) option \<Rightarrow> (peers \<times> k8s_manager) option" where
  "hub_step rng e st =
     (case st of
        None \<Rightarrow> None
      | Some (ps, m) \<Rightarrow>
          (case e of
             Checked w \<Rightarrow> Some (ps, snd (run_event (K_check w) m))
           | Message w msg \<Rightarrow> handle_msg rng (manager_handler w) msg (ps, m)
           | Disconnected \<Rightarrow> Some ([], m)))"

definition main_hub :: "kworld \<Rightarrow> options \<Rightarrow> string \<Rightarrow> db \<Rightarrow> (hub_device list \<Rightarrow> hub_device list) \<Rightarrow> hub_event list \<Rightarrow> k8s_manager outcome_of_main" where
  "main_hub w opts apk d rng es =
     (case start_hub w opts apk (Some d) of
        Inl e \<Rightarrow> Fatal e
      | Inr m \<Rightarrow>
          (case foldl (\<lambda>st e. hub_step rng e st) (Some ([], m)) es of
             None \<Rightarrow> Panicked ''nil pointer''
           | Some (ps, m') \<Rightarrow> Ran m'))"

definition hub_mode :: "options \<Rightarrow> bool" where
  "hub_mode opts \<longleftrightarrow> o_hubURL opts \<noteq> []"


section \<open>The calls of the monitor\<close>

lemma set_usb_infos_other:
  "(\<And>p v i. (s, p, v, i) \<notin> set cs) \<Longrightarrow> usbCache (set_usb_infos cs m) s = usbCache m s"
proof (induction cs arbitrary: m)
  case (Cons c cs)
  obtain s' p v i where c: "c = (s', p, v, i)" by (metis prod_cases4)
  with Cons.prems [of p v i] have "s' \<noteq> s" by auto
  then have "usbCache (SetUSBInfo s' p v i m) s = usbCache m s" by (simp add: SetUSBInfo_def)
  moreover have "usbCache (set_usb_infos cs (SetUSBInfo s' p v i m)) s = usbCache (SetUSBInfo s' p v i m) s"
    by (rule Cons.IH) (use Cons.prems in auto)
  ultimately show ?case by (simp add: set_usb_infos_def c)
qed (simp add: set_usb_infos_def)

lemma set_usb_infos_one:
  assumes "(s, p, v, i) \<in> set cs" and "s \<noteq> []" and "\<And>p' v' i'. (s, p', v', i') \<in> set cs \<Longrightarrow> (p', v', i') = (p, v, i)"
  shows "usbCache (set_usb_infos cs m) s = Some (p, v, i)"
  using assms(1,3)
proof (induction cs arbitrary: m)
  case (Cons c cs)
  show ?case
  proof (cases "\<exists>p' v' i'. (s, p', v', i') \<in> set cs")
    case True
    then have "(s, p, v, i) \<in> set cs" using Cons.prems(2) by fastforce
    then have "usbCache (set_usb_infos cs m') s = Some (p, v, i)" for m'
      by (rule Cons.IH) (use Cons.prems(2) in auto)
    then show ?thesis by (simp add: set_usb_infos_def)
  next
    case False
    with Cons.prems(1) have "c = (s, p, v, i)" by auto
    moreover have "usbCache (set_usb_infos cs m') s = usbCache m' s" for m'
      by (rule set_usb_infos_other) (use False in blast)
    ultimately show ?thesis using assms(2) by (simp add: set_usb_infos_def SetUSBInfo_def)
  qed
qed simp

lemma poll_usb_calls:
  assumes "permutes ord"
  shows "\<exists>calls d' tr. snd (poll_usb w ord ins d (mon, m)) = set_usb_infos calls (m\<lparr>store := Some d', trace := tr\<rparr>) \<and>
    prev (fst (poll_usb w ord ins d (mon, m))) = cur_map (fst (observe w (trace m))) \<and>
    (\<forall>c. c \<in> set calls \<longleftrightarrow> (\<exists>p n q. map_of (cur_map (fst (observe w (trace m)))) p = Some n \<and> map_of (prev mon) p = Some q \<and>
      (ud_VID q \<noteq> ud_VID n \<or> ud_PID q \<noteq> ud_PID n) \<and> ud_Serial n \<noteq> [] \<and> c = (ud_Serial n, p, ud_VID n, ud_PID n)))"
proof -
  obtain mon' d' calls tr where p: "Poll w ord ins True mon d (trace m) = ((mon', d', calls), tr)" by (metis prod.exhaust)
  from Poll_result(2) [OF p] obtain t where t: "perform ins True 0 (poll_actions ord t (prev mon) (prev mon')) d = (d', calls)" ..
  have "calls = concat (map mode_change (poll_actions ord t (prev mon) (prev mon')))"
    using perform_calls [of ins True 0 "poll_actions ord t (prev mon) (prev mon')" d] t by simp
  moreover have "wf_snap (prev mon')" by (simp add: Poll_result(1) [OF p] wf_snap_cur_map)
  ultimately have "\<forall>c. c \<in> set calls \<longleftrightarrow> (\<exists>p n q. map_of (prev mon') p = Some n \<and> map_of (prev mon) p = Some q \<and>
      (ud_VID q \<noteq> ud_VID n \<or> ud_PID q \<noteq> ud_PID n) \<and> ud_Serial n \<noteq> [] \<and> c = (ud_Serial n, p, ud_VID n, ud_PID n))"
    using poll_mode_changes [OF assms] by blast
  then show ?thesis unfolding Poll_result(1) [OF p]
    by (intro exI [of _ calls] exI [of _ d'] exI [of _ tr]) (simp add: poll_usb_def p Poll_result(1) [OF p])
qed

section \<open>Absolute paths\<close>

definition plain_parts :: "string list \<Rightarrow> bool" where
  "plain_parts cs \<longleftrightarrow> (\<forall>c \<in> set cs. c \<notin> {[], ''.'', ''..''} \<and> CHR ''/'' \<notin> set c)"

lemma split_on_both: "split_on c (a @ c # b) = split_on c a @ split_on c b"
proof (induction a)
  case (Cons x a)
  then show ?case by (cases "split_on c a") auto
qed simp

lemma split_plain: "plain_parts cs \<Longrightarrow> cs \<noteq> [] \<Longrightarrow> split_on (CHR ''/'') (join ''/'' cs) = cs"
  by (rule split_on_join) (auto simp: plain_parts_def)

lemma foldl_clean_plain:
  "plain_parts out \<Longrightarrow> \<forall>c \<in> set xs. CHR ''/'' \<notin> set c \<Longrightarrow> plain_parts (foldl (clean_step True) out xs)"
proof (induction xs arbitrary: out)
  case (Cons x xs)
  have "plain_parts (clean_step True out x)"
    using Cons.prems by (auto simp: clean_step_def plain_parts_def dest: in_set_butlastD)
  with Cons show ?case by simp
qed simp

lemma clean_rooted: "\<exists>cs. plain_parts cs \<and> path_clean (CHR ''/'' # s) = CHR ''/'' # join ''/'' cs"
proof -
  let ?cs = "foldl (clean_step True) [] (split_on (CHR ''/'') (CHR ''/'' # s))"
  have "plain_parts ?cs"
    by (rule foldl_clean_plain) (auto simp: plain_parts_def dest: split_on_pieces)
  moreover have "path_clean (CHR ''/'' # s) = CHR ''/'' # join ''/'' ?cs" by (simp add: path_clean_def Let_def)
  ultimately show ?thesis by blast
qed

lemma clean_rooted_parts:
  assumes "filter (\<lambda>c. c \<noteq> []) (split_on (CHR ''/'') s) = cs" and "plain_parts cs"
  shows "path_clean (CHR ''/'' # s) = CHR ''/'' # join ''/'' cs"
proof -
  have skip: "foldl (clean_step True) out xs = foldl (clean_step True) out (filter (\<lambda>c. c \<noteq> []) xs)" for out xs
    by (induction xs arbitrary: out) (simp_all add: clean_step_def)
  have "foldl (clean_step True) [] (split_on (CHR ''/'') (CHR ''/'' # s)) = foldl (clean_step True) [] cs"
    using skip [of "[]" "split_on (CHR ''/'') (CHR ''/'' # s)"] assms(1) by simp
  also have "\<dots> = cs" using clean_parts [of cs True "[]"] assms(2) by (auto simp: plain_parts_def)
  finally show ?thesis by (simp add: path_clean_def Let_def)
qed

lemma abs_rooted:
  assumes "abs_path wd p = Inr a" and "\<And>d. wd = Inr d \<Longrightarrow> d \<noteq> [] \<and> hd d = CHR ''/''"
  shows "\<exists>cs. plain_parts cs \<and> a = CHR ''/'' # join ''/'' cs"
proof (cases "p \<noteq> [] \<and> hd p = CHR ''/''")
  case True
  with assms(1) have "a = path_clean (CHR ''/'' # tl p)" by (cases p) (auto simp: abs_path_def)
  with clean_rooted [of "tl p"] show ?thesis by simp
next
  case False
  with assms(1) obtain d where d: "wd = Inr d" "a = path_join [d, p]" by (auto simp: abs_path_def split: sum.splits)
  with assms(2) obtain s where "d = CHR ''/'' # s" by (cases d) auto
  then have "a = path_clean (CHR ''/'' # s @ ''/'' @ p)" using d(2) by (simp add: path_join_def)
  with clean_rooted [of "s @ ''/'' @ p"] show ?thesis by simp
qed

lemma join_snoc: "join sep (cs @ [c]) = (if cs = [] then c else join sep cs @ sep @ c)"
  by (induction sep cs rule: join.induct) auto

lemma dir_and_base:
  assumes "plain_parts (cs @ [c])" and "p = CHR ''/'' # join ''/'' (cs @ [c])"
  shows "base_name p = c" and "dir_name p = CHR ''/'' # join ''/'' cs" and "path_join [dir_name p, c] = p"
proof -
  have c: "c \<noteq> []" "CHR ''/'' \<notin> set c" and cs: "plain_parts cs" using assms(1) by (simp_all add: plain_parts_def)
  define pre where "pre = (if cs = [] then [] else CHR ''/'' # join ''/'' cs)"
  have p: "p = pre @ CHR ''/'' # c" by (simp add: assms(2) pre_def join_snoc)
  have "rev (dropWhile (\<lambda>x. x = CHR ''/'') (rev p)) = p"
  proof -
    have "rev c \<noteq> [] \<and> hd (rev c) \<noteq> CHR ''/''" using c by (metis hd_in_set rev_is_Nil_conv set_rev)
    then have "dropWhile (\<lambda>x. x = CHR ''/'') (rev c @ CHR ''/'' # rev pre) = rev c @ CHR ''/'' # rev pre"
      by (intro dropWhile_id) simp
    then show ?thesis by (simp add: p)
  qed
  then show "base_name p = c"
    by (simp add: base_name_def Let_def p split_on_both split_on_no_sep [OF c(2)])
  have "last_index (CHR ''/'') p = Some (length pre)"
    using c(2) by (simp add: p last_index_append last_index_None [THEN iffD2])
  then have "dir_name p = path_clean (pre @ ''/'')" by (simp add: dir_name_def p)
  also have "\<dots> = path_clean (CHR ''/'' # (if cs = [] then [] else join ''/'' cs @ ''/''))" by (simp add: pre_def)
  also have "\<dots> = CHR ''/'' # join ''/'' cs"
  proof (rule clean_rooted_parts [OF _ cs])
    have "filter (\<lambda>c. c \<noteq> []) cs = cs" using cs by (auto simp: plain_parts_def filter_id_conv)
    then show "filter (\<lambda>c. c \<noteq> []) (split_on (CHR ''/'') (if cs = [] then [] else join ''/'' cs @ ''/'')) = cs"
      using split_on_both [of "CHR ''/''" "join ''/'' cs" "[]"] split_plain [OF cs] by auto
  qed
  finally show d: "dir_name p = CHR ''/'' # join ''/'' cs" .
  have "path_join [dir_name p, c] = path_clean (CHR ''/'' # (join ''/'' cs @ ''/'' @ c))" by (simp add: d path_join_def)
  also have "\<dots> = CHR ''/'' # join ''/'' (cs @ [c])"
  proof (rule clean_rooted_parts [OF _ assms(1)])
    have "filter (\<lambda>c. c \<noteq> []) cs = cs" using cs by (auto simp: plain_parts_def filter_id_conv)
    then show "filter (\<lambda>c. c \<noteq> []) (split_on (CHR ''/'') (join ''/'' cs @ ''/'' @ c)) = cs @ [c]"
      using split_on_both [of "CHR ''/''" "join ''/'' cs" c] split_plain [OF cs] split_on_no_sep [OF c(2)] c(1)
      by (cases "cs = []") auto
  qed
  finally show "path_join [dir_name p, c] = p" using assms(2) by simp
qed

section \<open>Properties\<close>

text \<open>C14: A phone that has changed its USB mode on its port may be tested, after the next tick of the USB monitor, exactly when
  its new ids are those its configuration asks for, in either case of the letters.\<close>

theorem mode_change_reaches_manager:
  assumes "permutes ord" and "m' = snd (poll_usb w ord ins d (mon, m))" and "bus = map_of (cur_map (fst (observe w (trace m))))"
    and "bus p = Some n" and "map_of (prev mon) p = Some q" and "ud_VID q \<noteq> ud_VID n \<or> ud_PID q \<noteq> ud_PID n"
    and "ud_Serial n \<noteq> []" and "\<And>p' n'. bus p' = Some n' \<Longrightarrow> ud_Serial n' = ud_Serial n \<Longrightarrow> p' = p"
    and "confs (ud_Serial n) = Some c" and "cfg_TestVID c \<noteq> []"
  shows "vidPidOK m' confs (ud_Serial n) \<longleftrightarrow> equal_fold (ud_VID n) (cfg_TestVID c) \<and> equal_fold (ud_PID n) (cfg_TestPID c)"
proof -
  obtain calls d' tr where c: "m' = set_usb_infos calls (m\<lparr>store := Some d', trace := tr\<rparr>)"
    "\<And>c. c \<in> set calls \<longleftrightarrow> (\<exists>p n q. bus p = Some n \<and> map_of (prev mon) p = Some q \<and>
      (ud_VID q \<noteq> ud_VID n \<or> ud_PID q \<noteq> ud_PID n) \<and> ud_Serial n \<noteq> [] \<and> c = (ud_Serial n, p, ud_VID n, ud_PID n))"
    using poll_usb_calls [OF assms(1), of w ins d mon m] unfolding assms(2,3) by blast
  have one: "(p', v', i') = (p, ud_VID n, ud_PID n)" if call: "(ud_Serial n, p', v', i') \<in> set calls" for p' v' i'
  proof -
    obtain n' where n': "bus p' = Some n'" "ud_Serial n' = ud_Serial n" "v' = ud_VID n'" "i' = ud_PID n'"
      using call unfolding c(2) by auto
    moreover have "p' = p" by (rule assms(8) [OF n'(1,2)])
    ultimately show ?thesis using assms(4) by simp
  qed
  have "(ud_Serial n, p, ud_VID n, ud_PID n) \<in> set calls" unfolding c(2) using assms(4-7) by blast
  from set_usb_infos_one [OF this assms(7) one]
  have "usbCache m' (ud_Serial n) = Some (p, ud_VID n, ud_PID n)" unfolding c(1) by blast
  with assms(9,10) show ?thesis by (simp add: vidPidOK_def)
qed

text \<open>C15: A phone that comes new to a port is not made known to the manager: one that was in the wrong mode by what was known of it,
  or of which nothing was known though it has a configuration, is turned away as before when the monitor has seen it
  on its new port, also in the very mode that its configuration asks for.\<close>

theorem new_phone_turned_away:
  assumes "permutes ord" and "m' = snd (poll_usb w ord ins d (mon, m))" and "bus = map_of (cur_map (fst (observe w (trace m))))"
    and "\<And>p n. bus p = Some n \<Longrightarrow> ud_Serial n = s \<Longrightarrow> map_of (prev mon) p = None"
    and "\<not> vidPidOK m confs s" and "map_of ex s = None"
  shows "reconcile_device w' confs (s, dev) ex m' = (Wrong_mode, ex, m')"
proof -
  obtain calls d' tr where c: "m' = set_usb_infos calls (m\<lparr>store := Some d', trace := tr\<rparr>)"
    "\<And>c. c \<in> set calls \<longleftrightarrow> (\<exists>p n q. bus p = Some n \<and> map_of (prev mon) p = Some q \<and>
      (ud_VID q \<noteq> ud_VID n \<or> ud_PID q \<noteq> ud_PID n) \<and> ud_Serial n \<noteq> [] \<and> c = (ud_Serial n, p, ud_VID n, ud_PID n))"
    using poll_usb_calls [OF assms(1), of w ins d mon m] unfolding assms(2,3) by blast
  have "usbCache m' s = usbCache (m\<lparr>store := Some d', trace := tr\<rparr>) s"
    unfolding c(1) by (rule set_usb_infos_other) (use assms(4) c(2) in fastforce)
  then have "usbCache m' s = usbCache m s" by simp
  then have "vidPidOK m' confs s = vidPidOK m confs s" unfolding vidPidOK_def by (simp only:)
  then have "\<not> vidPidOK m' confs s" using assms(5) by simp
  with assms(6) show ?thesis by (simp add: reconcile_device_def ensure_appium_def found_def Let_def)
qed

text \<open>The host of the examples with the phone \<open>R58M\<close> on port \<open>1-3.2\<close> of the bus.\<close>

definition usb_world :: dworld where
  "usb_world = demo_world\<lparr>dir_answer := (\<lambda>_ _. Inr [''1-3.2'', ''1-3.2:1.0'', ''1-4'']), file_answer := (\<lambda>_. bus_files)\<rparr>"

definition phone :: usb_device where
  "phone = \<lparr>ud_Path = ''1-3.2'', ud_VID = ''04e8'', ud_PID = ''6860'', ud_Serial = ''R58M'',
    ud_Product = '''', ud_Vendor = ''Samsung'', ud_InADB = False\<rparr>"

lemma usb_bus: "cur_map (fst (observe usb_world tr)) = [(''1-3.2'', phone)]"
proof -
  have st: "stable usb_world bus_files" by (simp add: stable_def usb_world_def)
  have entries: "\<forall>tr. dir_answer usb_world tr sysfs = Inr [''1-3.2'', ''1-3.2:1.0'', ''1-4'']"
    by (simp add: usb_world_def)
  have "map_of androidVendors ''04e8'' = Some ''Samsung''" "map_of androidVendors ''046d'' = None"
    by (simp_all add: androidVendors_def)
  then have "fst (USBAndroidDevices usb_world tr) = [phone]"
    using entries
    by (simp add: USBAndroidDevices_def read_dir_def case_prod_beta Let_def attribute_stable [OF st, simplified]
        bus_attributes phone_def)
  moreover have "fst (ListDevices usb_world tr') = Inr []" for tr'
    by (simp add: ListDevices_def exec_def usb_world_def demo_world_def after_first_line_def parseDeviceList_def nl_def)
  ultimately show ?thesis by (simp add: observe_def case_prod_beta mark_adb_def cur_map_def phone_def)
qed

definition phone_config :: device_config where
  "phone_config = \<lparr>cfg_Serial = ''R58M'', cfg_TestVID = ''04E8'', cfg_TestPID = ''6860''\<rparr>"

theorem mode_change_reaches_manager_witness:
  "vidPidOK (snd (poll_usb usb_world (\<lambda>m. m) (\<lambda>_. None) empty_db (charging, demo_manager))) [''R58M'' \<mapsto> phone_config] ''R58M''"
proof -
  have fold: "equal_fold ''04e8'' ''04E8''" "equal_fold ''6860'' ''6860''" by code_simp+
  have ord: "permutes (\<lambda>m. m)" by (simp add: permutes_def)
  let ?bus = "map_of (cur_map (fst (observe usb_world (trace demo_manager))))"
  have bus: "?bus ''1-3.2'' = Some phone" "ud_Serial phone \<noteq> []" "\<And>p' n'. ?bus p' = Some n' \<Longrightarrow> p' = ''1-3.2''"
    by (simp_all add: usb_bus phone_def split: if_splits)
  have old: "map_of (prev charging) ''1-3.2'' = Some (snd (hd (prev charging)))"
    "ud_VID (snd (hd (prev charging))) \<noteq> ud_VID phone \<or> ud_PID (snd (hd (prev charging))) \<noteq> ud_PID phone"
    by (simp_all add: charging_def phone_def)
  have conf: "[''R58M'' \<mapsto> phone_config] (ud_Serial phone) = Some phone_config" "cfg_TestVID phone_config \<noteq> []"
    by (simp_all add: phone_def phone_config_def)
  have "vidPidOK (snd (poll_usb usb_world (\<lambda>m. m) (\<lambda>_. None) empty_db (charging, demo_manager))) [''R58M'' \<mapsto> phone_config] (ud_Serial phone) \<longleftrightarrow>
      equal_fold (ud_VID phone) (cfg_TestVID phone_config) \<and> equal_fold (ud_PID phone) (cfg_TestPID phone_config)"
    by (rule mode_change_reaches_manager [where bus = ?bus and p = "''1-3.2''" and q = "snd (hd (prev charging))", OF ord refl refl])
      (erule bus(3) | fact bus(1,2) old conf)+
  with fold show ?thesis by (simp add: phone_def phone_config_def)
qed

theorem new_phone_turned_away_witness:
  "fst (reconcile_device demo_world [''R58M'' \<mapsto> phone_config] (''R58M'', demo_device) []
     (snd (poll_usb usb_world (\<lambda>m. m) (\<lambda>_. None) empty_db (NewMonitor, demo_manager)))) = Wrong_mode"
proof -
  have "usbCache demo_manager ''R58M'' = None"
    by (simp add: demo_manager_def SetReconcile_def NewManager_def Let_def LatestUSBInfoPerDevice_def demo_world_def
        empty_db_def emit_def)
  then have "\<not> vidPidOK demo_manager [''R58M'' \<mapsto> phone_config] ''R58M''" by (simp add: vidPidOK_def phone_config_def)
  with new_phone_turned_away [of "\<lambda>m. m" _ usb_world "\<lambda>_. None" empty_db NewMonitor demo_manager _ "''R58M''"
      "[''R58M'' \<mapsto> phone_config]" "[]" demo_world demo_device, OF _ refl refl]
  show ?thesis by (simp add: permutes_def NewMonitor_def)
qed

text \<open>The file that the test containers are told to fetch is the APK the program made sure of: after the start, the file
  is there, the URL in the configuration of the Docker manager ends with the path under which the server has it,
  and the file server answers that path with this very file, wherever the APK is and however its path was given.\<close>

theorem apk_is_served:
  assumes "start_common s opts c fs = Inr (apk, c', fs')" and "\<And>d. sw_wd s = Inr d \<Longrightarrow> d \<noteq> [] \<and> hd d = CHR ''/''"
    and "apk \<noteq> ''/''" and "Path r = ''/apk/'' @ base_name apk"
  shows "fs' apk \<noteq> None \<and> APKServeURL (docker_config opts apk) = ''http://localhost'' @ o_httpAddr opts @ Path r \<and>
    (\<exists>dir file. serve w q off (dir_name apk) r m = (File dir file, m) \<and> path_join [dir, file] = apk)"
proof -
  have a: "abs_path (sw_wd s) (o_apkPath opts) = Inr apk" and e: "ensureAPK (sw_download s) apk (o_apkURL opts) fs = (Inr (), fs')"
    using assms(1) by (auto simp: start_common_def split: sum.splits prod.splits)
  obtain cs where cs: "plain_parts cs" "apk = CHR ''/'' # join ''/'' cs" using abs_rooted [OF a assms(2)] by blast
  with assms(3) have "cs \<noteq> []" by auto
  then obtain ds b where b: "cs = ds @ [b]" by (metis append_butlast_last_id)
  from cs dir_and_base [of ds b apk] have d: "base_name apk = b" "path_join [dir_name apk, b] = apk" by (simp_all add: b)
  have "apk \<noteq> apk @ ''.tmp''" by simp
  with e have "fs' apk \<noteq> None" by (auto simp: ensureAPK_def Let_def split: if_splits option.splits sum.splits prod.splits)
  moreover have "serve w q off (dir_name apk) r m = (File (dir_name apk) b, m)"
    by (simp add: serve_def assms(4) d(1) has_prefix_def trim_prefix_def)
  ultimately show ?thesis using d by (simp add: docker_config_def assms(4))
qed

definition demo_start :: start_world where
  "demo_start = \<lparr>sw_mkdir = None, sw_open = None, sw_wd = Inr ''/opt/hub-test'',
     sw_download = \<lparr>stat_fails = False, mkdir_error = None, http_reply = (\<lambda>_. Inr (200, ''PK'')), create_error = None, copy_error = None, copied = 0,
       close_keeps = None, rename_error = None, remove_fails = False\<rparr>\<rparr>"

definition demo_options :: options where
  "demo_options = default_options (\<lambda>_. '''') ''dev''"

lemma demo_starts:
  "\<exists>c'. start_common demo_start demo_options \<lparr>tables = [], indexes = []\<rparr> Map.empty =
    Inr (''/opt/hub-test/apk/ApiDemos-debug.apk'', c', [''/opt/hub-test/apk/ApiDemos-debug.apk'' \<mapsto> ''PK''])"
proof -
  have "sane \<lparr>tables = [], indexes = []\<rparr>" by (simp add: sane_def)
  moreover have "\<forall>t \<in> set []. has_columns \<lparr>tables = [], indexes = []\<rparr> t (base t)" by simp
  ultimately obtain c1 where "exec_all schema \<lparr>tables = [], indexes = []\<rparr> = Some c1"
    using exec_all_sound [OF _ schema_sound] by blast
  moreover have "abs_path (Inr ''/opt/hub-test'') ''apk/ApiDemos-debug.apk'' = Inr ''/opt/hub-test/apk/ApiDemos-debug.apk''"
    by code_simp
  moreover have "o_apkPath demo_options = ''apk/ApiDemos-debug.apk''" "o_apkURL demo_options \<noteq> []"
    by (simp_all add: demo_options_def default_options_def envOr_def default_apk_url_def)
  ultimately show ?thesis
    by (simp add: start_common_def demo_start_def Open_def ensureAPK_def closed_file_def Let_def fun_upd_twist)
qed

theorem apk_is_served_witness:
  "\<exists>dir file. fst (serve demo_world demo_queries (\<lambda>_. 0) (dir_name ''/opt/hub-test/apk/ApiDemos-debug.apk'')
      \<lparr>Path = ''/apk/ApiDemos-debug.apk'', Method = ''GET'', Query = (\<lambda>_. ''''), Body = Inl ''''\<rparr> demo_manager) = File dir file \<and>
    path_join [dir, file] = ''/opt/hub-test/apk/ApiDemos-debug.apk''"
proof -
  let ?r = "\<lparr>Path = ''/apk/ApiDemos-debug.apk'', Method = ''GET'', Query = (\<lambda>_. ''''), Body = Inl ''''\<rparr>"
  obtain c' where s: "start_common demo_start demo_options \<lparr>tables = [], indexes = []\<rparr> Map.empty =
    Inr (''/opt/hub-test/apk/ApiDemos-debug.apk'', c', [''/opt/hub-test/apk/ApiDemos-debug.apk'' \<mapsto> ''PK''])"
    using demo_starts by blast
  have wd: "\<And>d. sw_wd demo_start = Inr d \<Longrightarrow> d \<noteq> [] \<and> hd d = CHR ''/''" by (auto simp: demo_start_def)
  have base: "base_name ''/opt/hub-test/apk/ApiDemos-debug.apk'' = ''ApiDemos-debug.apk''" by code_simp
  then have "Path ?r = ''/apk/'' @ base_name ''/opt/hub-test/apk/ApiDemos-debug.apk''" by simp
  moreover have "''/opt/hub-test/apk/ApiDemos-debug.apk'' \<noteq> ''/''" by simp
  ultimately have "\<exists>dir file. serve demo_world demo_queries (\<lambda>_. 0) (dir_name ''/opt/hub-test/apk/ApiDemos-debug.apk'') ?r demo_manager =
      (File dir file, demo_manager) \<and> path_join [dir, file] = ''/opt/hub-test/apk/ApiDemos-debug.apk''"
    using apk_is_served [OF s wd] by blast
  then show ?thesis by (metis fst_conv)
qed

text \<open>An interval that parses but is not positive, such as \<open>0\<close> in the environment, stops watch mode with a panic, after
  the start has succeeded and before the first cycle; a text that is no duration leaves the default of five seconds,
  with which the program runs.\<close>

theorem interval_not_checked:
  assumes "start_local w client_error opts apk (Some d) = Inr m" and "o_watch opts"
  shows "(\<forall>i. ParseDuration (e ''ADBTEST_INTERVAL'') = Some i \<and> e ''ADBTEST_INTERVAL'' \<noteq> [] \<and> i \<le> 0 \<longrightarrow>
      main_local w client_error opts (interval_default e) apk d ord ins es = Panicked ''non-positive interval for NewTicker'') \<and>
    (ParseDuration (e ''ADBTEST_INTERVAL'') = None \<longrightarrow>
      (\<exists>s. main_local w client_error opts (interval_default e) apk d ord ins es = Ran s)) \<and>
    ParseDuration ''0'' = Some 0"
proof -
  have five: "\<not> seconds 5 \<le> 0" by (simp add: seconds_def nanos_def)
  define s where "s = foldl (\<lambda>s e. local_step e s) (NewMonitor, [], reconcileDevices w [] m) es"
  have run: "main_local w client_error opts (interval_default e) apk d ord ins es = NewTicker (interval_default e) (Ran s)"
    using assms by (simp add: main_local_def s_def)
  have "main_local w client_error opts (interval_default e) apk d ord ins es = Ran s" if "ParseDuration (e ''ADBTEST_INTERVAL'') = None"
    unfolding run using five that by (simp add: NewTicker_def interval_default_def)
  moreover have "ParseDuration ''0'' = Some 0" by (simp add: ParseDuration_def)
  moreover have "main_local w client_error opts (interval_default e) apk d ord ins es = Panicked ''non-positive interval for NewTicker''"
    if "ParseDuration (e ''ADBTEST_INTERVAL'') = Some i" "e ''ADBTEST_INTERVAL'' \<noteq> []" "i \<le> 0" for i
    unfolding run using that by (simp add: NewTicker_def interval_default_def)
  ultimately show ?thesis by blast
qed

lemma demo_local:
  "\<exists>m. start_local demo_world None (demo_options\<lparr>o_watch := True\<rparr>) ''/opt/hub-test/apk/ApiDemos-debug.apk'' (Some empty_db) = Inr m"
  by (simp add: start_local_def demo_options_def default_options_def envOr_def envOrBool_def Let_def)

theorem interval_not_checked_witness:
  "main_local demo_world None (demo_options\<lparr>o_watch := True\<rparr>) (interval_default (\<lambda>_. ''-5s'')) ''/opt/hub-test/apk/ApiDemos-debug.apk''
     empty_db (\<lambda>m. m) (\<lambda>_. None) [] = Panicked ''non-positive interval for NewTicker''"
proof -
  obtain m where m: "start_local demo_world None (demo_options\<lparr>o_watch := True\<rparr>) ''/opt/hub-test/apk/ApiDemos-debug.apk'' (Some empty_db) = Inr m"
    using demo_local by blast
  have "ParseDuration ''-5s'' = Some (- seconds 5)" by code_simp
  moreover have "- seconds 5 \<le> 0" by (simp add: seconds_def nanos_def)
  ultimately show ?thesis using interval_not_checked [OF m, of "\<lambda>_. ''-5s''" "\<lambda>m. m" "\<lambda>_. None" "[]"] by auto
qed

end
