(* ===== verification/Spec2Isabelle.thy ===== *)
theory Spec2Isabelle
  imports Hub_Prelude Go_Time Host Run_Store Adb_Client Usb_Monitor Test_Report Shared_Types Docker_Manager Docker_Facts Docker_Cycles
    K8s_Client Hub_Client K8s_Manager K8s_Facts Hub_Session Hub_Main Web_Server Web_Facts Dash_Page Dash_Usb Dash_Modal Hub_Run
begin

text \<open>
  A model of \<open>hub-test\<close>, a Go program that runs an Appium test suite over and over on every phone it can
  reach, and the properties that make it correct.

  \<^bold>\<open>The program.\<close> In local mode (\<open>main.go\<close>) it follows the device list of the ADB server
  (\<open>internal/adb\<close>). Each change starts a cycle of the Docker manager (\<open>internal/docker\<close>): an Appium
  container and a test container per device, the results of a finished test read from its log and stored,
  the device rebooted, and so again. A USB monitor (\<open>internal/usb\<close>) logs what happens on the bus. In hub
  mode the devices are behind a server that sends events over a WebSocket, and the manager of
  \<open>internal/k8s\<close> creates a pod per device and collects it. Both managers write to a SQLite store
  (\<open>internal/store\<close>), which the dashboard (\<open>internal/web\<close>) reads; after each change they tell the hub of
  the open pages to refresh.

  \<^bold>\<open>The theories.\<close> Names are those of the source; where two packages use one name, the later one has a suffix.

  \<^item> \<open>Hub_Prelude\<close>: Go's functions on strings and decimal numbers, the collection \<open>frame\<close>, the locale \<open>once\<close>
    of steps that hand out keys.
  \<^item> \<open>Go_Time\<close>: instants and the RFC 3339 text in which the store keeps and compares them.
  \<^item> \<open>Host\<close>: the machine. A \<open>world\<close> answers every call that leaves the program (processes, files, sockets, the clock),
    from the history of all calls before; a theorem over every world speaks of every behaviour of the machine. The
    services that only one component uses extend the record.
  \<^item> \<open>Run_Store\<close> (\<open>store.go\<close>): the tables as lists of rows, every method of \<open>Store\<close>, the schema and its migrations.
    The locales \<open>run_log\<close> and \<open>config_map\<close> are what the clients rely on; the SQL is their interpretation.
  \<^item> \<open>Adb_Client\<close> (\<open>adb/client.go\<close>): device lists and their stream, commands to a device, the wait for a reboot, the
    battery, the USB bus under \<open>/sys\<close>.
  \<^item> \<open>Usb_Monitor\<close> (\<open>usb/monitor.go\<close>): one poll, its diff, records and callback.
  \<^item> \<open>Test_Report\<close> (\<open>docker/manager.go\<close>, lines 90 to 135 and the parser of \<open>reportTestResult\<close>): the summary of a run.
  \<^item> \<open>Shared_Types\<close> (\<open>types.go\<close>).
  \<^item> \<open>Docker_Manager\<close> (\<open>docker/manager.go\<close>, \<open>exec.go\<close>): the whole manager, in both of its modes; \<open>Docker_Facts\<close> its properties.
  \<^item> \<open>Docker_Cycles\<close>: cycles of the Docker manager that overlap, as \<open>main.go\<close> lets them, cut into steps.
  \<^item> \<open>Hub_Client\<close> (\<open>vendor/xfarm.hub/hub-ws-client/hubws.go\<close>, \<open>adb/hub.go\<close>): the client of the hub server, each message
    with its effect on the client's devices and its call of a handler, which is a record of functions. The locales
    \<open>event_handler\<close> and \<open>handler_part\<close> are what a handler owes its client.
  \<^item> \<open>K8s_Client\<close> (\<open>k8s/client.go\<close>) and \<open>K8s_Manager\<close> (\<open>k8s/manager.go\<close>): the requests to the API server, the handlers of
    the hub's events, the check of the pods, the pods of both platforms; \<open>K8s_Facts\<close> their properties.
    \<open>Hub_Session\<close> joins the manager to the client as its handler, with the hub server as an abstract map of devices.
  \<^item> \<open>Hub_Main\<close> (\<open>main.go\<close>): options, the APK, both start sequences, the watch loop and the reconcile channel.
  \<^item> \<open>Hub_Run\<close> (\<open>main.go\<close>): the interval, the start common to both modes, the USB monitor with the manager behind it,
    the steps of both modes, and what main, managers, monitor and server do together.
  \<^item> \<open>Web_Server\<close> (\<open>web/server.go\<close>): every handler, the event hub, the routes; \<open>Web_Facts\<close> its properties.
  \<^item> \<open>Dash_Page\<close>, \<open>Dash_Usb\<close> and \<open>Dash_Modal\<close> (\<open>web/server.go\<close>, the two pages with their scripts): what the template and the
    script make of the same data, the USB page as a client of the server, and the window of logs, screenshots and histories,
    where answers may overtake each other.

  \<^bold>\<open>State and steps.\<close> A Go struct is a record, a \<open>sync.Map\<close> a map or a set, an error the left side of a sum. A
  method with effects takes the record and returns it; the history of calls is a field of it, newest first, so a
  lemma can say which calls an operation made. A goroutine that the code starts is a call in the history and a
  definition of its own (\<open>rebootAndReport\<close>, the stabilising timer, the retry), and the systems of \<open>Docker_Facts\<close> and
  \<open>K8s_Facts\<close> run the handlers and the goroutines that wait in any order. A handler is one step: what two handlers
  do to each other in between is not modelled, and so not the mutexes, except for the cycles of the Docker manager,
  which \<open>Docker_Cycles\<close> cuts into steps. The reconcile channel and the event
  streams are step relations, in which sending, receiving and writing are steps of their own.

  \<^bold>\<open>What the lemmas show.\<close> Of the store: what is inserted is read back, the queries select, order and limit what they say,
  the statistics agree with the runs, a database of any version is upgraded. Of the ADB client: the printed
  device list parses back, the wait for a reboot ends, every reader of the battery and the bus answers what is
  there. Of the monitor: its log replays to the state of the bus. Of the managers: a result is reported once, a
  test starts only on a device that is ready, charged and in the right mode, a rebooting device is released again, a quiet
  cycle changes nothing, overlapping cycles share the results out, the devices known are those the hub server has, pods and labels are well formed. Of the main program: no half-written APK, no lost request
  for a cycle, no missed change of the devices. Of the server: no file outside the logs, no missed refresh, the
  settings as a map, the periods to the second. Of the pages: where the two ways to render agree and where not, a
  search and a filter that find the same, buttons that follow the store, a window that shows what its title says, a chart in its frame.

  \<^bold>\<open>Bounds.\<close> Integers are \<open>int\<close> where the code cannot leave 64 bits; the parsers of numbers and the durations have the
  bound written out. Floats are rationals with the rounding to doubles where a result is printed or cut. The only loop with fuel is
  the wait for a device: it polls every three seconds for at most five minutes, so 102 rounds are enough with a
  clock that moves by what is slept, which \<open>WaitForReady_returns\<close> proves for every such clock.

  \<^bold>\<open>Not modelled.\<close> JSON text, the layout and the styles of the pages, the table of device events of the dashboard, whose function
  nothing calls, the SQLite file, Docker, \<open>kubectl\<close>, HTTP and TLS: what the code
  gets from them is an answer of the world or an argument. The packages \<open>flag\<close> and \<open>signal\<close>, tickers and the HTTP
  listener: the order of the steps. Logging.
\<close>

end
